theory Spec2Isabelle
  imports Main
begin

section \<open>Strings and paths\<close>

text \<open>
  JavaScript strings are modelled as \<open>string\<close>; a value that may be \<open>undefined\<close> (an
  unset environment variable, a missing command-line argument, \<open>null\<close>) is a
  \<open>string option\<close>.  \<open>truthy\<close> is JavaScript's truth test on such a value: \<open>undefined\<close>
  and the empty string are falsy.
\<close>

definition truthy :: "string option \<Rightarrow> bool" where
  "truthy v = (case v of None \<Rightarrow> False | Some s \<Rightarrow> s \<noteq> [])"

text \<open>\<open>s.endsWith(suf)\<close>.\<close>

definition endsWith :: "string \<Rightarrow> string \<Rightarrow> bool" where
  "endsWith s suf \<longleftrightarrow> length suf \<le> length s \<and> drop (length s - length suf) s = suf"

text \<open>\<open>filePath.replace(/\.gz$/, "")\<close>: the trailing \<open>.gz\<close> is removed when there is one.\<close>

definition strip_gz :: "string \<Rightarrow> string" where
  "strip_gz p = (if endsWith p ''.gz'' then take (length p - 3) p else p)"

text \<open>\<open>s.replace(/[:.]/g, "-")\<close>: every colon and every full stop becomes a hyphen.\<close>

definition replace_colon_dot :: "string \<Rightarrow> string" where
  "replace_colon_dot s = map (\<lambda>ch. if ch = CHR '':'' \<or> ch = CHR ''.'' then CHR ''-'' else ch) s"

text \<open>
  Node's POSIX \<open>path.basename\<close> and \<open>path.join\<close> (library functions the program calls):
  \<open>basename\<close> drops trailing slashes and keeps what follows the last remaining slash;
  \<open>join\<close> glues the non-empty arguments with a slash and normalises the result (empty
  and \<open>.\<close> segments vanish, \<open>..\<close> cancels the segment before it).
\<close>

definition basename :: "string \<Rightarrow> string" where
  "basename p =
     rev (takeWhile (\<lambda>ch. ch \<noteq> CHR ''/'') (dropWhile (\<lambda>ch. ch = CHR ''/'') (rev p)))"

primrec split_slash :: "string \<Rightarrow> string list" where
  "split_slash [] = [[]]"
| "split_slash (ch # cs) =
     (if ch = CHR ''/'' then [] # split_slash cs
      else (case split_slash cs of [] \<Rightarrow> [[ch]] | s # ss \<Rightarrow> (ch # s) # ss))"

fun join_slash :: "string list \<Rightarrow> string" where
  "join_slash [] = []"
| "join_slash [s] = s"
| "join_slash (s # t # ss) = s @ ''/'' @ join_slash (t # ss)"

text \<open>The segments kept so far are held in reverse, so the last one is at the head.\<close>

fun normalizeString :: "bool \<Rightarrow> string list \<Rightarrow> string list \<Rightarrow> string list" where
  "normalizeString allowAboveRoot res [] = rev res"
| "normalizeString allowAboveRoot res (s # ss) =
     (if s = [] \<or> s = ''.'' then normalizeString allowAboveRoot res ss
      else if s = ''..'' then
        (case res of
           [] \<Rightarrow> normalizeString allowAboveRoot (if allowAboveRoot then [s] else []) ss
         | t # ts \<Rightarrow>
             if t \<noteq> ''..'' then normalizeString allowAboveRoot ts ss
             else normalizeString allowAboveRoot (if allowAboveRoot then s # res else res) ss)
      else normalizeString allowAboveRoot (s # res) ss)"

definition normalize :: "string \<Rightarrow> string" where
  "normalize p =
     (if p = [] then ''.''
      else
        let isAbsolute = (hd p = CHR ''/'');
            trailingSeparator = (last p = CHR ''/'');
            q = join_slash (normalizeString (\<not> isAbsolute) [] (split_slash p))
        in if q = [] then (if isAbsolute then ''/'' else if trailingSeparator then ''./'' else ''.'')
           else (if isAbsolute then ''/'' else []) @ q @ (if trailingSeparator then ''/'' else []))"

definition path_join :: "string \<Rightarrow> string \<Rightarrow> string" where
  "path_join a b =
     (let parts = filter (\<lambda>s. s \<noteq> []) [a, b]
      in if parts = [] then ''.'' else normalize (join_slash parts))"

section \<open>Environment resolution (backup.js, lines 29--61)\<close>

text \<open>
  \<open>process.env\<close> is a dictionary from variable names to strings, taken after dotenv has
  loaded its file.  \<open>new URL(s)\<close> is a library call: it is a parameter \<open>new_URL\<close> that
  gives the parsed components, or \<open>None\<close> where the constructor throws.
\<close>

type_synonym process_env = "string \<rightharpoonup> string"

record url =
  hostname :: string
  port :: string
  username :: string
  password :: string
  pathname :: string

text \<open>
  Lines 30--41.  A DATABASE_URL that parses overwrites all five DB variables; assigning to
  \<open>process.env\<close> stores a string, so the number 5432 is stored as \<open>''5432''\<close>.  A
  DATABASE_URL that does not parse is reported on the console and changes nothing; the
  second component tells whether that report was printed.
\<close>

definition parse_DATABASE_URL :: "(string \<Rightarrow> url option) \<Rightarrow> process_env \<Rightarrow> process_env \<times> bool" where
  "parse_DATABASE_URL new_URL env =
     (case env ''DATABASE_URL'' of
        None \<Rightarrow> (env, False)
      | Some s \<Rightarrow>
          if s = [] then (env, False)
          else
            (case new_URL s of
               None \<Rightarrow> (env, True)
             | Some dbUrl \<Rightarrow>
                 (env(''DB_HOST'' \<mapsto> hostname dbUrl,
                      ''DB_PORT'' \<mapsto> (if port dbUrl \<noteq> [] then port dbUrl else ''5432''),
                      ''DB_USERNAME'' \<mapsto> username dbUrl,
                      ''DB_PASSWORD'' \<mapsto> password dbUrl,
                      ''DB_NAME'' \<mapsto> drop 1 (pathname dbUrl)), False)))"

text \<open>
  The constants destructured from \<open>process.env\<close> at lines 43--54 and 61, once the check
  of lines 56--59 has passed: host, user name and database name are then non-empty
  strings.  The AWS endpoint, region and credentials only configure the client and are
  left out.
\<close>

record config =
  DB_HOST :: string
  DB_USERNAME :: string
  DB_PASSWORD :: "string option"
  DB_NAME :: string
  DB_PORT :: string
  B2_BUCKET :: "string option"
  BACKUP_DIR :: string

datatype config_error = ConfigError

definition load_config :: "(string \<Rightarrow> url option) \<Rightarrow> process_env \<Rightarrow> config_error + config" where
  "load_config new_URL env0 =
     (let env = fst (parse_DATABASE_URL new_URL env0)
      in if \<not> truthy (env ''DB_HOST'') \<or> \<not> truthy (env ''DB_NAME'') \<or> \<not> truthy (env ''DB_USERNAME'')
         then Inl ConfigError
         else Inr \<lparr> DB_HOST = the (env ''DB_HOST''),
                    DB_USERNAME = the (env ''DB_USERNAME''),
                    DB_PASSWORD = env ''DB_PASSWORD'',
                    DB_NAME = the (env ''DB_NAME''),
                    DB_PORT = (case env ''DB_PORT'' of None \<Rightarrow> ''5432'' | Some p \<Rightarrow> p),
                    B2_BUCKET = env ''B2_BUCKET'',
                    BACKUP_DIR = (if truthy (env ''BACKUP_DIR'') then the (env ''BACKUP_DIR'') else ''./backups'') \<rparr>)"

section \<open>The outside world: file system, child processes, bucket, console\<close>

text \<open>
  Errors are values.  A promise that rejects, or a synchronous throw, is \<open>Rejected\<close>: an
  enclosing \<open>try\<close>/\<open>catch\<close> can intercept it.  An \<open>error\<close> event on a stream that has no
  listener is thrown by the event loop itself: it is \<open>Uncaught\<close>, and no handler of the
  program sees it.
\<close>

datatype stage = Source | Codec | Sink

text \<open>
  How a pipeline into a write stream ends: it finishes; or one of its streams fails after
  the destination file has been opened, leaving what was written so far; or one of its
  streams fails while the destination file has not been created.  The last case with the
  stage \<open>Sink\<close> is the destination that cannot be opened at all, an error of the write
  stream; with another stage it is a read or codec error that comes before the open.
\<close>

datatype stream_outcome = Finished | Faulted stage | NotOpened stage

fun sink_opened :: "stream_outcome \<Rightarrow> bool" where
  "sink_opened Finished = True"
| "sink_opened (Faulted s) = True"
| "sink_opened (NotOpened s) = False"

datatype error =
    CommandFailed string
  | PutFailed string
  | ListFailed
  | DeleteFailed string
  | NoSuchFile string
  | StreamFault stage
  | MkdirFailed string
  | ReaddirFailed string
  | StatFailed string

datatype failure = Rejected error | Uncaught error

text \<open>The lines the program prints, one constructor for each \<open>console\<close> call.\<close>

datatype message =
    FailedToParseDatabaseUrl
  | MissingDatabaseConfig
  | CreatingBackup string
  | BackupSaved string
  | Restoring string
  | RestoreComplete
  | RestoreFailed error
  | StartingDevServer
  | Uploaded string
  | LocalFileDeleted string
  | DeletedOldBackup string
  | UploadCleanupFailed error
  | NoBackupFileFound
  | Usage

text \<open>
  What the program does to its surroundings, in the order it does it.  A call that is
  awaited carries its outcome (\<open>True\<close> for success), and the next event is recorded only
  once that call has returned.
\<close>

datatype event =
    ConsoleLog message
  | ConsoleError message
  | Exec string bool
  | CreateWriteStream string
  | UnlinkSync string
  | PutObject string bool
  | ListObjectsV2 bool
  | DeleteObject string bool

record s3_object =
  Key :: string
  LastModified :: int

record world =
  files :: "string set"
  bucket :: "s3_object list"
  trace :: "event list"

text \<open>
  What the program cannot decide: the URL parser, the clock, whether the staging
  directory is missing and cannot be created, what \<open>fs.readdirSync\<close> gives
  for the staging directory at start-up (\<open>None\<close> where it throws) and what
  \<open>fs.statSync\<close> gives as modification time of a path (\<open>None\<close> where it throws), whether
  a command exits with an error, how a stream pipeline ends, and whether a request to the
  bucket fails.
\<close>

record externals =
  new_URL :: "string \<Rightarrow> url option"
  toISOString :: string
  mkdirSync_fails :: bool
  readdirSync :: "string list option"
  mtime :: "string \<Rightarrow> int option"
  exec_fails :: "string \<Rightarrow> bool"
  gzip_outcome :: "string \<Rightarrow> stream_outcome"
  gunzip_outcome :: "string \<Rightarrow> stream_outcome"
  put_fails :: "string \<Rightarrow> bool"
  list_fails :: bool
  delete_fails :: "string \<Rightarrow> bool"
  put_time :: int

type_synonym 'a io = "world \<Rightarrow> (failure + 'a) \<times> world"

definition return :: "'a \<Rightarrow> 'a io" where
  "return a = (\<lambda>w. (Inr a, w))"

definition fail :: "failure \<Rightarrow> 'a io" where
  "fail e = (\<lambda>w. (Inl e, w))"

text \<open>Sequencing of awaited steps: a failure of the first step skips the rest.\<close>

definition andThen :: "'a io \<Rightarrow> ('a \<Rightarrow> 'b io) \<Rightarrow> 'b io" where
  "andThen m f = (\<lambda>w. case m w of (Inl e, w') \<Rightarrow> (Inl e, w') | (Inr a, w') \<Rightarrow> f a w')"

text \<open>\<open>try { m } catch (err) { h err }\<close>.\<close>

definition catch :: "'a io \<Rightarrow> (error \<Rightarrow> 'a io) \<Rightarrow> 'a io" where
  "catch m h = (\<lambda>w. case m w of (Inl (Rejected err), w') \<Rightarrow> h err w' | r \<Rightarrow> r)"

definition emit :: "event \<Rightarrow> unit io" where
  "emit ev = (\<lambda>w. (Inr (), w\<lparr>trace := trace w @ [ev]\<rparr>))"

definition console_log :: "message \<Rightarrow> unit io" where
  "console_log m = emit (ConsoleLog m)"

definition console_error :: "message \<Rightarrow> unit io" where
  "console_error m = emit (ConsoleError m)"

text \<open>The events a computation added to the trace.\<close>

definition emitted :: "world \<Rightarrow> world \<Rightarrow> event list" where
  "emitted w w' = drop (length (trace w)) (trace w')"

text \<open>
  \<open>runCommand\<close> (lines 65--76): the promise rejects when the command ends with an error.
\<close>

definition runCommand :: "externals \<Rightarrow> string \<Rightarrow> unit io" where
  "runCommand x cmd =
     (if exec_fails x cmd
      then andThen (emit (Exec cmd False)) (\<lambda>_. fail (Rejected (CommandFailed cmd)))
      else emit (Exec cmd True))"

text \<open>\<open>fs.unlinkSync\<close> throws when there is no such file.\<close>

definition unlinkSync :: "string \<Rightarrow> unit io" where
  "unlinkSync p =
     (\<lambda>w. if p \<in> files w
           then (Inr (), w\<lparr>files := files w - {p}, trace := trace w @ [UnlinkSync p]\<rparr>)
           else (Inl (Rejected (NoSuchFile p)), w\<lparr>trace := trace w @ [UnlinkSync p]\<rparr>))"

text \<open>
  \<open>fs.createWriteStream\<close> returns at once.  When the file can be opened it is created, or
  emptied, before any data flows; when it cannot, nothing is created and the stream
  reports an error later.
\<close>

definition createWriteStream :: "string \<Rightarrow> bool \<Rightarrow> unit io" where
  "createWriteStream p opened =
     (\<lambda>w. (Inr (),
           w\<lparr>files := (if opened then insert p (files w) else files w),
             trace := trace w @ [CreateWriteStream p]\<rparr>))"

text \<open>
  \<open>fs.createReadStream\<close> on a file that is not there: the stream's \<open>error\<close> event comes
  before anything listens for it, so it is thrown uncaught.
\<close>

definition createReadStream :: "string \<Rightarrow> unit io" where
  "createReadStream p = (\<lambda>w. if p \<in> files w then (Inr (), w) else (Inl (Uncaught (NoSuchFile p)), w))"

text \<open>The file a dump command has written with its \<open>-f\<close> option when it ends without error.\<close>

definition written_by_pg_dump :: "string \<Rightarrow> unit io" where
  "written_by_pg_dump p = (\<lambda>w. (Inr (), w\<lparr>files := insert p (files w)\<rparr>))"

text \<open>
  The three requests sent to the bucket.  An upload replaces the object of the same key.
  A listing answers with every object of the bucket, in the bucket's own order (the
  bucket is taken to fit one page of the listing); for an empty bucket the answer has no
  \<open>Contents\<close>.  A deletion removes the object of that key.  A failed request changes
  nothing.
\<close>

definition send_PutObject :: "externals \<Rightarrow> string \<Rightarrow> unit io" where
  "send_PutObject x key =
     (\<lambda>w. if put_fails x key
           then (Inl (Rejected (PutFailed key)), w\<lparr>trace := trace w @ [PutObject key False]\<rparr>)
           else (Inr (),
                 w\<lparr>bucket := filter (\<lambda>ob. Key ob \<noteq> key) (bucket w)
                                @ [\<lparr>Key = key, LastModified = put_time x\<rparr>],
                   trace := trace w @ [PutObject key True]\<rparr>))"

definition send_ListObjectsV2 :: "externals \<Rightarrow> s3_object list option io" where
  "send_ListObjectsV2 x =
     (\<lambda>w. if list_fails x
           then (Inl (Rejected ListFailed), w\<lparr>trace := trace w @ [ListObjectsV2 False]\<rparr>)
           else (Inr (if bucket w = [] then None else Some (bucket w)),
                 w\<lparr>trace := trace w @ [ListObjectsV2 True]\<rparr>))"

definition send_DeleteObject :: "externals \<Rightarrow> string \<Rightarrow> unit io" where
  "send_DeleteObject x key =
     (\<lambda>w. if delete_fails x key
           then (Inl (Rejected (DeleteFailed key)), w\<lparr>trace := trace w @ [DeleteObject key False]\<rparr>)
           else (Inr (),
                 w\<lparr>bucket := filter (\<lambda>ob. Key ob \<noteq> key) (bucket w),
                   trace := trace w @ [DeleteObject key True]\<rparr>))"

section \<open>The program (backup.js)\<close>

subsection \<open>getLatestBackup (lines 78--88)\<close>

text \<open>The test \<open>/\.(sql|dump)(\.gz)?$/\<close> on a file name.\<close>

definition is_backup_name :: "string \<Rightarrow> bool" where
  "is_backup_name f \<longleftrightarrow>
     endsWith f ''.sql'' \<or> endsWith f ''.dump'' \<or> endsWith f ''.sql.gz'' \<or> endsWith f ''.dump.gz''"

record file_entry =
  name :: string
  time :: int

text \<open>
  The \<open>map\<close> of lines 82--85 over the matching names: \<open>fs.statSync\<close> is called for each
  name in turn, and the first call that throws ends the whole function with that error.
\<close>

primrec stat_each :: "externals \<Rightarrow> string \<Rightarrow> string list \<Rightarrow> error + file_entry list" where
  "stat_each x dir [] = Inr []"
| "stat_each x dir (f # fs) =
     (case mtime x (path_join dir f) of
        None \<Rightarrow> Inl (StatFailed (path_join dir f))
      | Some t \<Rightarrow>
          (case stat_each x dir fs of
             Inl e \<Rightarrow> Inl e
           | Inr entries \<Rightarrow> Inr (\<lparr>name = f, time = t\<rparr> # entries)))"

text \<open>
  \<open>Array.prototype.sort\<close> is stable; with the comparator \<open>b.time - a.time\<close> it orders by
  descending time, which is \<open>sort_key\<close> on the negated time.  The result is \<open>Inl\<close> where
  the function throws, \<open>Inr None\<close> where it returns \<open>null\<close>.
\<close>

definition getLatestBackup :: "externals \<Rightarrow> config \<Rightarrow> error + string option" where
  "getLatestBackup x c =
     (case readdirSync x of
        None \<Rightarrow> Inl (ReaddirFailed (BACKUP_DIR c))
      | Some names \<Rightarrow>
          (case stat_each x (BACKUP_DIR c) (filter is_backup_name names) of
             Inl e \<Rightarrow> Inl e
           | Inr entries \<Rightarrow>
               (case sort_key (\<lambda>a. - time a) entries of
                  [] \<Rightarrow> Inr None
                | first # _ \<Rightarrow> Inr (Some (path_join (BACKUP_DIR c) (name first))))))"

subsection \<open>uploadToBackblaze (lines 166--217)\<close>

definition KEEP_LAST :: nat where
  "KEEP_LAST = 7"

text \<open>The \<open>for\<close> loop of lines 207--212.\<close>

fun delete_each :: "externals \<Rightarrow> s3_object list \<Rightarrow> unit io" where
  "delete_each x [] = return ()"
| "delete_each x (file # rest) =
     andThen (send_DeleteObject x (Key file)) (\<lambda>_.
     andThen (console_log (DeletedOldBackup (Key file))) (\<lambda>_.
     delete_each x rest))"

text \<open>Lines 197--213: the retention pass, the last part of the \<open>try\<close> block.\<close>

definition retention_pass :: "externals \<Rightarrow> unit io" where
  "retention_pass x =
     andThen (send_ListObjectsV2 x) (\<lambda>Contents.
       case Contents of
         None \<Rightarrow> return ()
       | Some contents \<Rightarrow>
           if length contents > KEEP_LAST
           then (let sorted_contents = sort_key (\<lambda>ob. - LastModified ob) contents;
                     oldFiles = drop KEEP_LAST sorted_contents
                 in delete_each x oldFiles)
           else return ())"

text \<open>
  The read stream of line 180 is made before the \<open>try\<close> block of lines 182--216, so the
  handler of that block does not cover it.
\<close>

definition uploadToBackblaze :: "externals \<Rightarrow> config \<Rightarrow> string \<Rightarrow> unit io" where
  "uploadToBackblaze x c filePath =
     (if \<not> truthy (B2_BUCKET c) then return ()
      else
        let key = basename filePath
        in andThen (createReadStream filePath) (\<lambda>_.
           catch
             (andThen (send_PutObject x key) (\<lambda>_.
              andThen (console_log (Uploaded key)) (\<lambda>_.
              andThen (unlinkSync filePath) (\<lambda>_.
              andThen (console_log (LocalFileDeleted filePath)) (\<lambda>_.
              retention_pass x)))))
             (\<lambda>err. console_error (UploadCleanupFailed err))))"

subsection \<open>backup (lines 91--121)\<close>

text \<open>
  Lines 92--95: the path of the artifact, from the clock's \<open>toISOString()\<close> string.
\<close>

definition outFile :: "config \<Rightarrow> bool \<Rightarrow> string \<Rightarrow> string" where
  "outFile c dataOnly isoString =
     (let ts = replace_colon_dot isoString;
          suffix = (if dataOnly then ''data-only'' else ''full'');
          ext = (if dataOnly then ''sql.gz'' else ''dump'')
      in path_join (BACKUP_DIR c) (DB_NAME c @ ''-'' @ suffix @ ''-'' @ ts @ ''.'' @ ext))"

text \<open>
  Lines 97--101.  A backslash at the end of a line of a template literal joins the lines,
  so the indentation of the second line stays in the command.
\<close>

definition dumpCmd :: "config \<Rightarrow> bool \<Rightarrow> string" where
  "dumpCmd c dataOnly =
     (if dataOnly
      then ''pg_dump -h '' @ DB_HOST c @ '' -p '' @ DB_PORT c @ '' -U '' @ DB_USERNAME c
             @ ''        --data-only --no-owner --no-acl '' @ DB_NAME c
      else ''pg_dump -h '' @ DB_HOST c @ '' -p '' @ DB_PORT c @ '' -U '' @ DB_USERNAME c
             @ ''        --no-owner --no-acl --clean --if-exists -Fc '' @ DB_NAME c)"

text \<open>
  In data-only mode the dump process is started without a callback, so its exit status is
  never looked at, and no stream of the pipeline has an \<open>error\<close> listener: a fault of the
  pipeline is uncaught.  The \<open>finish\<close> handler runs when the file has been written.  In
  full mode the dump command writes the file itself.
\<close>

definition backup :: "externals \<Rightarrow> config \<Rightarrow> bool \<Rightarrow> unit io" where
  \<open>backup x c dataOnly =
     (let out = outFile c dataOnly (toISOString x);
          suffix = (if dataOnly then ''data-only'' else ''full'')
      in andThen (console_log (CreatingBackup suffix)) (\<lambda>_.
         if dataOnly then
           andThen (emit (Exec (dumpCmd c dataOnly) (\<not> exec_fails x (dumpCmd c dataOnly)))) (\<lambda>_.
           andThen (createWriteStream out (sink_opened (gzip_outcome x out))) (\<lambda>_.
           case gzip_outcome x out of
             Finished \<Rightarrow>
               andThen (console_log (BackupSaved out)) (\<lambda>_.
               uploadToBackblaze x c out)
           | Faulted s \<Rightarrow> fail (Uncaught (StreamFault s))
           | NotOpened s \<Rightarrow> fail (Uncaught (StreamFault s))))
         else
           andThen (runCommand x (dumpCmd c dataOnly @ '' -f "'' @ out @ ''"'')) (\<lambda>_.
           andThen (written_by_pg_dump out) (\<lambda>_.
           andThen (console_log (BackupSaved out)) (\<lambda>_.
           uploadToBackblaze x c out)))))\<close>

subsection \<open>restore and restoreAndDev (lines 124--163)\<close>

text \<open>
  Lines 130--137: the promise around the decompression pipeline.  Its two handlers are
  attached to the last stream only, the write stream: it resolves on \<open>finish\<close> and rejects
  on an error of the write stream, also the error of not being opened.  An error of the
  read stream or of the gunzip stream has no listener.
\<close>

definition stream_failure :: "stage \<Rightarrow> failure" where
  "stream_failure s = (if s = Sink then Rejected (StreamFault s) else Uncaught (StreamFault s))"

definition await_decompression :: "stream_outcome \<Rightarrow> unit io" where
  "await_decompression r =
     (case r of
        Finished \<Rightarrow> return ()
      | Faulted s \<Rightarrow> fail (stream_failure s)
      | NotOpened s \<Rightarrow> fail (stream_failure s))"

definition restoreCmd :: "config \<Rightarrow> string \<Rightarrow> string" where
  \<open>restoreCmd c sqlFilePath =
     (if endsWith sqlFilePath ''.dump''
      then ''pg_restore -h '' @ DB_HOST c @ '' -p '' @ DB_PORT c @ '' -U '' @ DB_USERNAME c
             @ ''       --no-owner --no-acl --clean --if-exists -d '' @ DB_NAME c
             @ '' "'' @ sqlFilePath @ ''"''
      else ''psql -h '' @ DB_HOST c @ '' -p '' @ DB_PORT c @ '' -U '' @ DB_USERNAME c
             @ ''       -d '' @ DB_NAME c @ '' -f "'' @ sqlFilePath @ ''"'')\<close>

definition restore :: "externals \<Rightarrow> config \<Rightarrow> string \<Rightarrow> unit io" where
  "restore x c filePath =
     andThen (console_log (Restoring filePath)) (\<lambda>_.
     andThen
       (if endsWith filePath ''.gz''
        then (let decompressed = strip_gz filePath
              in andThen (createWriteStream decompressed (sink_opened (gunzip_outcome x filePath))) (\<lambda>_.
                 andThen (await_decompression (gunzip_outcome x filePath)) (\<lambda>_.
                 return decompressed)))
        else return filePath) (\<lambda>sqlFilePath.
     andThen
       (catch
          (andThen (runCommand x (restoreCmd c sqlFilePath)) (\<lambda>_. console_log RestoreComplete))
          (\<lambda>err. console_error (RestoreFailed err))) (\<lambda>_.
     if sqlFilePath \<noteq> filePath then unlinkSync sqlFilePath else return ())))"

text \<open>
  The dev server is started without \<open>await\<close>; nothing follows it, and a rejection of its
  promise has no handler either way.
\<close>

definition restoreAndDev :: "externals \<Rightarrow> config \<Rightarrow> string \<Rightarrow> unit io" where
  "restoreAndDev x c filePath =
     andThen (restore x c filePath) (\<lambda>_.
     andThen (console_log StartingDevServer) (\<lambda>_.
     runCommand x ''npm run dev''))"

subsection \<open>The command line (lines 220--245) and the whole process\<close>

text \<open>
  Line 222, \<open>file || getLatestBackup()\<close>, comes before the \<open>switch\<close>: when no file is
  given \<open>getLatestBackup\<close> is called whatever the command, and an error it throws
  rejects the promise of the command-line function.
\<close>

definition cli :: "externals \<Rightarrow> config \<Rightarrow> string option \<Rightarrow> string option \<Rightarrow> unit io" where
  "cli x c cmd file =
     andThen
       (if truthy file then return file
        else (case getLatestBackup x c of
                Inl e \<Rightarrow> fail (Rejected e)
              | Inr latest \<Rightarrow> return latest)) (\<lambda>f.
     if cmd = Some ''backup'' then backup x c False
     else if cmd = Some ''backup-data'' then backup x c True
     else if cmd = Some ''restore'' then
       (case f of
          Some p \<Rightarrow> if p \<noteq> [] then restore x c p else console_error NoBackupFileFound
        | None \<Rightarrow> console_error NoBackupFileFound)
     else if cmd = Some ''restore-and-dev'' then
       (case f of
          Some p \<Rightarrow> if p \<noteq> [] then restoreAndDev x c p else console_error NoBackupFileFound
        | None \<Rightarrow> console_error NoBackupFileFound)
     else console_log Usage)"

text \<open>
  How the process ends.  \<open>process.exit(1)\<close> at line 58 is \<open>Exited 1\<close>.  Nothing handles the
  promise of the command-line function, so a rejection that reaches it ends the process
  as an unhandled rejection, and an uncaught error ends it as an uncaught exception; Node
  gives both the exit status 1.  Line 62 creates the staging directory when it is not
  there; \<open>fs.mkdirSync\<close> is called at the top level, so when it throws the process ends
  before any command is looked at.
\<close>

datatype outcome = Completed | Exited nat | UnhandledRejection error | UncaughtException error

definition exit_status :: "outcome \<Rightarrow> nat" where
  "exit_status out =
     (case out of
        Completed \<Rightarrow> 0
      | Exited n \<Rightarrow> n
      | UnhandledRejection e \<Rightarrow> 1
      | UncaughtException e \<Rightarrow> 1)"

definition ended :: "(failure + unit) \<Rightarrow> outcome" where
  "ended r =
     (case r of
        Inr _ \<Rightarrow> Completed
      | Inl (Rejected e) \<Rightarrow> UnhandledRejection e
      | Inl (Uncaught e) \<Rightarrow> UncaughtException e)"

definition process_run ::
  "externals \<Rightarrow> process_env \<Rightarrow> string option \<Rightarrow> string option \<Rightarrow> world \<Rightarrow> outcome \<times> world" where
  "process_run x env cmd file w =
     (let w1 = (if snd (parse_DATABASE_URL (new_URL x) env)
                then snd (console_error FailedToParseDatabaseUrl w) else w)
      in case load_config (new_URL x) env of
           Inl _ \<Rightarrow> (Exited 1, snd (console_error MissingDatabaseConfig w1))
         | Inr c \<Rightarrow>
             if mkdirSync_fails x then (UncaughtException (MkdirFailed (BACKUP_DIR c)), w1)
             else (case cli x c cmd file w1 of (r, w') \<Rightarrow> (ended r, w')))"

section \<open>Vocabulary of the statements\<close>

text \<open>
  The parsed DATABASE_URL, when the variable is set, is not empty and is well-formed.
\<close>

definition database_url :: "(string \<Rightarrow> url option) \<Rightarrow> process_env \<Rightarrow> url option" where
  "database_url parser env =
     (case env ''DATABASE_URL'' of None \<Rightarrow> None | Some s \<Rightarrow> if s = [] then None else parser s)"

text \<open>\<open>precedes a b es\<close>: in \<open>es\<close>, no \<open>b\<close> comes before the first \<open>a\<close>.\<close>

fun precedes :: "'a \<Rightarrow> 'a \<Rightarrow> 'a list \<Rightarrow> bool" where
  "precedes a b [] = True"
| "precedes a b (e # es) = (e = a \<or> (e \<noteq> b \<and> precedes a b es))"

text \<open>
  Frame conditions.  \<open>preserves R m\<close>: whatever the starting state, the state after \<open>m\<close>
  is related to it by \<open>R\<close>.  The relations used: the trace is only appended to; the
  files outside a set \<open>D\<close> of paths are the same; the bucket is the same.
\<close>

definition preserves :: "(world \<Rightarrow> world \<Rightarrow> bool) \<Rightarrow> 'a io \<Rightarrow> bool" where
  "preserves R m \<longleftrightarrow> (\<forall>w. R w (snd (m w)))"

definition trace_extends :: "world \<Rightarrow> world \<Rightarrow> bool" where
  "trace_extends w w' \<longleftrightarrow> (\<exists>es. trace w' = trace w @ es)"

definition same_files_except :: "string set \<Rightarrow> world \<Rightarrow> world \<Rightarrow> bool" where
  "same_files_except D w w' \<longleftrightarrow> files w' - D = files w - D"

definition same_bucket :: "world \<Rightarrow> world \<Rightarrow> bool" where
  "same_bucket w w' \<longleftrightarrow> bucket w' = bucket w"

text \<open>The deletion requests of a trace, in order, each with its outcome.\<close>

fun delete_requests :: "event list \<Rightarrow> (string \<times> bool) list" where
  "delete_requests [] = []"
| "delete_requests (DeleteObject k ok # es) = (k, ok) # delete_requests es"
| "delete_requests (e # es) = delete_requests es"

text \<open>
  \<open>failures_reported c es\<close>: among the events \<open>es\<close>, every failed request to the bucket
  and every failed run of a restore command comes with its report on the error console.
\<close>

definition failures_reported :: "config \<Rightarrow> event list \<Rightarrow> bool" where
  "failures_reported c es \<longleftrightarrow>
     (\<forall>k. PutObject k False \<in> set es \<longrightarrow>
          ConsoleError (UploadCleanupFailed (PutFailed k)) \<in> set es) \<and>
     (ListObjectsV2 False \<in> set es \<longrightarrow>
          ConsoleError (UploadCleanupFailed ListFailed) \<in> set es) \<and>
     (\<forall>k. DeleteObject k False \<in> set es \<longrightarrow>
          ConsoleError (UploadCleanupFailed (DeleteFailed k)) \<in> set es) \<and>
     (\<forall>p. Exec (restoreCmd c p) False \<in> set es \<longrightarrow>
          ConsoleError (RestoreFailed (CommandFailed (restoreCmd c p))) \<in> set es)"

text \<open>
  \<open>reports_justified c es\<close>, the converse: among the events \<open>es\<close>, every report of a
  failed upload or clean-up is the report of a failed request to the bucket that is among
  them, and every report of a failed restore is the report of a failed run of a restore
  command that is among them.
\<close>

definition reports_justified :: "config \<Rightarrow> event list \<Rightarrow> bool" where
  "reports_justified c es \<longleftrightarrow>
     (\<forall>err. ConsoleError (UploadCleanupFailed err) \<in> set es \<longrightarrow>
          (\<exists>k. err = PutFailed k \<and> PutObject k False \<in> set es) \<or>
          (err = ListFailed \<and> ListObjectsV2 False \<in> set es) \<or>
          (\<exists>k. err = DeleteFailed k \<and> DeleteObject k False \<in> set es)) \<and>
     (\<forall>err. ConsoleError (RestoreFailed err) \<in> set es \<longrightarrow>
          (\<exists>p. err = CommandFailed (restoreCmd c p) \<and> Exec (restoreCmd c p) False \<in> set es))"

definition reports_extend :: "config \<Rightarrow> world \<Rightarrow> world \<Rightarrow> bool" where
  "reports_extend c w w' \<longleftrightarrow>
     (\<exists>es. trace w' = trace w @ es \<and> failures_reported c es \<and> reports_justified c es)"

text \<open>
  The two reports printed while the environment is resolved, and the relation "the trace
  is extended by events none of which is such a report".
\<close>

definition startup_report :: "event \<Rightarrow> bool" where
  "startup_report e \<longleftrightarrow>
     e = ConsoleError FailedToParseDatabaseUrl \<or> e = ConsoleError MissingDatabaseConfig"

definition adds_no_startup_report :: "world \<Rightarrow> world \<Rightarrow> bool" where
  "adds_no_startup_report w w' \<longleftrightarrow>
     (\<exists>es. trace w' = trace w @ es \<and> (\<forall>e \<in> set es. \<not> startup_report e))"

section \<open>Concrete inputs\<close>

definition example_new_URL :: "string \<Rightarrow> url option" where
  "example_new_URL s =
     (if s = ''postgres://bob:pw@url.example/shop''
      then Some \<lparr>hostname = ''url.example'', port = [], username = ''bob'', password = ''pw'',
                 pathname = ''/shop''\<rparr>
      else if s = ''postgres://url.example/shop''
      then Some \<lparr>hostname = ''url.example'', port = [], username = [], password = [],
                 pathname = ''/shop''\<rparr>
      else None)"

text \<open>All discrete variables and a well-formed URL.\<close>

definition example_env_both :: process_env where
  "example_env_both =
     [''DB_HOST'' \<mapsto> ''discrete.example'', ''DB_PORT'' \<mapsto> ''6543'', ''DB_USERNAME'' \<mapsto> ''alice'',
      ''DB_PASSWORD'' \<mapsto> ''secret'', ''DB_NAME'' \<mapsto> ''inventory'',
      ''DATABASE_URL'' \<mapsto> ''postgres://bob:pw@url.example/shop'']"

text \<open>Host, user and database given by discrete variables, and a URL that does not parse.\<close>

definition example_env_bad_url :: process_env where
  "example_env_bad_url =
     [''DB_HOST'' \<mapsto> ''discrete.example'', ''DB_USERNAME'' \<mapsto> ''alice'',
      ''DB_NAME'' \<mapsto> ''inventory'', ''DATABASE_URL'' \<mapsto> ''not a url'']"

text \<open>The same discrete variables, and a well-formed URL that names no user.\<close>

definition example_env_no_user :: process_env where
  "example_env_no_user =
     [''DB_HOST'' \<mapsto> ''discrete.example'', ''DB_USERNAME'' \<mapsto> ''alice'',
      ''DB_NAME'' \<mapsto> ''inventory'', ''DATABASE_URL'' \<mapsto> ''postgres://url.example/shop'']"

definition example_config :: config where
  "example_config =
     \<lparr>DB_HOST = ''db.example'', DB_USERNAME = ''alice'', DB_PASSWORD = Some ''secret'',
      DB_NAME = ''shop'', DB_PORT = ''5432'', B2_BUCKET = Some ''backups-bucket'',
      BACKUP_DIR = ''./backups''\<rparr>"

text \<open>Surroundings in which nothing fails.\<close>

definition example_externals :: externals where
  "example_externals =
     \<lparr>new_URL = example_new_URL,
      toISOString = ''2024-01-02T03:04:05.678Z'',
      mkdirSync_fails = False,
      readdirSync = Some [''a.dump'', ''notes.txt'', ''b.sql.gz''],
      mtime = (\<lambda>p. if p = ''backups/b.sql.gz'' then Some 200 else Some 100),
      exec_fails = (\<lambda>cmd. False),
      gzip_outcome = (\<lambda>p. Finished),
      gunzip_outcome = (\<lambda>p. Finished),
      put_fails = (\<lambda>key. False),
      list_fails = False,
      delete_fails = (\<lambda>key. False),
      put_time = 1000\<rparr>"

definition example_world :: world where
  "example_world =
     \<lparr>files = {''backups/a.dump'', ''backups/b.sql.gz''}, bucket = [], trace = []\<rparr>"

text \<open>
  A bucket of nine objects.  From newest to oldest they are k3, k7, k5, k9, k1, k8, k4,
  k6, k2; the two oldest are k6 and k2.
\<close>

definition example_bucket :: "s3_object list" where
  "example_bucket =
     [\<lparr>Key = ''k1'', LastModified = 50\<rparr>, \<lparr>Key = ''k2'', LastModified = 10\<rparr>,
      \<lparr>Key = ''k3'', LastModified = 90\<rparr>, \<lparr>Key = ''k4'', LastModified = 30\<rparr>,
      \<lparr>Key = ''k5'', LastModified = 70\<rparr>, \<lparr>Key = ''k6'', LastModified = 20\<rparr>,
      \<lparr>Key = ''k7'', LastModified = 80\<rparr>, \<lparr>Key = ''k8'', LastModified = 40\<rparr>,
      \<lparr>Key = ''k9'', LastModified = 60\<rparr>]"

definition example_world_full :: world where
  "example_world_full =
     \<lparr>files = {''backups/a.dump'', ''backups/b.sql.gz''}, bucket = example_bucket, trace = []\<rparr>"

text \<open>Surroundings in which the deletion of k6, and only that request, fails.\<close>

definition example_externals_k6 :: externals where
  "example_externals_k6 = example_externals\<lparr>delete_fails := (\<lambda>key. key = ''k6'')\<rparr>"

text \<open>Surroundings in which every command fails, and a valid environment.\<close>

definition example_externals_commands_fail :: externals where
  "example_externals_commands_fail = example_externals\<lparr>exec_fails := (\<lambda>cmd. True)\<rparr>"

definition example_env :: process_env where
  "example_env =
     [''DB_HOST'' \<mapsto> ''db.example'', ''DB_USERNAME'' \<mapsto> ''alice'', ''DB_PASSWORD'' \<mapsto> ''secret'',
      ''DB_NAME'' \<mapsto> ''shop'', ''B2_BUCKET'' \<mapsto> ''backups-bucket'']"



section \<open>Basic facts\<close>

lemma truthy_Some [simp]: "truthy (Some s) \<longleftrightarrow> s \<noteq> []"
  by (simp add: truthy_def)

lemma truthy_None [simp]: "\<not> truthy None"
  by (simp add: truthy_def)

lemma emitted_append [simp]: "trace w' = trace w @ es \<Longrightarrow> emitted w w' = es"
  by (simp add: emitted_def)

lemma emitted_self [simp]: "emitted w w = []"
  by (simp add: emitted_def)

subsection \<open>Sequencing\<close>

lemma andThen_Inr: "m w = (Inr a, w') \<Longrightarrow> andThen m f w = f a w'"
  by (simp add: andThen_def)

lemma andThen_Inl: "m w = (Inl e, w') \<Longrightarrow> andThen m f w = (Inl e, w')"
  by (simp add: andThen_def)

lemma andThen_assoc [simp]: "andThen (andThen m f) g = andThen m (\<lambda>a. andThen (f a) g)"
  by (auto simp: andThen_def fun_eq_iff split: prod.splits sum.splits)

lemma andThen_Pair [simp]:
  "andThen (Pair (Inr a)) f w = f a w"
  "andThen (Pair (Inl e)) f w = (Inl e, w)"
  by (simp_all add: andThen_def)

lemma andThen_return [simp]: "andThen (return a) f = f a"
  by (simp add: andThen_def return_def)

lemma andThen_fail [simp]: "andThen (fail e) f = fail e"
  by (simp add: andThen_def fail_def)

lemma andThen_emit [simp]: "andThen (emit ev) f w = f () (w\<lparr>trace := trace w @ [ev]\<rparr>)"
  by (simp add: andThen_def emit_def)

lemma andThen_console_log [simp]:
  "andThen (console_log m) f w = f () (w\<lparr>trace := trace w @ [ConsoleLog m]\<rparr>)"
  by (simp add: console_log_def)

lemma andThen_console_error [simp]:
  "andThen (console_error m) f w = f () (w\<lparr>trace := trace w @ [ConsoleError m]\<rparr>)"
  by (simp add: console_error_def)

lemma andThen_createWriteStream [simp]:
  "andThen (createWriteStream p opened) f w =
     f () (w\<lparr>files := (if opened then insert p (files w) else files w),
             trace := trace w @ [CreateWriteStream p]\<rparr>)"
  by (simp add: andThen_def createWriteStream_def)

lemma andThen_written_by_pg_dump [simp]:
  "andThen (written_by_pg_dump p) f w = f () (w\<lparr>files := insert p (files w)\<rparr>)"
  by (simp add: andThen_def written_by_pg_dump_def)

lemma andThen_createReadStream:
  "andThen (createReadStream p) f w =
     (if p \<in> files w then f () w else (Inl (Uncaught (NoSuchFile p)), w))"
  by (simp add: andThen_def createReadStream_def)

lemma console_log_apply [simp]: "console_log m w = (Inr (), w\<lparr>trace := trace w @ [ConsoleLog m]\<rparr>)"
  by (simp add: console_log_def emit_def)

lemma console_error_apply [simp]:
  "console_error m w = (Inr (), w\<lparr>trace := trace w @ [ConsoleError m]\<rparr>)"
  by (simp add: console_error_def emit_def)

lemma return_apply: "return a w = (Inr a, w)"
  by (simp add: return_def)

lemma fail_apply: "fail e w = (Inl e, w)"
  by (simp add: fail_def)

lemma runCommand_apply:
  "runCommand x cmd w =
     (if exec_fails x cmd then Inl (Rejected (CommandFailed cmd)) else Inr (),
      w\<lparr>trace := trace w @ [Exec cmd (\<not> exec_fails x cmd)]\<rparr>)"
  by (simp add: runCommand_def andThen_def emit_def fail_def)

lemma andThen_runCommand:
  "andThen (runCommand x cmd) f w =
     (if exec_fails x cmd
      then (Inl (Rejected (CommandFailed cmd)), w\<lparr>trace := trace w @ [Exec cmd False]\<rparr>)
      else f () (w\<lparr>trace := trace w @ [Exec cmd True]\<rparr>))"
  by (simp add: andThen_def runCommand_apply)

subsection \<open>Frame conditions\<close>

lemma trace_extends_refl [simp]: "trace_extends w w"
  by (simp add: trace_extends_def)

lemma trace_extends_trans: "trace_extends a b \<Longrightarrow> trace_extends b c \<Longrightarrow> trace_extends a c"
  by (auto simp: trace_extends_def)

lemma trace_extends_update [simp]:
  "trace_extends w (w\<lparr>trace := trace w @ es\<rparr>)"
  "trace_extends w (w\<lparr>files := F, trace := trace w @ es\<rparr>)"
  "trace_extends w (w\<lparr>bucket := B, trace := trace w @ es\<rparr>)"
  by (simp_all add: trace_extends_def)

lemma same_files_except_refl [simp]: "same_files_except D w w"
  by (simp add: same_files_except_def)

lemma same_files_except_trans:
  "same_files_except D a b \<Longrightarrow> same_files_except D b c \<Longrightarrow> same_files_except D a c"
  by (simp add: same_files_except_def)

lemma same_bucket_refl [simp]: "same_bucket w w"
  by (simp add: same_bucket_def)

lemma same_bucket_trans: "same_bucket a b \<Longrightarrow> same_bucket b c \<Longrightarrow> same_bucket a c"
  by (simp add: same_bucket_def)

lemma preserves_andThen:
  assumes trans: "\<And>a b c. R a b \<Longrightarrow> R b c \<Longrightarrow> R a c"
    and m: "preserves R m" and f: "\<And>a. preserves R (f a)"
  shows "preserves R (andThen m f)"
proof -
  have "R w (snd (andThen m f w))" for w
  proof (cases "m w")
    case (Pair r w')
    from m have 1: "R w w'" using Pair by (auto simp: preserves_def dest: spec [of _ w])
    show ?thesis
    proof (cases r)
      case (Inl e)
      with Pair 1 show ?thesis by (simp add: andThen_def)
    next
      case (Inr a)
      from f [of a] have "R w' (snd (f a w'))" by (simp add: preserves_def)
      with 1 Pair Inr show ?thesis by (auto simp: andThen_def intro: trans)
    qed
  qed
  then show ?thesis by (simp add: preserves_def)
qed

lemma preserves_catch:
  assumes trans: "\<And>a b c. R a b \<Longrightarrow> R b c \<Longrightarrow> R a c"
    and m: "preserves R m" and h: "\<And>err. preserves R (h err)"
  shows "preserves R (catch m h)"
proof -
  have "R w (snd (catch m h w))" for w
  proof (cases "m w")
    case (Pair r w')
    from m have 1: "R w w'" using Pair by (auto simp: preserves_def dest: spec [of _ w])
    show ?thesis
    proof (cases r)
      case (Inr a)
      with Pair 1 show ?thesis by (simp add: catch_def)
    next
      case (Inl e)
      show ?thesis
      proof (cases e)
        case (Uncaught err)
        with Pair Inl 1 show ?thesis by (simp add: catch_def)
      next
        case (Rejected err)
        from h [of err] have "R w' (snd (h err w'))" by (simp add: preserves_def)
        with 1 Pair Inl Rejected show ?thesis by (auto simp: catch_def intro: trans)
      qed
    qed
  qed
  then show ?thesis by (simp add: preserves_def)
qed

lemmas grows_andThen = preserves_andThen [of trace_extends, OF trace_extends_trans]
lemmas grows_catch = preserves_catch [of trace_extends, OF trace_extends_trans]
lemmas files_andThen = preserves_andThen [of "same_files_except D", OF same_files_except_trans] for D
lemmas files_catch = preserves_catch [of "same_files_except D", OF same_files_except_trans] for D
lemmas bucket_andThen = preserves_andThen [of same_bucket, OF same_bucket_trans]
lemmas bucket_catch = preserves_catch [of same_bucket, OF same_bucket_trans]

lemma preserves_return [simp]:
  "preserves trace_extends (return a)"
  "preserves (same_files_except D) (return a)"
  "preserves same_bucket (return a)"
  by (simp_all add: preserves_def return_def)

lemma preserves_fail [simp]:
  "preserves trace_extends (fail e)"
  "preserves (same_files_except D) (fail e)"
  "preserves same_bucket (fail e)"
  by (simp_all add: preserves_def fail_def)

lemma preserves_Pair [simp]:
  "preserves trace_extends (Pair r)"
  "preserves (same_files_except D) (Pair r)"
  "preserves same_bucket (Pair r)"
  by (simp_all add: preserves_def)

lemma preserves_emit [simp]:
  "preserves trace_extends (emit ev)"
  "preserves (same_files_except D) (emit ev)"
  "preserves same_bucket (emit ev)"
  by (simp_all add: preserves_def emit_def trace_extends_def same_files_except_def same_bucket_def)

lemma preserves_console_log [simp]:
  "preserves trace_extends (console_log msg)"
  "preserves (same_files_except D) (console_log msg)"
  "preserves same_bucket (console_log msg)"
  by (simp_all add: console_log_def)

lemma preserves_console_error [simp]:
  "preserves trace_extends (console_error msg)"
  "preserves (same_files_except D) (console_error msg)"
  "preserves same_bucket (console_error msg)"
  by (simp_all add: console_error_def)

lemma preserves_runCommand [simp]:
  "preserves trace_extends (runCommand x cmd)"
  "preserves (same_files_except D) (runCommand x cmd)"
  "preserves same_bucket (runCommand x cmd)"
  by (simp_all add: preserves_def runCommand_apply trace_extends_def same_files_except_def
        same_bucket_def)

lemma preserves_send_PutObject [simp]:
  "preserves trace_extends (send_PutObject x key)"
  "preserves (same_files_except D) (send_PutObject x key)"
  by (simp_all add: preserves_def send_PutObject_def trace_extends_def same_files_except_def)

lemma preserves_send_ListObjectsV2 [simp]:
  "preserves trace_extends (send_ListObjectsV2 x)"
  "preserves (same_files_except D) (send_ListObjectsV2 x)"
  "preserves same_bucket (send_ListObjectsV2 x)"
  by (simp_all add: preserves_def send_ListObjectsV2_def trace_extends_def same_files_except_def
        same_bucket_def)

lemma preserves_send_DeleteObject [simp]:
  "preserves trace_extends (send_DeleteObject x key)"
  "preserves (same_files_except D) (send_DeleteObject x key)"
  by (simp_all add: preserves_def send_DeleteObject_def trace_extends_def same_files_except_def)

lemma preserves_unlinkSync [simp]:
  "preserves trace_extends (unlinkSync p)"
  "preserves same_bucket (unlinkSync p)"
  "p \<in> D \<Longrightarrow> preserves (same_files_except D) (unlinkSync p)"
  by (auto simp: preserves_def unlinkSync_def trace_extends_def same_files_except_def
        same_bucket_def)

lemma preserves_createWriteStream [simp]:
  "preserves trace_extends (createWriteStream p opened)"
  "preserves same_bucket (createWriteStream p opened)"
  "p \<in> D \<Longrightarrow> preserves (same_files_except D) (createWriteStream p opened)"
  by (auto simp: preserves_def createWriteStream_def trace_extends_def same_files_except_def
        same_bucket_def)

lemma preserves_createReadStream [simp]:
  "preserves trace_extends (createReadStream p)"
  "preserves same_bucket (createReadStream p)"
  "preserves (same_files_except D) (createReadStream p)"
  by (simp_all add: preserves_def createReadStream_def)

lemma preserves_written_by_pg_dump [simp]:
  "preserves trace_extends (written_by_pg_dump p)"
  "preserves same_bucket (written_by_pg_dump p)"
  "p \<in> D \<Longrightarrow> preserves (same_files_except D) (written_by_pg_dump p)"
  by (auto simp: preserves_def written_by_pg_dump_def trace_extends_def same_files_except_def
        same_bucket_def)

section \<open>Environment resolution\<close>

lemma ended_not_Exited: "ended r \<noteq> Exited n"
  by (simp add: ended_def split: sum.splits failure.splits)

lemma load_config_fatal_iff:
  "load_config parser env = Inl ConfigError \<longleftrightarrow>
     (case database_url parser env of
        Some u \<Rightarrow> hostname u = [] \<or> drop 1 (pathname u) = [] \<or> username u = []
      | None \<Rightarrow> \<not> truthy (env ''DB_HOST'') \<or> \<not> truthy (env ''DB_NAME'') \<or> \<not> truthy (env ''DB_USERNAME''))"
  by (auto simp add: load_config_def parse_DATABASE_URL_def database_url_def Let_def
        split: option.splits)

text \<open>
  Claim C4, as the claim states it, fails: with every discrete variable set and a
  well-formed DATABASE_URL, the host, user, password, database and port all come from the
  URL.  The discrete host \<open>discrete.example\<close> and the discrete port 6543 are overwritten;
  the port becomes 5432 because the URL names none.
\<close>

theorem discrete_precedence_counterexample:
  "example_env_both ''DB_HOST'' = Some ''discrete.example'' \<and>
   example_env_both ''DB_PORT'' = Some ''6543'' \<and>
   example_env_both ''DB_USERNAME'' = Some ''alice'' \<and>
   example_env_both ''DB_NAME'' = Some ''inventory'' \<and>
   load_config example_new_URL example_env_both =
     Inr \<lparr>DB_HOST = ''url.example'', DB_USERNAME = ''bob'', DB_PASSWORD = Some ''pw'',
          DB_NAME = ''shop'', DB_PORT = ''5432'', B2_BUCKET = None, BACKUP_DIR = ''./backups''\<rparr>"
  by (simp add: load_config_def parse_DATABASE_URL_def example_new_URL_def example_env_both_def)

text \<open>
  Claim C4, amended.  When DATABASE_URL is set, not empty and well-formed, host, user,
  password, database name and port are all taken from the URL, whatever the discrete
  variables hold, and the port is 5432 when the URL names none.  The discrete variables
  are used only when DATABASE_URL is unset, empty or malformed, and then the port is 5432
  when DB_PORT is unset.  In both cases resolution fails when host, database name or user
  name is missing or empty.
\<close>

theorem url_overrides_discrete:
  "load_config parser env =
     (case database_url parser env of
        Some u \<Rightarrow>
          if hostname u = [] \<or> drop 1 (pathname u) = [] \<or> username u = [] then Inl ConfigError
          else Inr \<lparr>DB_HOST = hostname u, DB_USERNAME = username u, DB_PASSWORD = Some (password u),
                    DB_NAME = drop 1 (pathname u),
                    DB_PORT = (if port u \<noteq> [] then port u else ''5432''),
                    B2_BUCKET = env ''B2_BUCKET'',
                    BACKUP_DIR = (if truthy (env ''BACKUP_DIR'') then the (env ''BACKUP_DIR'')
                                  else ''./backups'')\<rparr>
      | None \<Rightarrow>
          if \<not> truthy (env ''DB_HOST'') \<or> \<not> truthy (env ''DB_NAME'') \<or> \<not> truthy (env ''DB_USERNAME'')
          then Inl ConfigError
          else Inr \<lparr>DB_HOST = the (env ''DB_HOST''), DB_USERNAME = the (env ''DB_USERNAME''),
                    DB_PASSWORD = env ''DB_PASSWORD'', DB_NAME = the (env ''DB_NAME''),
                    DB_PORT = (case env ''DB_PORT'' of None \<Rightarrow> ''5432'' | Some p \<Rightarrow> p),
                    B2_BUCKET = env ''B2_BUCKET'',
                    BACKUP_DIR = (if truthy (env ''BACKUP_DIR'') then the (env ''BACKUP_DIR'')
                                  else ''./backups'')\<rparr>)"
  by (simp add: load_config_def parse_DATABASE_URL_def database_url_def Let_def
        split: option.splits)

theorem url_overrides_discrete_witness:
  "database_url example_new_URL example_env_both =
     Some \<lparr>hostname = ''url.example'', port = [], username = ''bob'', password = ''pw'',
           pathname = ''/shop''\<rparr> \<and>
   load_config example_new_URL example_env_both =
     Inr \<lparr>DB_HOST = ''url.example'', DB_USERNAME = ''bob'', DB_PASSWORD = Some ''pw'',
          DB_NAME = ''shop'', DB_PORT = ''5432'', B2_BUCKET = None, BACKUP_DIR = ''./backups''\<rparr> \<and>
   database_url example_new_URL example_env_bad_url = None \<and>
   load_config example_new_URL example_env_bad_url =
     Inr \<lparr>DB_HOST = ''discrete.example'', DB_USERNAME = ''alice'', DB_PASSWORD = None,
          DB_NAME = ''inventory'', DB_PORT = ''5432'', B2_BUCKET = None, BACKUP_DIR = ''./backups''\<rparr>"
proof -
  have u: "database_url example_new_URL example_env_both =
     Some \<lparr>hostname = ''url.example'', port = [], username = ''bob'', password = ''pw'',
           pathname = ''/shop''\<rparr>"
    by (simp add: database_url_def example_new_URL_def example_env_both_def)
  have v: "database_url example_new_URL example_env_bad_url = None"
    by (simp add: database_url_def example_new_URL_def example_env_bad_url_def)
  have 1: "load_config example_new_URL example_env_both =
     Inr \<lparr>DB_HOST = ''url.example'', DB_USERNAME = ''bob'', DB_PASSWORD = Some ''pw'',
          DB_NAME = ''shop'', DB_PORT = ''5432'', B2_BUCKET = None, BACKUP_DIR = ''./backups''\<rparr>"
    using url_overrides_discrete [of example_new_URL example_env_both] unfolding u
    by (simp add: example_env_both_def)
  have 2: "load_config example_new_URL example_env_bad_url =
     Inr \<lparr>DB_HOST = ''discrete.example'', DB_USERNAME = ''alice'', DB_PASSWORD = None,
          DB_NAME = ''inventory'', DB_PORT = ''5432'', B2_BUCKET = None, BACKUP_DIR = ''./backups''\<rparr>"
    using url_overrides_discrete [of example_new_URL example_env_bad_url] unfolding v
    by (simp add: example_env_bad_url_def)
  from u v 1 2 show ?thesis by blast
qed
section \<open>Paths\<close>

lemma split_slash_not_Nil [simp]: "split_slash s \<noteq> []"
  by (induction s) (auto split: list.splits)

lemma split_slash_no_slash: "CHR ''/'' \<notin> set n \<Longrightarrow> split_slash n = [n]"
  by (induction n) auto

lemma split_slash_append: "split_slash (a @ CHR ''/'' # b) = split_slash a @ split_slash b"
  by (induction a) (auto split: list.splits)

lemma normalizeString_snoc:
  "n \<noteq> [] \<Longrightarrow> n \<noteq> ''.'' \<Longrightarrow> n \<noteq> ''..'' \<Longrightarrow>
   normalizeString al res (ss @ [n]) = normalizeString al res ss @ [n]"
  by (induction al res ss rule: normalizeString.induct) (auto split: list.splits)

lemma join_slash_snoc:
  "join_slash (xs @ [n]) = (if xs = [] then n else join_slash xs @ ''/'' @ n)"
  by (induction xs rule: join_slash.induct) auto

lemma basename_append:
  assumes "CHR ''/'' \<notin> set n" "n \<noteq> []" "pre = [] \<or> last pre = CHR ''/''"
  shows "basename (pre @ n) = n"
proof -
  from assms(1,2) have 1: "dropWhile (\<lambda>ch. ch = CHR ''/'') (rev n @ rev pre) = rev n @ rev pre"
    by (cases n rule: rev_cases) auto
  have 2: "takeWhile (\<lambda>ch. ch \<noteq> CHR ''/'') (rev n @ rev pre) = rev n"
  proof (cases pre rule: rev_cases)
    case Nil
    with assms(1) show ?thesis by (auto simp add: takeWhile_eq_all_conv)
  next
    case (snoc ys y)
    with assms(3) have "y = CHR ''/''" by simp
    with snoc assms(1) show ?thesis by (auto simp add: takeWhile_append2 takeWhile_tail)
  qed
  show ?thesis by (simp add: basename_def 1 2)
qed

lemma normalize_no_trailing:
  assumes "p \<noteq> []" "last p \<noteq> CHR ''/''"
  shows "normalize p =
     (let q = join_slash (normalizeString (hd p \<noteq> CHR ''/'') [] (split_slash p))
      in if q = [] then (if hd p = CHR ''/'' then ''/'' else ''.'')
         else (if hd p = CHR ''/'' then ''/'' else []) @ q)"
  using assms unfolding normalize_def Let_def by simp

lemma path_join_Nil_left: "n \<noteq> [] \<Longrightarrow> path_join [] n = normalize n"
  by (simp add: path_join_def)

lemma path_join_Cons: "d \<noteq> [] \<Longrightarrow> n \<noteq> [] \<Longrightarrow> path_join d n = normalize (d @ CHR ''/'' # n)"
  by (simp add: path_join_def)

lemma path_join_ends_with_segment:
  assumes n: "CHR ''/'' \<notin> set n" "n \<noteq> []" "n \<noteq> ''.''" "n \<noteq> ''..''"
  shows "\<exists>pre. path_join d n = pre @ n \<and> (pre = [] \<or> last pre = CHR ''/'')"
proof (cases "d = []")
  case True
  from n(1,2) have "hd n \<noteq> CHR ''/''" by (cases n) auto
  moreover from n(1,2) have "last n \<noteq> CHR ''/''" by (cases n rule: rev_cases) auto
  ultimately have hl: "hd n \<noteq> CHR ''/''" "last n \<noteq> CHR ''/''" by blast+
  have "normalizeString True [] [n] = [n]" using n by simp
  then have "normalize n = n"
    using n hl by (simp add: normalize_no_trailing split_slash_no_slash)
  with True n(2) have "path_join d n = [] @ n" by (simp add: path_join_Nil_left)
  then show ?thesis by blast
next
  case False
  define p where "p = d @ CHR ''/'' # n"
  define al where "al = (hd d \<noteq> CHR ''/'')"
  define xs where "xs = normalizeString al [] (split_slash d)"
  from n(1,2) have last: "last p \<noteq> CHR ''/''" unfolding p_def by (cases n rule: rev_cases) auto
  from False have hd: "hd p = hd d" and pne: "p \<noteq> []" unfolding p_def by simp_all
  have "split_slash p = split_slash d @ [n]"
    unfolding p_def using n(1) by (simp add: split_slash_append split_slash_no_slash)
  then have segs: "normalizeString al [] (split_slash p) = xs @ [n]"
    unfolding xs_def using n by (simp add: normalizeString_snoc)
  have q: "join_slash (xs @ [n]) = (if xs = [] then [] else join_slash xs @ ''/'') @ n"
    by (simp add: join_slash_snoc)
  have qne: "join_slash (xs @ [n]) \<noteq> []" unfolding q using n(2) by simp
  have "normalize p = (if hd d = CHR ''/'' then ''/'' else []) @ join_slash (xs @ [n])"
    using normalize_no_trailing [OF pne last] segs qne unfolding hd al_def Let_def by simp
  then have "path_join d n =
      ((if hd d = CHR ''/'' then ''/'' else []) @ (if xs = [] then [] else join_slash xs @ ''/'')) @ n"
    using False n(2) unfolding q p_def by (simp add: path_join_Cons)
  moreover have "(if hd d = CHR ''/'' then ''/'' else []) @ (if xs = [] then [] else join_slash xs @ ''/'') = [] \<or>
     last ((if hd d = CHR ''/'' then ''/'' else []) @ (if xs = [] then [] else join_slash xs @ ''/'')) = CHR ''/''"
    by simp
  ultimately show ?thesis by blast
qed

lemma basename_path_join:
  assumes n: "CHR ''/'' \<notin> set n" "n \<noteq> []" "n \<noteq> ''.''" "n \<noteq> ''..''"
  shows "basename (path_join d n) = n"
proof -
  from path_join_ends_with_segment [OF n, of d]
  obtain pre where "path_join d n = pre @ n" "pre = [] \<or> last pre = CHR ''/''" by blast
  with n show ?thesis by (simp add: basename_append)
qed

lemma replace_colon_dot_no_slash:
  "CHR ''/'' \<notin> set s \<Longrightarrow> CHR ''/'' \<notin> set (replace_colon_dot s)"
  by (auto simp: replace_colon_dot_def)

section \<open>What each operation leaves alone\<close>

lemma quiet_refl [simp]: "adds_no_startup_report w w"
  by (simp add: adds_no_startup_report_def)

lemma quiet_trans:
  "adds_no_startup_report a b \<Longrightarrow> adds_no_startup_report b c \<Longrightarrow> adds_no_startup_report a c"
  by (fastforce simp: adds_no_startup_report_def)

lemmas quiet_andThen = preserves_andThen [of adds_no_startup_report, OF quiet_trans]
lemmas quiet_catch = preserves_catch [of adds_no_startup_report, OF quiet_trans]

lemma quiet_primitives [simp]:
  "preserves adds_no_startup_report (return a)"
  "preserves adds_no_startup_report (fail e)"
  "preserves adds_no_startup_report (Pair r)"
  "preserves adds_no_startup_report (console_log msg)"
  "preserves adds_no_startup_report (emit (Exec cmd ok))"
  "preserves adds_no_startup_report (runCommand x cmd)"
  "preserves adds_no_startup_report (unlinkSync p)"
  "preserves adds_no_startup_report (createWriteStream p opened)"
  "preserves adds_no_startup_report (createReadStream p)"
  "preserves adds_no_startup_report (written_by_pg_dump p)"
  "preserves adds_no_startup_report (send_PutObject x key)"
  "preserves adds_no_startup_report (send_ListObjectsV2 x)"
  "preserves adds_no_startup_report (send_DeleteObject x key)"
  by (simp_all add: preserves_def adds_no_startup_report_def startup_report_def return_def
        fail_def emit_def runCommand_apply unlinkSync_def createWriteStream_def
        createReadStream_def written_by_pg_dump_def send_PutObject_def send_ListObjectsV2_def
        send_DeleteObject_def)

lemma quiet_console_error [simp]:
  "preserves adds_no_startup_report (console_error (RestoreFailed err))"
  "preserves adds_no_startup_report (console_error (UploadCleanupFailed err))"
  "preserves adds_no_startup_report (console_error NoBackupFileFound)"
  by (simp_all add: preserves_def adds_no_startup_report_def startup_report_def)

lemma delete_each_grows: "preserves trace_extends (delete_each x olds)"
  by (induction olds) (auto intro!: grows_andThen)

lemma delete_each_files: "preserves (same_files_except D) (delete_each x olds)"
  by (induction olds) (auto intro!: files_andThen)

lemma delete_each_quiet: "preserves adds_no_startup_report (delete_each x olds)"
  by (induction olds) (auto intro!: quiet_andThen)

lemma retention_pass_quiet: "preserves adds_no_startup_report (retention_pass x)"
  unfolding retention_pass_def
  by (auto intro!: quiet_andThen delete_each_quiet simp: Let_def split: option.splits)

lemma retention_pass_grows: "preserves trace_extends (retention_pass x)"
  unfolding retention_pass_def
  by (auto intro!: grows_andThen delete_each_grows simp: Let_def split: option.splits)

lemma retention_pass_files: "preserves (same_files_except D) (retention_pass x)"
  unfolding retention_pass_def
  by (auto intro!: files_andThen delete_each_files simp: Let_def split: option.splits)

lemma uploadToBackblaze_grows: "preserves trace_extends (uploadToBackblaze x c filePath)"
  unfolding uploadToBackblaze_def
  by (auto intro!: grows_andThen grows_catch retention_pass_grows simp: Let_def)

lemma uploadToBackblaze_files:
  "filePath \<in> D \<Longrightarrow> preserves (same_files_except D) (uploadToBackblaze x c filePath)"
  unfolding uploadToBackblaze_def
  by (auto intro!: files_andThen files_catch retention_pass_files simp: Let_def)

lemma uploadToBackblaze_quiet: "preserves adds_no_startup_report (uploadToBackblaze x c filePath)"
  unfolding uploadToBackblaze_def
  by (auto intro!: quiet_andThen quiet_catch retention_pass_quiet simp: Let_def)

lemma backup_quiet: "preserves adds_no_startup_report (backup x c dataOnly)"
  unfolding backup_def
  by (auto intro!: quiet_andThen uploadToBackblaze_quiet simp: Let_def split: stream_outcome.splits)

lemma backup_grows: "preserves trace_extends (backup x c dataOnly)"
  unfolding backup_def
  by (auto intro!: grows_andThen uploadToBackblaze_grows simp: Let_def split: stream_outcome.splits)

lemma await_decompression_preserves [simp]:
  "preserves trace_extends (await_decompression r)"
  "preserves (same_files_except D) (await_decompression r)"
  "preserves same_bucket (await_decompression r)"
  by (simp_all add: preserves_def await_decompression_def fail_def return_def
        split: stream_outcome.splits stage.splits)

lemma await_decompression_quiet [simp]:
  "preserves adds_no_startup_report (await_decompression r)"
  by (simp add: preserves_def await_decompression_def fail_def return_def
        split: stream_outcome.splits stage.splits)

lemma restore_grows: "preserves trace_extends (restore x c filePath)"
  unfolding restore_def
  by (auto intro!: grows_andThen grows_catch simp: Let_def)

lemma restore_bucket: "preserves same_bucket (restore x c filePath)"
  unfolding restore_def
  by (auto intro!: bucket_andThen bucket_catch simp: Let_def)

lemma restore_quiet: "preserves adds_no_startup_report (restore x c filePath)"
  unfolding restore_def
  by (auto intro!: quiet_andThen quiet_catch simp: Let_def)

lemma restoreAndDev_quiet: "preserves adds_no_startup_report (restoreAndDev x c filePath)"
  unfolding restoreAndDev_def
  by (auto intro!: quiet_andThen restore_quiet)

lemma cli_quiet: "preserves adds_no_startup_report (cli x c cmd arg)"
  unfolding cli_def
  by (auto intro!: quiet_andThen backup_quiet restore_quiet restoreAndDev_quiet
        simp del: console_log_apply console_error_apply split: option.splits sum.splits)

lemma restoreAndDev_grows: "preserves trace_extends (restoreAndDev x c filePath)"
  unfolding restoreAndDev_def
  by (auto intro!: grows_andThen restore_grows)

lemma grows_emitted:
  "preserves trace_extends m \<Longrightarrow> trace (snd (m w)) = trace w @ emitted w (snd (m w))"
  by (auto simp: preserves_def trace_extends_def dest!: spec [of _ w])

section \<open>Naming of the artifact\<close>

lemma backup_full_start:
  \<open>\<exists>es. trace (snd (backup x c False w)) =
     trace w @ [ConsoleLog (CreatingBackup ''full''),
                Exec (dumpCmd c False @ '' -f "'' @ outFile c False (toISOString x) @ ''"'')
                  (\<not> exec_fails x (dumpCmd c False @ '' -f "'' @ outFile c False (toISOString x) @ ''"''))]
       @ es\<close>
proof -
  let ?cmd = \<open>dumpCmd c False @ '' -f "'' @ outFile c False (toISOString x) @ ''"''\<close>
  let ?w1 = "w\<lparr>trace := trace w @ [ConsoleLog (CreatingBackup ''full'')]\<rparr>"
  let ?k = "\<lambda>_::unit. andThen (written_by_pg_dump (outFile c False (toISOString x))) (\<lambda>_.
              andThen (console_log (BackupSaved (outFile c False (toISOString x))))
              (\<lambda>_. uploadToBackblaze x c (outFile c False (toISOString x))))"
  have eq: "backup x c False w = andThen (runCommand x ?cmd) ?k ?w1"
    by (simp add: backup_def Let_def)
  have "preserves trace_extends (andThen (runCommand x ?cmd) ?k)"
    by (intro grows_andThen uploadToBackblaze_grows) simp_all
  show ?thesis
  proof (cases "exec_fails x ?cmd")
    case True
    then have "andThen (runCommand x ?cmd) ?k ?w1 =
        (Inl (Rejected (CommandFailed ?cmd)), ?w1\<lparr>trace := trace ?w1 @ [Exec ?cmd False]\<rparr>)"
      by (simp add: andThen_runCommand)
    with True eq show ?thesis by simp
  next
    case False
    let ?w2 = "?w1\<lparr>trace := trace ?w1 @ [Exec ?cmd True]\<rparr>"
    from False have 1: "andThen (runCommand x ?cmd) ?k ?w1 = ?k () ?w2"
      by (simp add: andThen_runCommand)
    have "preserves trace_extends (?k ())"
      by (intro grows_andThen uploadToBackblaze_grows) simp_all
    then obtain es where "trace (snd (?k () ?w2)) = trace ?w2 @ es"
      unfolding preserves_def trace_extends_def by blast
    with False eq 1 show ?thesis by simp
  qed
qed

lemma backup_data_only_start:
  "\<exists>es. trace (snd (backup x c True w)) =
     trace w @ [ConsoleLog (CreatingBackup ''data-only''),
                Exec (dumpCmd c True) (\<not> exec_fails x (dumpCmd c True)),
                CreateWriteStream (outFile c True (toISOString x))]
       @ es"
proof -
  let ?out = "outFile c True (toISOString x)"
  let ?w3 = "w\<lparr>trace := trace w @ [ConsoleLog (CreatingBackup ''data-only'')]\<rparr>
              \<lparr>trace := trace w @ [ConsoleLog (CreatingBackup ''data-only'')]
                 @ [Exec (dumpCmd c True) (\<not> exec_fails x (dumpCmd c True))]\<rparr>
              \<lparr>files := (if sink_opened (gzip_outcome x ?out) then insert ?out (files w) else files w),
                trace := (trace w @ [ConsoleLog (CreatingBackup ''data-only'')]
                 @ [Exec (dumpCmd c True) (\<not> exec_fails x (dumpCmd c True))]) @ [CreateWriteStream ?out]\<rparr>"
  let ?k = "case gzip_outcome x ?out of
              Finished \<Rightarrow> andThen (console_log (BackupSaved ?out)) (\<lambda>_. uploadToBackblaze x c ?out)
            | Faulted s \<Rightarrow> fail (Uncaught (StreamFault s))
            | NotOpened s \<Rightarrow> fail (Uncaught (StreamFault s))"
  have eq: "backup x c True w = ?k ?w3"
    by (simp add: backup_def Let_def)
  have "preserves trace_extends ?k"
    by (auto intro!: grows_andThen uploadToBackblaze_grows split: stream_outcome.splits)
  then obtain es where "trace (snd (?k ?w3)) = trace ?w3 @ es"
    unfolding preserves_def trace_extends_def by blast
  with eq show ?thesis by simp
qed

text \<open>
  Claim C7.  For every database name, mode and clock reading, \<open>backup\<close> writes its
  artifact to the staging directory joined with
  \<open><database>-<full|data-only>-<T'>.<dump|sql.gz>\<close>, where \<open>T'\<close> is the clock's ISO-8601
  string with each colon and each full stop replaced by a hyphen and nothing else
  changed: in full mode this is the file handed to the dump command after \<open>-f\<close>, in
  data-only mode the file the write stream creates, with extension \<open>dump\<close> and
  \<open>sql.gz\<close> respectively.  When neither the database name nor the clock's string holds
  a slash, that name is the base name of the artifact's path.
\<close>

theorem artifact_name:
  \<open>(let ts = replace_colon_dot (toISOString x);
        artifact = DB_NAME c @ ''-'' @ (if dataOnly then ''data-only'' else ''full'') @ ''-'' @ ts
                     @ ''.'' @ (if dataOnly then ''sql.gz'' else ''dump'');
        out = path_join (BACKUP_DIR c) artifact;
        started = emitted w (snd (backup x c dataOnly w))
    in length ts = length (toISOString x) \<and>
       (\<forall>i < length ts.
          ts ! i = (if toISOString x ! i = CHR '':'' \<or> toISOString x ! i = CHR ''.''
                    then CHR ''-'' else toISOString x ! i)) \<and>
       (if dataOnly
        then take 3 started =
               [ConsoleLog (CreatingBackup ''data-only''),
                Exec (dumpCmd c True) (\<not> exec_fails x (dumpCmd c True)),
                CreateWriteStream out]
        else take 2 started =
               [ConsoleLog (CreatingBackup ''full''),
                Exec (dumpCmd c False @ '' -f "'' @ out @ ''"'')
                  (\<not> exec_fails x (dumpCmd c False @ '' -f "'' @ out @ ''"''))]) \<and>
       (CHR ''/'' \<notin> set (DB_NAME c) \<and> CHR ''/'' \<notin> set (toISOString x) \<longrightarrow>
          basename out = artifact))\<close>
proof -
  let ?ts = "replace_colon_dot (toISOString x)"
  let ?artifact = "DB_NAME c @ ''-'' @ (if dataOnly then ''data-only'' else ''full'') @ ''-'' @ ?ts
                     @ ''.'' @ (if dataOnly then ''sql.gz'' else ''dump'')"
  let ?out = "path_join (BACKUP_DIR c) ?artifact"
  have path: "outFile c dataOnly (toISOString x) = ?out"
    by (simp add: outFile_def Let_def)
  have len: "length ?ts = length (toISOString x)"
    by (simp add: replace_colon_dot_def)
  have nth: "\<forall>i < length ?ts.
          ?ts ! i = (if toISOString x ! i = CHR '':'' \<or> toISOString x ! i = CHR ''.''
                    then CHR ''-'' else toISOString x ! i)"
    by (simp add: replace_colon_dot_def)
  have started: \<open>if dataOnly
        then take 3 (emitted w (snd (backup x c dataOnly w))) =
               [ConsoleLog (CreatingBackup ''data-only''),
                Exec (dumpCmd c True) (\<not> exec_fails x (dumpCmd c True)),
                CreateWriteStream ?out]
        else take 2 (emitted w (snd (backup x c dataOnly w))) =
               [ConsoleLog (CreatingBackup ''full''),
                Exec (dumpCmd c False @ '' -f "'' @ ?out @ ''"'')
                  (\<not> exec_fails x (dumpCmd c False @ '' -f "'' @ ?out @ ''"''))]\<close>
  proof (cases dataOnly)
    case True
    from backup_data_only_start [of x c w] obtain es where
      "trace (snd (backup x c True w)) =
         trace w @ [ConsoleLog (CreatingBackup ''data-only''),
                Exec (dumpCmd c True) (\<not> exec_fails x (dumpCmd c True)),
                CreateWriteStream (outFile c True (toISOString x))] @ es"
      by blast
    then have "emitted w (snd (backup x c True w)) =
         [ConsoleLog (CreatingBackup ''data-only''),
                Exec (dumpCmd c True) (\<not> exec_fails x (dumpCmd c True)),
                CreateWriteStream (outFile c True (toISOString x))] @ es"
      by (rule emitted_append)
    with True path show ?thesis by simp
  next
    case False
    from backup_full_start [of x c w] obtain es where
      \<open>trace (snd (backup x c False w)) =
         trace w @ [ConsoleLog (CreatingBackup ''full''),
                Exec (dumpCmd c False @ '' -f "'' @ outFile c False (toISOString x) @ ''"'')
                  (\<not> exec_fails x (dumpCmd c False @ '' -f "'' @ outFile c False (toISOString x) @ ''"''))]
           @ es\<close>
      by blast
    then have \<open>emitted w (snd (backup x c False w)) =
         [ConsoleLog (CreatingBackup ''full''),
                Exec (dumpCmd c False @ '' -f "'' @ outFile c False (toISOString x) @ ''"'')
                  (\<not> exec_fails x (dumpCmd c False @ '' -f "'' @ outFile c False (toISOString x) @ ''"''))]
           @ es\<close>
      by (rule emitted_append)
    with False path show ?thesis by simp
  qed
  have base: "basename ?out = ?artifact"
    if "CHR ''/'' \<notin> set (DB_NAME c)" "CHR ''/'' \<notin> set (toISOString x)"
  proof -
    have 1: "CHR ''/'' \<notin> set ?artifact"
      using that replace_colon_dot_no_slash [of "toISOString x"] by auto
    have "CHR ''-'' \<in> set ?artifact" by simp
    moreover have "CHR ''-'' \<in> set a \<Longrightarrow> a \<noteq> [] \<and> a \<noteq> ''.'' \<and> a \<noteq> ''..''" for a :: string
      by auto
    ultimately have 2: "?artifact \<noteq> []" "?artifact \<noteq> ''.''" "?artifact \<noteq> ''..''"
      by blast+
    show ?thesis by (rule basename_path_join [OF 1 2])
  qed
  show ?thesis unfolding Let_def using len nth started base by blast
qed

theorem artifact_name_witness:
  \<open>replace_colon_dot (toISOString example_externals) = ''2024-01-02T03-04-05-678Z'' \<and>
   basename (path_join ''./backups'' ''shop-full-2024-01-02T03-04-05-678Z.dump'')
     = ''shop-full-2024-01-02T03-04-05-678Z.dump'' \<and>
   take 2 (emitted example_world (snd (backup example_externals example_config False example_world)))
     = [ConsoleLog (CreatingBackup ''full''),
        Exec (''pg_dump -h db.example -p 5432 -U alice        --no-owner --no-acl --clean --if-exists -Fc shop -f "''
                @ path_join ''./backups'' ''shop-full-2024-01-02T03-04-05-678Z.dump'' @ ''"'') True]\<close>
proof -
  have ts: "replace_colon_dot (toISOString example_externals) = ''2024-01-02T03-04-05-678Z''"
    by (simp add: replace_colon_dot_def example_externals_def)
  show ?thesis
    using artifact_name [where x = example_externals and c = example_config and dataOnly = False
        and w = example_world]
    unfolding Let_def ts
    by (simp add: example_externals_def example_config_def dumpCmd_def)
qed

section \<open>The latest local backup\<close>

lemma endsWith_iff: "endsWith s suf \<longleftrightarrow> (\<exists>stem. s = stem @ suf)"
proof
  assume "endsWith s suf"
  then have "s = take (length s - length suf) s @ suf"
    by (metis append_take_drop_id endsWith_def)
  then show "\<exists>stem. s = stem @ suf" ..
next
  assume "\<exists>stem. s = stem @ suf"
  then show "endsWith s suf" by (auto simp: endsWith_def)
qed

lemma sort_key_first:
  fixes f :: "'a \<Rightarrow> int"
  assumes "sort_key f xs = y # ys"
  shows "y \<in> set xs \<and> (\<forall>z \<in> set xs. f y \<le> f z)"
proof -
  have "set xs = set (y # ys)" using assms by (metis set_sort)
  moreover have "sorted (map f (y # ys))" using assms by (metis sorted_sort_key)
  ultimately show ?thesis by auto
qed

lemma sort_key_eq_Nil [simp]: "sort_key f xs = [] \<longleftrightarrow> xs = []"
  by (metis length_sort length_0_conv)

lemma stat_each_all:
  "\<forall>f \<in> set fs. mtime x (path_join dir f) \<noteq> None \<Longrightarrow>
   stat_each x dir fs = Inr (map (\<lambda>f. \<lparr>name = f, time = the (mtime x (path_join dir f))\<rparr>) fs)"
  by (induction fs) auto

lemma stat_each_throws:
  "\<exists>f \<in> set fs. mtime x (path_join dir f) = None \<Longrightarrow>
   \<exists>f \<in> set fs. mtime x (path_join dir f) = None \<and>
                 stat_each x dir fs = Inl (StatFailed (path_join dir f))"
proof (induction fs)
  case Nil
  then show ?case by simp
next
  case (Cons g fs)
  show ?case
  proof (cases "mtime x (path_join dir g)")
    case None
    then show ?thesis by simp
  next
    case (Some t)
    with Cons.prems have "\<exists>f \<in> set fs. mtime x (path_join dir f) = None" by auto
    from Cons.IH [OF this] obtain f where
      "f \<in> set fs" "mtime x (path_join dir f) = None"
      "stat_each x dir fs = Inl (StatFailed (path_join dir f))"
      by blast
    with Some show ?thesis by auto
  qed
qed

lemma getLatestBackup_none_matching:
  assumes "readdirSync x = Some names" "filter is_backup_name names = []"
  shows "getLatestBackup x c = Inr None"
  using assms by (simp add: getLatestBackup_def)

lemma getLatestBackup_throws:
  assumes "readdirSync x = Some names"
    and "\<exists>f \<in> set (filter is_backup_name names). mtime x (path_join (BACKUP_DIR c) f) = None"
  shows "\<exists>f \<in> set (filter is_backup_name names).
           mtime x (path_join (BACKUP_DIR c) f) = None \<and>
           getLatestBackup x c = Inl (StatFailed (path_join (BACKUP_DIR c) f))"
proof -
  from stat_each_throws [OF assms(2)] obtain f where
    "f \<in> set (filter is_backup_name names)" "mtime x (path_join (BACKUP_DIR c) f) = None"
    "stat_each x (BACKUP_DIR c) (filter is_backup_name names) = Inl (StatFailed (path_join (BACKUP_DIR c) f))"
    by blast
  with assms(1) show ?thesis by (auto simp: getLatestBackup_def)
qed

lemma getLatestBackup_newest:
  assumes "readdirSync x = Some names"
    and ne: "filter is_backup_name names \<noteq> []"
    and ok: "\<forall>f \<in> set (filter is_backup_name names). mtime x (path_join (BACKUP_DIR c) f) \<noteq> None"
  shows "\<exists>f \<in> set (filter is_backup_name names). \<exists>t.
           mtime x (path_join (BACKUP_DIR c) f) = Some t \<and>
           getLatestBackup x c = Inr (Some (path_join (BACKUP_DIR c) f)) \<and>
           (\<forall>g \<in> set (filter is_backup_name names). \<forall>u.
              mtime x (path_join (BACKUP_DIR c) g) = Some u \<longrightarrow> u \<le> t)"
proof -
  let ?mk = "\<lambda>f. \<lparr>name = f, time = the (mtime x (path_join (BACKUP_DIR c) f))\<rparr>"
  let ?m = "filter is_backup_name names"
  let ?s = "sort_key (\<lambda>a. - time a) (map ?mk ?m)"
  from ne have "?s \<noteq> []" by simp
  then obtain first rest where s: "?s = first # rest" by (cases ?s) auto
  from sort_key_first [OF s] have
    mem: "first \<in> set (map ?mk ?m)" and le: "\<forall>z \<in> set (map ?mk ?m). - time first \<le> - time z"
    by blast+
  from mem obtain f where f: "f \<in> set ?m" "first = ?mk f" by auto
  from ok f(1) obtain t where t: "mtime x (path_join (BACKUP_DIR c) f) = Some t" by auto
  have "getLatestBackup x c = Inr (Some (path_join (BACKUP_DIR c) f))"
    using assms(1) s f(2) by (simp add: getLatestBackup_def stat_each_all [OF ok])
  moreover have "\<forall>g \<in> set ?m. \<forall>u. mtime x (path_join (BACKUP_DIR c) g) = Some u \<longrightarrow> u \<le> t"
  proof (intro ballI allI impI)
    fix g u assume g: "g \<in> set ?m" "mtime x (path_join (BACKUP_DIR c) g) = Some u"
    from g(1) have "?mk g \<in> ?mk ` set ?m" by (rule imageI)
    then have "?mk g \<in> set (map ?mk ?m)" by simp
    with le have "- time first \<le> - time (?mk g)" by blast
    with f(2) t g(2) show "u \<le> t" by simp
  qed
  ultimately show ?thesis using f(1) t by blast
qed

text \<open>
  Claim C8.  A file name matches the artifact convention exactly when it ends in
  \<open>.sql\<close>, \<open>.dump\<close>, \<open>.sql.gz\<close> or \<open>.dump.gz\<close>.  Let the staging directory be listed.
  \<open>getLatestBackup\<close> returns the absent value, and no error, exactly when no entry of
  the directory matches.  When entries match and each of them can be stat-ed, it
  returns the path of a matching entry whose modification time no other matching entry
  exceeds; with two matching entries, in either order of the listing, it returns the
  newer one.  When a matching entry cannot be stat-ed the call throws for such an entry.
\<close>

theorem latest_backup:
  assumes "readdirSync x = Some names"
  shows "(let dir = BACKUP_DIR c;
              matching = filter is_backup_name names
          in (\<forall>f. is_backup_name f \<longleftrightarrow>
                    (\<exists>stem. f = stem @ ''.sql'' \<or> f = stem @ ''.dump'' \<or> f = stem @ ''.sql.gz''
                             \<or> f = stem @ ''.dump.gz'')) \<and>
             (getLatestBackup x c = Inr None \<longleftrightarrow> matching = []) \<and>
             (matching \<noteq> [] \<and> (\<forall>f \<in> set matching. mtime x (path_join dir f) \<noteq> None) \<longrightarrow>
                (\<exists>f \<in> set matching. \<exists>t.
                   mtime x (path_join dir f) = Some t \<and>
                   getLatestBackup x c = Inr (Some (path_join dir f)) \<and>
                   (\<forall>g \<in> set matching. \<forall>u. mtime x (path_join dir g) = Some u \<longrightarrow> u \<le> t))) \<and>
             (\<forall>a b ta tb.
                (names = [a, b] \<or> names = [b, a]) \<and> is_backup_name a \<and> is_backup_name b \<and>
                mtime x (path_join dir a) = Some ta \<and> mtime x (path_join dir b) = Some tb \<and>
                ta < tb \<longrightarrow>
                getLatestBackup x c = Inr (Some (path_join dir b))) \<and>
             ((\<exists>f \<in> set matching. mtime x (path_join dir f) = None) \<longrightarrow>
                (\<exists>f \<in> set matching. mtime x (path_join dir f) = None \<and>
                   getLatestBackup x c = Inl (StatFailed (path_join dir f)))))"
proof -
  let ?dir = "BACKUP_DIR c"
  let ?m = "filter is_backup_name names"
  have conv: "\<forall>f. is_backup_name f \<longleftrightarrow>
              (\<exists>stem. f = stem @ ''.sql'' \<or> f = stem @ ''.dump'' \<or> f = stem @ ''.sql.gz''
                       \<or> f = stem @ ''.dump.gz'')"
    unfolding is_backup_name_def endsWith_iff by blast
  note newest = getLatestBackup_newest [OF assms, of c]
  note throws = getLatestBackup_throws [OF assms, of c]
  have none: "getLatestBackup x c = Inr None \<longleftrightarrow> ?m = []"
  proof
    assume "?m = []"
    then show "getLatestBackup x c = Inr None" by (rule getLatestBackup_none_matching [OF assms])
  next
    assume r: "getLatestBackup x c = Inr None"
    show "?m = []"
    proof (rule ccontr)
      assume ne: "?m \<noteq> []"
      show False
      proof (cases "\<forall>f \<in> set ?m. mtime x (path_join ?dir f) \<noteq> None")
        case True
        from newest [OF ne True] r show False by auto
      next
        case False
        then have "\<exists>f \<in> set ?m. mtime x (path_join ?dir f) = None" by auto
        from throws [OF this] r show False by auto
      qed
    qed
  qed
  have two: "getLatestBackup x c = Inr (Some (path_join ?dir b))"
    if l: "names = [a, b] \<or> names = [b, a]"
      and m: "is_backup_name a" "is_backup_name b"
      and t: "mtime x (path_join ?dir a) = Some ta" "mtime x (path_join ?dir b) = Some tb" "ta < tb"
    for a b ta tb
  proof -
    from l m have set: "set ?m = {a, b}" by auto
    have ne: "?m \<noteq> []"
    proof
      assume "?m = []"
      then have "set ?m = {}" by simp
      with set show False by simp
    qed
    have ok: "\<forall>f \<in> set ?m. mtime x (path_join ?dir f) \<noteq> None"
      unfolding set using t by auto
    from newest [OF ne ok] have
      "\<exists>f \<in> {a, b}. \<exists>t. mtime x (path_join ?dir f) = Some t \<and>
          getLatestBackup x c = Inr (Some (path_join ?dir f)) \<and>
          (\<forall>g \<in> {a, b}. \<forall>u. mtime x (path_join ?dir g) = Some u \<longrightarrow> u \<le> t)"
      unfolding set .
    then obtain f t' where
      f: "f \<in> {a, b}" "mtime x (path_join ?dir f) = Some t'"
         "getLatestBackup x c = Inr (Some (path_join ?dir f))"
         "\<forall>g \<in> {a, b}. \<forall>u. mtime x (path_join ?dir g) = Some u \<longrightarrow> u \<le> t'"
      by blast
    from f(4) t(2) have "tb \<le> t'" by blast
    with f(2) t(1,3) have "f \<noteq> a" by auto
    with f(1,3) show ?thesis by simp
  qed
  show ?thesis
    unfolding Let_def
    using conv none newest throws two by blast
qed

theorem latest_backup_witness:
  "readdirSync example_externals = Some [''a.dump'', ''notes.txt'', ''b.sql.gz''] \<and>
   filter is_backup_name [''a.dump'', ''notes.txt'', ''b.sql.gz''] = [''a.dump'', ''b.sql.gz''] \<and>
   mtime example_externals (path_join (BACKUP_DIR example_config) ''a.dump'') = Some 100 \<and>
   mtime example_externals (path_join (BACKUP_DIR example_config) ''b.sql.gz'') = Some 200 \<and>
   getLatestBackup example_externals example_config = Inr (Some ''backups/b.sql.gz'') \<and>
   getLatestBackup (example_externals\<lparr>readdirSync := Some [''notes.txt'']\<rparr>) example_config
     = Inr None \<and>
   getLatestBackup (example_externals\<lparr>mtime := (\<lambda>p. None)\<rparr>) example_config
     = Inl (StatFailed ''backups/a.dump'')"
proof -
  have r: "readdirSync example_externals = Some [''a.dump'', ''notes.txt'', ''b.sql.gz'']"
    by (simp add: example_externals_def)
  have m: "filter is_backup_name [''a.dump'', ''notes.txt'', ''b.sql.gz''] = [''a.dump'', ''b.sql.gz'']"
    by (simp add: is_backup_name_def endsWith_def)
  have n: "filter is_backup_name [''notes.txt''] = []"
    by (simp add: is_backup_name_def endsWith_def)
  have pa: "path_join (BACKUP_DIR example_config) ''a.dump'' = ''backups/a.dump''"
    by (simp add: example_config_def path_join_def normalize_def)
  have pb: "path_join (BACKUP_DIR example_config) ''b.sql.gz'' = ''backups/b.sql.gz''"
    by (simp add: example_config_def path_join_def normalize_def)
  have ta: "mtime example_externals ''backups/a.dump'' = Some 100"
    and tb: "mtime example_externals ''backups/b.sql.gz'' = Some 200"
    by (simp_all add: example_externals_def)
  have ok: "\<forall>f \<in> set [''a.dump'', ''b.sql.gz''].
              mtime example_externals (path_join (BACKUP_DIR example_config) f) \<noteq> None"
    by (simp add: pa pb ta tb)
  have ne: "[''a.dump'', ''b.sql.gz''] \<noteq> []" by simp
  from latest_backup [OF r, of example_config, unfolded Let_def m] ne ok
  have "\<exists>f \<in> set [''a.dump'', ''b.sql.gz'']. \<exists>t.
          mtime example_externals (path_join (BACKUP_DIR example_config) f) = Some t \<and>
          getLatestBackup example_externals example_config
            = Inr (Some (path_join (BACKUP_DIR example_config) f)) \<and>
          (\<forall>g \<in> set [''a.dump'', ''b.sql.gz'']. \<forall>u.
             mtime example_externals (path_join (BACKUP_DIR example_config) g) = Some u \<longrightarrow> u \<le> t)"
    by blast
  then obtain f t where f: "f \<in> set [''a.dump'', ''b.sql.gz'']"
    "mtime example_externals (path_join (BACKUP_DIR example_config) f) = Some t"
    "getLatestBackup example_externals example_config
       = Inr (Some (path_join (BACKUP_DIR example_config) f))"
    "\<forall>g \<in> set [''a.dump'', ''b.sql.gz'']. \<forall>u.
       mtime example_externals (path_join (BACKUP_DIR example_config) g) = Some u \<longrightarrow> u \<le> t"
    by blast
  from f(4) have "200 \<le> t" by (simp add: pb tb)
  with f(2) have "f \<noteq> ''a.dump''" by (auto simp: pa ta)
  with f(1) have "f = ''b.sql.gz''" by simp
  with f(3) have A: "getLatestBackup example_externals example_config = Inr (Some ''backups/b.sql.gz'')"
    by (simp add: pb)
  have r2: "readdirSync (example_externals\<lparr>readdirSync := Some [''notes.txt'']\<rparr>) = Some [''notes.txt'']"
    by simp
  have B: "getLatestBackup (example_externals\<lparr>readdirSync := Some [''notes.txt'']\<rparr>) example_config = Inr None"
    using latest_backup [OF r2, of example_config]
    unfolding Let_def n by blast
  have r3: "readdirSync (example_externals\<lparr>mtime := (\<lambda>p. None)\<rparr>) = Some [''a.dump'', ''notes.txt'', ''b.sql.gz'']"
    by (simp add: example_externals_def)
  have C: "getLatestBackup (example_externals\<lparr>mtime := (\<lambda>p. None)\<rparr>) example_config
     = Inl (StatFailed ''backups/a.dump'')"
    unfolding getLatestBackup_def r3 option.case m by (simp add: pa)
  from r m A B C show ?thesis by (simp add: pa pb ta tb)
qed

section \<open>The retention pass\<close>

lemma delete_each_result:
  "delete_each x olds w =
     (let ok = takeWhile (\<lambda>ob. \<not> delete_fails x (Key ob)) olds;
          rest = dropWhile (\<lambda>ob. \<not> delete_fails x (Key ob)) olds
      in (case rest of [] \<Rightarrow> Inr () | f # _ \<Rightarrow> Inl (Rejected (DeleteFailed (Key f))),
          w\<lparr>bucket := filter (\<lambda>ob. Key ob \<notin> Key ` set ok) (bucket w),
            trace := trace w
              @ concat (map (\<lambda>ob. [DeleteObject (Key ob) True, ConsoleLog (DeletedOldBackup (Key ob))]) ok)
              @ (case rest of [] \<Rightarrow> [] | f # _ \<Rightarrow> [DeleteObject (Key f) False])\<rparr>))"
proof (induction olds arbitrary: w)
  case Nil
  show ?case by (simp add: return_def)
next
  case (Cons f olds)
  show ?case
  proof (cases "delete_fails x (Key f)")
    case True
    then show ?thesis
      by (simp add: andThen_def send_DeleteObject_def)
  next
    case False
    let ?w1 = "w\<lparr>bucket := filter (\<lambda>ob. Key ob \<noteq> Key f) (bucket w),
                  trace := trace w @ [DeleteObject (Key f) True]\<rparr>"
    let ?w2 = "?w1\<lparr>trace := trace ?w1 @ [ConsoleLog (DeletedOldBackup (Key f))]\<rparr>"
    from False have "delete_each x (f # olds) w = delete_each x olds ?w2"
      by (simp add: andThen_def send_DeleteObject_def)
    moreover have "filter (\<lambda>ob. Key ob \<notin> Key ` S) (filter (\<lambda>ob. Key ob \<noteq> Key f) b)
        = filter (\<lambda>ob. Key ob \<notin> Key ` insert f S) b" for S b
      by (induction b) auto
    ultimately show ?thesis
      using False by (simp add: Cons.IH Let_def)
  qed
qed

lemma delete_requests_append [simp]:
  "delete_requests (es @ fs) = delete_requests es @ delete_requests fs"
  by (induction es rule: delete_requests.induct) simp_all

lemma delete_requests_deleted [simp]:
  "delete_requests
     (concat (map (\<lambda>ob. [DeleteObject (Key ob) True, ConsoleLog (DeletedOldBackup (Key ob))]) obs))
   = map (\<lambda>ob. (Key ob, True)) obs"
  by (induction obs) simp_all

lemma retention_pass_result:
  assumes "\<not> list_fails x"
  shows "retention_pass x w =
     (if length (bucket w) > KEEP_LAST
      then delete_each x (drop KEEP_LAST (sort_key (\<lambda>ob. - LastModified ob) (bucket w)))
             (w\<lparr>trace := trace w @ [ListObjectsV2 True]\<rparr>)
      else (Inr (), w\<lparr>trace := trace w @ [ListObjectsV2 True]\<rparr>))"
  using assms
  by (auto simp: retention_pass_def andThen_def send_ListObjectsV2_def Let_def return_def KEEP_LAST_def)

lemma retention_pass_list_fails:
  "list_fails x \<Longrightarrow>
   retention_pass x w = (Inl (Rejected ListFailed), w\<lparr>trace := trace w @ [ListObjectsV2 False]\<rparr>)"
  by (simp add: retention_pass_def andThen_def send_ListObjectsV2_def)

lemma sorted_take_drop_le:
  fixes f :: "'a \<Rightarrow> int"
  assumes "sorted (map f xs)" "a \<in> set (take n xs)" "b \<in> set (drop n xs)"
  shows "f a \<le> f b"
proof -
  have "sorted (map f (take n xs) @ map f (drop n xs))"
    using assms(1) by (metis append_take_drop_id map_append)
  with assms(2,3) show ?thesis by (auto simp: sorted_append)
qed

lemma filter_not_dropped:
  assumes "distinct (map Key s)" "set b = set s"
  shows "filter (\<lambda>ob. Key ob \<notin> Key ` set (drop n s)) b = filter (\<lambda>ob. ob \<in> set (take n s)) b"
proof (rule filter_cong [OF refl])
  fix ob assume "ob \<in> set b"
  with assms(2) have mem: "ob \<in> set (take n s) \<union> set (drop n s)"
    by (metis append_take_drop_id set_append)
  have d: "distinct (map Key (take n s) @ map Key (drop n s))"
    using assms(1) by (metis append_take_drop_id map_append)
  show "(Key ob \<notin> Key ` set (drop n s)) = (ob \<in> set (take n s))"
  proof
    assume "Key ob \<notin> Key ` set (drop n s)"
    with mem show "ob \<in> set (take n s)" by auto
  next
    assume "ob \<in> set (take n s)"
    with d show "Key ob \<notin> Key ` set (drop n s)" by auto
  qed
qed

lemma send_PutObject_distinct:
  "distinct (map Key (bucket w)) \<Longrightarrow> distinct (map Key (bucket (snd (send_PutObject x key w))))"
  by (auto simp: send_PutObject_def distinct_map_filter)

lemma retention_pass_small:
  assumes "\<not> list_fails x" "length (bucket w) \<le> 7"
  shows "retention_pass x w = (Inr (), w\<lparr>trace := trace w @ [ListObjectsV2 True]\<rparr>)"
  using assms by (simp add: retention_pass_result KEEP_LAST_def)

lemma retention_pass_large:
  assumes "\<not> list_fails x" "\<forall>k. \<not> delete_fails x k" "length (bucket w) > 7"
  shows "retention_pass x w =
     (Inr (),
      w\<lparr>bucket := filter (\<lambda>ob. Key ob \<notin> Key ` set (drop 7 (sort_key (\<lambda>ob. - LastModified ob) (bucket w))))
                     (bucket w),
        trace := trace w @ [ListObjectsV2 True]
          @ concat (map (\<lambda>ob. [DeleteObject (Key ob) True, ConsoleLog (DeletedOldBackup (Key ob))])
                      (drop 7 (sort_key (\<lambda>ob. - LastModified ob) (bucket w))))\<rparr>)"
proof -
  have tw: "takeWhile (\<lambda>ob. \<not> delete_fails x (Key ob)) obs = obs"
    and dw: "dropWhile (\<lambda>ob. \<not> delete_fails x (Key ob)) obs = []" for obs
    using assms(2) by simp_all
  show ?thesis
    using assms(1,3)
    by (simp add: retention_pass_result KEEP_LAST_def delete_each_result tw dw Let_def)
qed

text \<open>
  Claim C2.  Take any listing of \<open>n\<close> objects with distinct keys, and let the listing and
  the deletion requests succeed.  When \<open>n\<close> is at most 7 the retention pass requests no
  deletion and leaves the bucket as it is.  When \<open>n\<close> exceeds 7 it deletes exactly the
  \<open>n - 7\<close> objects that come after the first seven in the order of descending
  last-modified time, each of which is no newer than any object it keeps, and the bucket
  then holds the seven kept objects.  A second pass right after the first requests no
  deletion and leaves the bucket as it is.
\<close>

theorem retention_keeps_seven_newest:
  assumes "\<not> list_fails x" and "\<forall>k. \<not> delete_fails x k" and "distinct (map Key (bucket w))"
  shows "(let n = length (bucket w);
              newest_first = sort_key (\<lambda>ob. - LastModified ob) (bucket w);
              kept = take 7 newest_first;
              old = drop 7 newest_first;
              (r1, w1) = retention_pass x w;
              (r2, w2) = retention_pass x w1
          in r1 = Inr () \<and>
             delete_requests (emitted w w1) = map (\<lambda>ob. (Key ob, True)) old \<and>
             length old = n - 7 \<and>
             length kept = min n 7 \<and>
             bucket w1 = filter (\<lambda>ob. ob \<in> set kept) (bucket w) \<and>
             set (bucket w1) = set kept \<and>
             (\<forall>a \<in> set kept. \<forall>b \<in> set old. LastModified b \<le> LastModified a) \<and>
             (if n \<le> 7 then old = [] \<and> bucket w1 = bucket w else length (bucket w1) = 7) \<and>
             r2 = Inr () \<and>
             delete_requests (emitted w1 w2) = [] \<and>
             bucket w2 = bucket w1)"
proof -
  define s where "s = sort_key (\<lambda>ob. - LastModified ob) (bucket w)"
  define kept where "kept = take 7 s"
  define old where "old = drop 7 s"
  define b1 where "b1 = filter (\<lambda>ob. ob \<in> set kept) (bucket w)"
  have set_s: "set s = set (bucket w)" and len_s: "length s = length (bucket w)"
    by (simp_all add: s_def)
  have dist_b: "distinct (bucket w)" using assms(3) by (simp add: distinct_map)
  have dist_s: "distinct s" using dist_b by (simp add: s_def)
  have inj: "inj_on Key (set (bucket w))" using assms(3) by (simp add: distinct_map)
  have dist_keys: "distinct (map Key s)"
    using dist_s inj set_s by (simp add: distinct_map)
  have kept_sub: "set kept \<subseteq> set (bucket w)"
    unfolding kept_def using set_s by (metis set_take_subset)
  have set_b1: "set b1 = set kept" unfolding b1_def using kept_sub by auto
  have len_old: "length old = length (bucket w) - 7" by (simp add: old_def len_s)
  have len_kept: "length kept = min (length (bucket w)) 7" by (simp add: kept_def len_s)
  have "length b1 = card (set kept)"
    unfolding b1_def using dist_b kept_sub
    by (simp add: distinct_length_filter Int_absorb2 Collect_mem_eq)
  also have "\<dots> = length kept"
    using dist_s unfolding kept_def by (simp add: distinct_card)
  finally have len_b1: "length b1 = min (length (bucket w)) 7" using len_kept by simp
  have order: "\<forall>a \<in> set kept. \<forall>b \<in> set old. LastModified b \<le> LastModified a"
  proof (intro ballI)
    fix a b assume "a \<in> set kept" "b \<in> set old"
    moreover have "sorted (map (\<lambda>ob. - LastModified ob) s)" by (simp add: s_def)
    ultimately have "- LastModified a \<le> - LastModified b"
      unfolding kept_def old_def by (rule sorted_take_drop_le [rotated])
    then show "LastModified b \<le> LastModified a" by simp
  qed
  have first: "fst (retention_pass x w) = Inr () \<and>
      delete_requests (emitted w (snd (retention_pass x w))) = map (\<lambda>ob. (Key ob, True)) old \<and>
      bucket (snd (retention_pass x w)) = b1 \<and>
      (if length (bucket w) \<le> 7 then old = [] \<and> b1 = bucket w else length b1 = 7)"
  proof (cases "length (bucket w) \<le> 7")
    case True
    then have "old = []" "kept = s" by (simp_all add: old_def kept_def len_s)
    moreover from this have "b1 = bucket w" by (simp add: b1_def set_s)
    ultimately show ?thesis
      using True by (simp add: retention_pass_small [OF assms(1)])
  next
    case False
    then have big: "length (bucket w) > 7" by simp
    have "filter (\<lambda>ob. Key ob \<notin> Key ` set (drop 7 s)) (bucket w) = b1"
      unfolding b1_def kept_def using dist_keys set_s by (simp add: filter_not_dropped)
    then show ?thesis
      using False len_b1
      by (simp add: retention_pass_large [OF assms(1,2) big] s_def [symmetric] old_def [symmetric])
  qed
  have second: "retention_pass x w1 = (Inr (), w1\<lparr>trace := trace w1 @ [ListObjectsV2 True]\<rparr>)"
    if "bucket w1 = b1" for w1
    using that len_b1 by (intro retention_pass_small [OF assms(1)]) simp
  show ?thesis
    unfolding Let_def s_def [symmetric] kept_def [symmetric] old_def [symmetric]
    using first len_old len_kept set_b1 order second [of "snd (retention_pass x w)"]
    by (auto simp: b1_def [symmetric] split: prod.splits)
qed

lemma example_bucket_newest_first:
  "sort_key (\<lambda>ob. - LastModified ob) example_bucket =
     [\<lparr>Key = ''k3'', LastModified = 90\<rparr>, \<lparr>Key = ''k7'', LastModified = 80\<rparr>,
      \<lparr>Key = ''k5'', LastModified = 70\<rparr>, \<lparr>Key = ''k9'', LastModified = 60\<rparr>,
      \<lparr>Key = ''k1'', LastModified = 50\<rparr>, \<lparr>Key = ''k8'', LastModified = 40\<rparr>,
      \<lparr>Key = ''k4'', LastModified = 30\<rparr>, \<lparr>Key = ''k6'', LastModified = 20\<rparr>,
      \<lparr>Key = ''k2'', LastModified = 10\<rparr>]"
  by (simp add: example_bucket_def)

theorem retention_keeps_seven_newest_witness:
  "length (bucket example_world_full) = 9 \<and>
   delete_requests (emitted example_world_full
                      (snd (retention_pass example_externals example_world_full)))
     = [(''k6'', True), (''k2'', True)] \<and>
   map Key (bucket (snd (retention_pass example_externals example_world_full)))
     = [''k1'', ''k3'', ''k4'', ''k5'', ''k7'', ''k8'', ''k9''] \<and>
   delete_requests (emitted (snd (retention_pass example_externals example_world_full))
                      (snd (retention_pass example_externals
                              (snd (retention_pass example_externals example_world_full)))))
     = [] \<and>
   bucket (snd (retention_pass example_externals
                  (snd (retention_pass example_externals example_world_full))))
     = bucket (snd (retention_pass example_externals example_world_full))"
proof -
  have b: "bucket example_world_full = example_bucket"
    by (simp add: example_world_full_def)
  have 1: "\<not> list_fails example_externals" and 2: "\<forall>k. \<not> delete_fails example_externals k"
    by (simp_all add: example_externals_def)
  have 3: "distinct (map Key (bucket example_world_full))"
    by (simp add: b example_bucket_def)
  have len: "length (bucket example_world_full) = 9"
    by (simp add: b example_bucket_def)
  have kept: "filter (\<lambda>ob. ob \<in> set (take 7 (sort_key (\<lambda>ob. - LastModified ob) example_bucket)))
                example_bucket =
     [\<lparr>Key = ''k1'', LastModified = 50\<rparr>, \<lparr>Key = ''k3'', LastModified = 90\<rparr>,
      \<lparr>Key = ''k4'', LastModified = 30\<rparr>, \<lparr>Key = ''k5'', LastModified = 70\<rparr>,
      \<lparr>Key = ''k7'', LastModified = 80\<rparr>, \<lparr>Key = ''k8'', LastModified = 40\<rparr>,
      \<lparr>Key = ''k9'', LastModified = 60\<rparr>]"
    unfolding example_bucket_newest_first by (simp add: example_bucket_def)
  show ?thesis
    using retention_keeps_seven_newest [OF 1 2 3] len
    unfolding Let_def b kept
    by (simp add: case_prod_beta example_bucket_newest_first)
qed

section \<open>Upload, local deletion and the handler\<close>

lemma retention_pass_not_uncaught: "fst (retention_pass x w) \<noteq> Inl (Uncaught e)"
proof (cases "list_fails x")
  case True
  then show ?thesis by (simp add: retention_pass_list_fails)
next
  case False
  then show ?thesis
    by (simp add: retention_pass_result delete_each_result Let_def split: list.splits)
qed

lemma catch_retention_returns:
  "fst (catch (retention_pass x) (\<lambda>err. console_error (UploadCleanupFailed err)) w) = Inr ()"
proof (cases "retention_pass x w")
  case (Pair r w')
  show ?thesis
  proof (cases r)
    case (Inr u)
    with Pair show ?thesis by (simp add: catch_def)
  next
    case (Inl e)
    show ?thesis
    proof (cases e)
      case (Rejected err)
      with Pair Inl show ?thesis by (simp add: catch_def)
    next
      case (Uncaught err)
      with Pair Inl retention_pass_not_uncaught [of x w err] show ?thesis by simp
    qed
  qed
qed

lemma uploadToBackblaze_put_fails:
  assumes "truthy (B2_BUCKET c)" "put_fails x (basename filePath)" "filePath \<in> files w"
  shows "uploadToBackblaze x c filePath w =
     (Inr (), w\<lparr>trace := trace w @ [PutObject (basename filePath) False,
                 ConsoleError (UploadCleanupFailed (PutFailed (basename filePath)))]\<rparr>)"
  using assms
  by (simp add: uploadToBackblaze_def Let_def andThen_def createReadStream_def catch_def
        send_PutObject_def)

lemma uploadToBackblaze_no_file:
  assumes "truthy (B2_BUCKET c)" "filePath \<notin> files w"
  shows "uploadToBackblaze x c filePath w = (Inl (Uncaught (NoSuchFile filePath)), w)"
  using assms
  by (simp add: uploadToBackblaze_def Let_def andThen_createReadStream)

lemma uploadToBackblaze_put_ok:
  assumes "truthy (B2_BUCKET c)" "\<not> put_fails x (basename filePath)" "filePath \<in> files w"
  shows "uploadToBackblaze x c filePath w =
     catch (retention_pass x) (\<lambda>err. console_error (UploadCleanupFailed err))
       (w\<lparr>bucket := filter (\<lambda>ob. Key ob \<noteq> basename filePath) (bucket w)
                      @ [\<lparr>Key = basename filePath, LastModified = put_time x\<rparr>],
          files := files w - {filePath},
          trace := trace w @ [PutObject (basename filePath) True,
                              ConsoleLog (Uploaded (basename filePath)),
                              UnlinkSync filePath,
                              ConsoleLog (LocalFileDeleted filePath)]\<rparr>)"
proof -
  let ?key = "basename filePath"
  let ?body = "andThen (send_PutObject x ?key) (\<lambda>_.
               andThen (console_log (Uploaded ?key)) (\<lambda>_.
               andThen (unlinkSync filePath) (\<lambda>_.
               andThen (console_log (LocalFileDeleted filePath)) (\<lambda>_.
               retention_pass x))))"
  let ?w4 = "w\<lparr>bucket := filter (\<lambda>ob. Key ob \<noteq> ?key) (bucket w)
                      @ [\<lparr>Key = ?key, LastModified = put_time x\<rparr>],
          files := files w - {filePath},
          trace := trace w @ [PutObject ?key True, ConsoleLog (Uploaded ?key),
                              UnlinkSync filePath, ConsoleLog (LocalFileDeleted filePath)]\<rparr>"
  have "?body w = retention_pass x ?w4"
    using assms(2,3) by (simp add: andThen_def send_PutObject_def unlinkSync_def)
  then have "catch ?body (\<lambda>err. console_error (UploadCleanupFailed err)) w
      = catch (retention_pass x) (\<lambda>err. console_error (UploadCleanupFailed err)) ?w4"
    by (simp add: catch_def)
  with assms(1,3) show ?thesis
    by (simp add: uploadToBackblaze_def Let_def andThen_createReadStream)
qed

lemma uploadToBackblaze_returns:
  assumes "filePath \<in> files w"
  shows "fst (uploadToBackblaze x c filePath w) = Inr ()"
proof (cases "truthy (B2_BUCKET c)")
  case False
  then show ?thesis by (simp add: uploadToBackblaze_def return_def)
next
  case True
  show ?thesis
  proof (cases "put_fails x (basename filePath)")
    case True
    with \<open>truthy (B2_BUCKET c)\<close> assms show ?thesis by (simp add: uploadToBackblaze_put_fails)
  next
    case False
    with \<open>truthy (B2_BUCKET c)\<close> assms show ?thesis
      by (simp add: uploadToBackblaze_put_ok catch_retention_returns)
  qed
qed

lemma catch_retention_frame:
  "preserves trace_extends (catch (retention_pass x) (\<lambda>err. console_error (UploadCleanupFailed err)))"
  "preserves (same_files_except {}) (catch (retention_pass x) (\<lambda>err. console_error (UploadCleanupFailed err)))"
  by (auto intro!: grows_catch files_catch retention_pass_grows retention_pass_files)

text \<open>
  Claim C1.  Let a bucket be configured and the local artifact exist.  After
  \<open>uploadToBackblaze\<close> the file has been deleted if and only if the upload request
  succeeded; no deletion of it comes before the successful upload in the order of
  events; no other local file is touched; and when the upload request fails the local
  files are exactly as before, the only events being the failed request and its report.
  The call itself never fails.
\<close>

theorem upload_then_delete:
  assumes "truthy (B2_BUCKET c)" and "filePath \<in> files w"
  shows "(let key = basename filePath;
              (r, w') = uploadToBackblaze x c filePath w;
              es = emitted w w'
          in r = Inr () \<and>
             (filePath \<notin> files w' \<longleftrightarrow> \<not> put_fails x key) \<and>
             (UnlinkSync filePath \<in> set es \<longleftrightarrow> \<not> put_fails x key) \<and>
             precedes (PutObject key True) (UnlinkSync filePath) es \<and>
             same_files_except {filePath} w w' \<and>
             (if put_fails x key
              then files w' = files w \<and>
                   es = [PutObject key False, ConsoleError (UploadCleanupFailed (PutFailed key))]
              else files w' = files w - {filePath} \<and>
                   take 3 es = [PutObject key True, ConsoleLog (Uploaded key), UnlinkSync filePath]))"
proof (cases "put_fails x (basename filePath)")
  case True
  show ?thesis
    using True assms(2)
    by (simp add: uploadToBackblaze_put_fails [OF assms(1) True assms(2)] Let_def
          same_files_except_def)
next
  case False
  let ?h = "catch (retention_pass x) (\<lambda>err. console_error (UploadCleanupFailed err))"
  let ?w4 = "w\<lparr>bucket := filter (\<lambda>ob. Key ob \<noteq> basename filePath) (bucket w)
                      @ [\<lparr>Key = basename filePath, LastModified = put_time x\<rparr>],
          files := files w - {filePath},
          trace := trace w @ [PutObject (basename filePath) True,
                              ConsoleLog (Uploaded (basename filePath)),
                              UnlinkSync filePath,
                              ConsoleLog (LocalFileDeleted filePath)]\<rparr>"
  have eq: "uploadToBackblaze x c filePath w = ?h ?w4"
    by (rule uploadToBackblaze_put_ok [OF assms(1) False assms(2)])
  from catch_retention_frame(1) [of x] obtain es where
    tr: "trace (snd (?h ?w4)) = trace ?w4 @ es"
    unfolding preserves_def trace_extends_def by blast
  from catch_retention_frame(2) [of x] have fi: "files (snd (?h ?w4)) = files ?w4"
    unfolding preserves_def same_files_except_def by simp
  have em: "emitted w (snd (?h ?w4)) =
      [PutObject (basename filePath) True, ConsoleLog (Uploaded (basename filePath)),
       UnlinkSync filePath, ConsoleLog (LocalFileDeleted filePath)] @ es"
    by (rule emitted_append) (simp add: tr)
  have r: "fst (?h ?w4) = Inr ()" by (rule catch_retention_returns)
  show ?thesis
    using False r
    unfolding Let_def eq
    by (simp add: case_prod_beta em fi same_files_except_def)
qed

theorem upload_then_delete_witness:
  "truthy (B2_BUCKET example_config) \<and>
   ''backups/a.dump'' \<in> files example_world \<and>
   ''backups/a.dump'' \<notin> files (snd (uploadToBackblaze example_externals example_config
                                      ''backups/a.dump'' example_world)) \<and>
   files (snd (uploadToBackblaze (example_externals\<lparr>put_fails := (\<lambda>key. True)\<rparr>) example_config
                 ''backups/a.dump'' example_world)) = files example_world \<and>
   emitted example_world
     (snd (uploadToBackblaze (example_externals\<lparr>put_fails := (\<lambda>key. True)\<rparr>) example_config
             ''backups/a.dump'' example_world))
     = [PutObject ''a.dump'' False, ConsoleError (UploadCleanupFailed (PutFailed ''a.dump''))]"
proof -
  have 1: "truthy (B2_BUCKET example_config)" by (simp add: example_config_def)
  have 2: "''backups/a.dump'' \<in> files example_world" by (simp add: example_world_def)
  have k: "basename ''backups/a.dump'' = ''a.dump''" by (simp add: basename_def)
  have ok: "\<not> put_fails example_externals ''a.dump''" by (simp add: example_externals_def)
  from upload_then_delete [OF 1 2, of example_externals] ok
  have "''backups/a.dump'' \<notin> files (snd (uploadToBackblaze example_externals example_config
                                      ''backups/a.dump'' example_world))"
    unfolding Let_def k by (simp add: case_prod_beta)
  moreover
  from upload_then_delete [OF 1 2, of "example_externals\<lparr>put_fails := (\<lambda>key. True)\<rparr>"]
  have "files (snd (uploadToBackblaze (example_externals\<lparr>put_fails := (\<lambda>key. True)\<rparr>) example_config
                 ''backups/a.dump'' example_world)) = files example_world \<and>
     emitted example_world
     (snd (uploadToBackblaze (example_externals\<lparr>put_fails := (\<lambda>key. True)\<rparr>) example_config
             ''backups/a.dump'' example_world))
     = [PutObject ''a.dump'' False, ConsoleError (UploadCleanupFailed (PutFailed ''a.dump''))]"
    unfolding Let_def k by (simp add: case_prod_beta)
  ultimately show ?thesis using 1 2 by blast
qed

section \<open>A deletion that fails\<close>

text \<open>
  Claim C6, as the claim states it, fails.  The bucket holds nine objects; when no
  request fails the pass deletes the two oldest, k6 and then k2.  When the deletion of k6
  fails, and that of k2 would not, the failed request for k6 is the only deletion request
  of the pass: none is made for k2, and k2 stays in the bucket.
\<close>

theorem independent_deletions_counterexample:
  "delete_requests (emitted example_world_full
                      (snd (retention_pass example_externals example_world_full)))
     = [(''k6'', True), (''k2'', True)] \<and>
   delete_fails example_externals_k6 ''k6'' \<and>
   \<not> delete_fails example_externals_k6 ''k2'' \<and>
   delete_requests (emitted example_world_full
                      (snd (retention_pass example_externals_k6 example_world_full)))
     = [(''k6'', False)] \<and>
   \<lparr>Key = ''k2'', LastModified = 10\<rparr>
     \<in> set (bucket (snd (retention_pass example_externals_k6 example_world_full)))"
proof -
  have b: "bucket example_world_full = example_bucket"
    by (simp add: example_world_full_def)
  have l: "\<not> list_fails example_externals_k6" and l0: "\<not> list_fails example_externals"
    by (simp_all add: example_externals_k6_def example_externals_def)
  have d: "delete_fails example_externals_k6 = (\<lambda>key. key = ''k6'')"
    by (simp add: example_externals_k6_def)
  have d0: "delete_fails example_externals = (\<lambda>key. False)"
    by (simp add: example_externals_def)
  have len: "length example_bucket = 9" by (simp add: example_bucket_def)
  have ok: "delete_requests (emitted example_world_full
                      (snd (retention_pass example_externals example_world_full)))
     = [(''k6'', True), (''k2'', True)]"
    by (simp add: retention_pass_result [OF l0] b len KEEP_LAST_def
          example_bucket_newest_first d0 andThen_def send_DeleteObject_def return_def)
  have "retention_pass example_externals_k6 example_world_full =
      (Inl (Rejected (DeleteFailed ''k6'')),
       example_world_full\<lparr>trace := trace example_world_full
                                  @ [ListObjectsV2 True, DeleteObject ''k6'' False]\<rparr>)"
    by (simp add: retention_pass_result [OF l] b len KEEP_LAST_def
          example_bucket_newest_first d andThen_def send_DeleteObject_def)
  then show ?thesis
    using ok by (simp add: b d) (simp add: example_bucket_def)
qed

text \<open>
  Claim C6, amended.  During a retention pass that must delete several objects, the
  deletions are requested one after the other, in the order of the sorted listing.  The
  first request that fails ends the pass with that error: the objects before it have been
  deleted, and no deletion is requested for any object after it.  When no request fails,
  every one of them is made.
\<close>

theorem first_failed_deletion_ends_pass:
  assumes "\<not> list_fails x" and "length (bucket w) > 7"
  shows "(let old = drop 7 (sort_key (\<lambda>ob. - LastModified ob) (bucket w));
              deleted = takeWhile (\<lambda>ob. \<not> delete_fails x (Key ob)) old;
              (r, w') = retention_pass x w
          in case drop (length deleted) old of
               [] \<Rightarrow> r = Inr () \<and>
                     delete_requests (emitted w w') = map (\<lambda>ob. (Key ob, True)) old
             | failing # never_requested \<Rightarrow>
                 delete_fails x (Key failing) \<and>
                 old = deleted @ failing # never_requested \<and>
                 r = Inl (Rejected (DeleteFailed (Key failing))) \<and>
                 delete_requests (emitted w w')
                   = map (\<lambda>ob. (Key ob, True)) deleted @ [(Key failing, False)] \<and>
                 bucket w' = filter (\<lambda>ob. Key ob \<notin> Key ` set deleted) (bucket w))"
proof -
  define old where "old = drop 7 (sort_key (\<lambda>ob. - LastModified ob) (bucket w))"
  define deleted where "deleted = takeWhile (\<lambda>ob. \<not> delete_fails x (Key ob)) old"
  define rest where "rest = dropWhile (\<lambda>ob. \<not> delete_fails x (Key ob)) old"
  have rest: "drop (length deleted) old = rest"
    unfolding deleted_def rest_def by (simp add: dropWhile_eq_drop)
  have split: "old = deleted @ rest"
    unfolding deleted_def rest_def by simp
  have run: "retention_pass x w =
      (case rest of [] \<Rightarrow> Inr () | f # _ \<Rightarrow> Inl (Rejected (DeleteFailed (Key f))),
       w\<lparr>bucket := filter (\<lambda>ob. Key ob \<notin> Key ` set deleted) (bucket w),
         trace := trace w @ [ListObjectsV2 True]
           @ concat (map (\<lambda>ob. [DeleteObject (Key ob) True, ConsoleLog (DeletedOldBackup (Key ob))])
                       deleted)
           @ (case rest of [] \<Rightarrow> [] | f # _ \<Rightarrow> [DeleteObject (Key f) False])\<rparr>)"
    using assms(2)
    by (simp add: retention_pass_result [OF assms(1)] KEEP_LAST_def delete_each_result Let_def
          old_def [symmetric] deleted_def [symmetric] rest_def [symmetric])
  show ?thesis
  proof (cases rest)
    case Nil
    with split have "deleted = old" by simp
    with Nil show ?thesis
      unfolding Let_def old_def [symmetric] deleted_def [symmetric] rest
      by (simp add: run)
  next
    case (Cons failing never_requested)
    have "delete_fails x (Key failing)"
      using Cons hd_dropWhile [of "\<lambda>ob. \<not> delete_fails x (Key ob)" old]
      unfolding rest_def by force
    with Cons split show ?thesis
      unfolding Let_def old_def [symmetric] deleted_def [symmetric] rest
      by (simp add: run)
  qed
qed

theorem first_failed_deletion_ends_pass_witness:
  "delete_requests
     (emitted example_world_full
        (snd (retention_pass (example_externals\<lparr>delete_fails := (\<lambda>key. key = ''k2'')\<rparr>)
                example_world_full)))
     = [(''k6'', True), (''k2'', False)] \<and>
   fst (retention_pass (example_externals\<lparr>delete_fails := (\<lambda>key. key = ''k2'')\<rparr>)
          example_world_full)
     = Inl (Rejected (DeleteFailed ''k2'')) \<and>
   delete_requests
     (emitted example_world_full (snd (retention_pass example_externals_k6 example_world_full)))
     = [(''k6'', False)]"
proof -
  have b: "bucket example_world_full = example_bucket"
    by (simp add: example_world_full_def)
  have len: "length (bucket example_world_full) > 7"
    by (simp add: b example_bucket_def)
  have 1: "\<not> list_fails (example_externals\<lparr>delete_fails := (\<lambda>key. key = ''k2'')\<rparr>)"
    and 2: "\<not> list_fails example_externals_k6"
    by (simp_all add: example_externals_k6_def example_externals_def)
  have A: "delete_requests
     (emitted example_world_full
        (snd (retention_pass (example_externals\<lparr>delete_fails := (\<lambda>key. key = ''k2'')\<rparr>)
                example_world_full)))
     = [(''k6'', True), (''k2'', False)] \<and>
   fst (retention_pass (example_externals\<lparr>delete_fails := (\<lambda>key. key = ''k2'')\<rparr>)
          example_world_full)
     = Inl (Rejected (DeleteFailed ''k2''))"
    using first_failed_deletion_ends_pass [OF 1 len]
    unfolding Let_def b example_bucket_newest_first
    by (simp add: case_prod_beta)
  have B: "delete_requests
     (emitted example_world_full (snd (retention_pass example_externals_k6 example_world_full)))
     = [(''k6'', False)]"
    using first_failed_deletion_ends_pass [OF 2 len]
    unfolding Let_def b example_bucket_newest_first
    by (simp add: case_prod_beta example_externals_k6_def)
  from A B show ?thesis by blast
qed

section \<open>Restore\<close>

lemma strip_gz_neq: "endsWith filePath ''.gz'' \<Longrightarrow> strip_gz filePath \<noteq> filePath"
proof -
  assume e: "endsWith filePath ''.gz''"
  then have "length filePath \<ge> 3" by (simp add: endsWith_def)
  then have "length (strip_gz filePath) < length filePath"
    using e by (simp add: strip_gz_def)
  then show ?thesis by auto
qed

lemma strip_gz_id: "\<not> endsWith filePath ''.gz'' \<Longrightarrow> strip_gz filePath = filePath"
  by (simp add: strip_gz_def)

lemma restore_tool_step:
  "andThen
     (catch (andThen (runCommand x cmd) (\<lambda>_. console_log RestoreComplete))
        (\<lambda>err. console_error (RestoreFailed err))) f w =
   f () (w\<lparr>trace := trace w @ [Exec cmd (\<not> exec_fails x cmd),
                                 if exec_fails x cmd then ConsoleError (RestoreFailed (CommandFailed cmd))
                                 else ConsoleLog RestoreComplete]\<rparr>)"
  by (simp add: andThen_def catch_def runCommand_apply)

lemma restore_plain:
  assumes "\<not> endsWith filePath ''.gz''"
  shows "restore x c filePath w =
     (Inr (),
      w\<lparr>trace := trace w @
          [ConsoleLog (Restoring filePath),
           Exec (restoreCmd c filePath) (\<not> exec_fails x (restoreCmd c filePath)),
           if exec_fails x (restoreCmd c filePath)
           then ConsoleError (RestoreFailed (CommandFailed (restoreCmd c filePath)))
           else ConsoleLog RestoreComplete]\<rparr>)"
  using assms by (simp add: restore_def restore_tool_step return_apply)

lemma restore_gz_finished:
  assumes "endsWith filePath ''.gz''" "gunzip_outcome x filePath = Finished"
  shows "restore x c filePath w =
     (Inr (),
      w\<lparr>files := files w - {strip_gz filePath},
        trace := trace w @
          [ConsoleLog (Restoring filePath),
           CreateWriteStream (strip_gz filePath),
           Exec (restoreCmd c (strip_gz filePath)) (\<not> exec_fails x (restoreCmd c (strip_gz filePath))),
           if exec_fails x (restoreCmd c (strip_gz filePath))
           then ConsoleError (RestoreFailed (CommandFailed (restoreCmd c (strip_gz filePath))))
           else ConsoleLog RestoreComplete,
           UnlinkSync (strip_gz filePath)]\<rparr>)"
  using assms strip_gz_neq [OF assms(1)]
  by (simp add: restore_def Let_def await_decompression_def restore_tool_step unlinkSync_def
        return_apply)

lemma restore_gz_faulted:
  assumes "endsWith filePath ''.gz''" "gunzip_outcome x filePath = Faulted s"
  shows "restore x c filePath w =
     (Inl (stream_failure s),
      w\<lparr>files := insert (strip_gz filePath) (files w),
        trace := trace w @
          [ConsoleLog (Restoring filePath), CreateWriteStream (strip_gz filePath)]\<rparr>)"
  using assms
  by (simp add: restore_def Let_def await_decompression_def fail_apply)

lemma restore_gz_not_opened:
  assumes "endsWith filePath ''.gz''" "gunzip_outcome x filePath = NotOpened s"
  shows "restore x c filePath w =
     (Inl (stream_failure s),
      w\<lparr>trace := trace w @
          [ConsoleLog (Restoring filePath), CreateWriteStream (strip_gz filePath)]\<rparr>)"
  using assms
  by (simp add: restore_def Let_def await_decompression_def fail_apply)


text \<open>
  Claim C9.  For every artifact path, \<open>restore\<close> leaves the bucket and every local file
  other than the decompressed sibling (the path with its \<open>.gz\<close> suffix stripped) as they
  were.  For a path that does not end in \<open>.gz\<close> it creates and deletes no local file
  at all.  For a path that ends in \<open>.gz\<close> and decompresses, it creates the sibling,
  runs the restore tool, and then deletes the sibling, whether the tool succeeded or
  failed: the deletion is the last event, after the tool's run and its report.  When the
  decompression itself fails the restore tool is not run; the sibling has been created
  when the write stream could open it, and no file has been touched otherwise.  That case
  is claim C10.
\<close>

theorem restore_frame:
  "(let d = strip_gz filePath;
        cmd = restoreCmd c d;
        (r, w') = restore x c filePath w;
        es = emitted w w'
    in same_files_except {d} w w' \<and>
       bucket w' = bucket w \<and>
       (if \<not> endsWith filePath ''.gz''
        then r = Inr () \<and> files w' = files w \<and>
             (\<forall>e \<in> set es. \<forall>p. e \<noteq> CreateWriteStream p \<and> e \<noteq> UnlinkSync p)
        else case gunzip_outcome x filePath of
               Finished \<Rightarrow>
                 r = Inr () \<and> files w' = files w - {d} \<and>
                 es = [ConsoleLog (Restoring filePath),
                       CreateWriteStream d,
                       Exec cmd (\<not> exec_fails x cmd),
                       if exec_fails x cmd then ConsoleError (RestoreFailed (CommandFailed cmd))
                       else ConsoleLog RestoreComplete,
                       UnlinkSync d]
             | Faulted s \<Rightarrow>
                 files w' = insert d (files w) \<and>
                 (\<forall>e \<in> set es. \<forall>command ok. e \<noteq> Exec command ok)
             | NotOpened s \<Rightarrow>
                 files w' = files w \<and>
                 (\<forall>e \<in> set es. \<forall>command ok. e \<noteq> Exec command ok)))"
proof (cases "endsWith filePath ''.gz''")
  case False
  then show ?thesis
    by (simp add: restore_plain Let_def strip_gz_id same_files_except_def)
next
  case True
  show ?thesis
  proof (cases "gunzip_outcome x filePath")
    case Finished
    with True show ?thesis
      by (simp add: restore_gz_finished Let_def same_files_except_def)
  next
    case (Faulted s)
    with True show ?thesis
      by (simp add: restore_gz_faulted Let_def same_files_except_def)
  next
    case (NotOpened s)
    with True show ?thesis
      by (simp add: restore_gz_not_opened Let_def same_files_except_def)
  qed
qed

theorem restore_frame_witness:
  "files (snd (restore (example_externals\<lparr>exec_fails := (\<lambda>cmd. True)\<rparr>) example_config
                 ''backups/b.sql.gz'' example_world))
     = files example_world - {''backups/b.sql''} \<and>
   last (emitted example_world
           (snd (restore (example_externals\<lparr>exec_fails := (\<lambda>cmd. True)\<rparr>) example_config
                   ''backups/b.sql.gz'' example_world)))
     = UnlinkSync ''backups/b.sql'' \<and>
   fst (restore (example_externals\<lparr>exec_fails := (\<lambda>cmd. True)\<rparr>) example_config
          ''backups/b.sql.gz'' example_world) = Inr () \<and>
   files (snd (restore example_externals example_config ''backups/a.dump'' example_world))
     = files example_world"
proof -
  have gz: "endsWith ''backups/b.sql.gz'' ''.gz''" "\<not> endsWith ''backups/a.dump'' ''.gz''"
    by (simp_all add: endsWith_def)
  have d: "strip_gz ''backups/b.sql.gz'' = ''backups/b.sql''"
    by (simp add: strip_gz_def endsWith_def)
  have g: "gunzip_outcome (example_externals\<lparr>exec_fails := (\<lambda>cmd. True)\<rparr>) ''backups/b.sql.gz''
             = Finished"
    by (simp add: example_externals_def)
  have A: "files (snd (restore (example_externals\<lparr>exec_fails := (\<lambda>cmd. True)\<rparr>) example_config
                 ''backups/b.sql.gz'' example_world))
     = files example_world - {''backups/b.sql''} \<and>
   last (emitted example_world
           (snd (restore (example_externals\<lparr>exec_fails := (\<lambda>cmd. True)\<rparr>) example_config
                   ''backups/b.sql.gz'' example_world)))
     = UnlinkSync ''backups/b.sql'' \<and>
   fst (restore (example_externals\<lparr>exec_fails := (\<lambda>cmd. True)\<rparr>) example_config
          ''backups/b.sql.gz'' example_world) = Inr ()"
    using restore_frame [where x = "example_externals\<lparr>exec_fails := (\<lambda>cmd. True)\<rparr>"
        and c = example_config and filePath = "''backups/b.sql.gz''" and w = example_world]
    unfolding Let_def d g using gz(1) by (simp add: case_prod_beta)
  have B: "files (snd (restore example_externals example_config ''backups/a.dump'' example_world))
     = files example_world"
    using restore_frame [where x = example_externals
        and c = example_config and filePath = "''backups/a.dump''" and w = example_world]
    unfolding Let_def using gz(2) by (simp add: case_prod_beta)
  from A B show ?thesis by blast
qed



section \<open>How the process ends\<close>

subsection \<open>Results of the operations\<close>

lemma fst_andThen:
  "fst (andThen m f w) = (case fst (m w) of Inl e \<Rightarrow> Inl e | Inr a \<Rightarrow> fst (f a (snd (m w))))"
  by (simp add: andThen_def split: prod.splits sum.splits)

lemma backup_full_outcome:
  \<open>fst (backup x c False w) =
     (if exec_fails x (dumpCmd c False @ '' -f "'' @ outFile c False (toISOString x) @ ''"'')
      then Inl (Rejected (CommandFailed (dumpCmd c False @ '' -f "'' @ outFile c False (toISOString x) @ ''"'')))
      else Inr ())\<close>
  by (simp add: backup_def Let_def andThen_runCommand uploadToBackblaze_returns)

lemma backup_data_outcome:
  "fst (backup x c True w) =
     (case gzip_outcome x (outFile c True (toISOString x)) of
        Finished \<Rightarrow> Inr ()
      | Faulted s \<Rightarrow> Inl (Uncaught (StreamFault s))
      | NotOpened s \<Rightarrow> Inl (Uncaught (StreamFault s)))"
  by (simp add: backup_def Let_def uploadToBackblaze_returns fail_def split: stream_outcome.splits)

lemma restore_outcome:
  "fst (restore x c filePath w) =
     (if endsWith filePath ''.gz''
      then (case gunzip_outcome x filePath of
              Finished \<Rightarrow> Inr ()
            | Faulted s \<Rightarrow> Inl (stream_failure s)
            | NotOpened s \<Rightarrow> Inl (stream_failure s))
      else Inr ())"
  by (simp add: restore_plain restore_gz_finished restore_gz_faulted restore_gz_not_opened
        split: stream_outcome.splits)

lemma restoreAndDev_outcome:
  "fst (restoreAndDev x c filePath w) =
     (case fst (restore x c filePath w) of
        Inl e \<Rightarrow> Inl e
      | Inr _ \<Rightarrow> if exec_fails x ''npm run dev'' then Inl (Rejected (CommandFailed ''npm run dev''))
                 else Inr ())"
  by (simp add: restoreAndDev_def fst_andThen runCommand_apply split: sum.splits)

lemma restoreAndDev_after_restore:
  assumes "fst (restore x c filePath w) = Inr ()"
  shows "trace (snd (restoreAndDev x c filePath w)) =
     trace (snd (restore x c filePath w))
       @ [ConsoleLog StartingDevServer, Exec ''npm run dev'' (\<not> exec_fails x ''npm run dev'')]"
proof -
  obtain w' where r: "restore x c filePath w = (Inr (), w')"
    using assms by (cases "restore x c filePath w") simp
  show ?thesis
    by (simp add: restoreAndDev_def andThen_def r runCommand_apply)
qed

subsection \<open>Reports of the failures that are handled\<close>

lemma reports_extend_refl [simp]: "reports_extend c w w"
  by (simp add: reports_extend_def failures_reported_def reports_justified_def)

lemma failures_reported_append:
  "failures_reported c es \<Longrightarrow> failures_reported c fs \<Longrightarrow> failures_reported c (es @ fs)"
  by (auto simp: failures_reported_def)

lemma reports_justified_append:
  "reports_justified c es \<Longrightarrow> reports_justified c fs \<Longrightarrow> reports_justified c (es @ fs)"
  unfolding reports_justified_def set_append Un_iff
  by (intro conjI allI impI; elim conjE disjE; meson)

lemma reports_extend_trans:
  "reports_extend c u v \<Longrightarrow> reports_extend c v w \<Longrightarrow> reports_extend c u w"
  unfolding reports_extend_def
  by (metis append.assoc failures_reported_append reports_justified_append)

lemmas reports_andThen = preserves_andThen [of "reports_extend c", OF reports_extend_trans] for c

lemma reports_extendI:
  "trace w' = trace w @ es \<Longrightarrow> failures_reported c es \<Longrightarrow> reports_justified c es
   \<Longrightarrow> reports_extend c w w'"
  by (auto simp: reports_extend_def)

lemma dump_is_no_restore_command:
  \<open>dumpCmd c dataOnly \<noteq> restoreCmd c p\<close>
  \<open>dumpCmd c dataOnly @ suffix \<noteq> restoreCmd c p\<close>
  \<open>''npm run dev'' \<noteq> restoreCmd c p\<close>
  by (simp_all add: dumpCmd_def restoreCmd_def)

lemma reports_console [simp]:
  "preserves (reports_extend c) (console_log msg)"
  "preserves (reports_extend c) (return a)"
  "preserves (reports_extend c) (fail e)"
  "preserves (reports_extend c) (Pair r)"
  "preserves (reports_extend c) (createWriteStream p opened)"
  "preserves (reports_extend c) (createReadStream p)"
  "preserves (reports_extend c) (written_by_pg_dump p)"
  by (simp_all add: preserves_def reports_extend_def failures_reported_def reports_justified_def
        return_def fail_def createWriteStream_def createReadStream_def written_by_pg_dump_def)

lemma reports_console_error [simp]:
  "preserves (reports_extend c) (console_error NoBackupFileFound)"
  by (simp add: preserves_def reports_extend_def failures_reported_def reports_justified_def)

lemma reports_dump_commands [simp]:
  "preserves (reports_extend c) (emit (Exec (dumpCmd c dataOnly) ok))"
  "preserves (reports_extend c) (runCommand x (dumpCmd c dataOnly @ suffix))"
  "preserves (reports_extend c) (runCommand x ''npm run dev'')"
  by (simp_all add: preserves_def reports_extend_def failures_reported_def reports_justified_def
        emit_def runCommand_apply dump_is_no_restore_command dump_is_no_restore_command [symmetric])
lemma concat_deleted_events:
  "e \<in> set (concat (map (\<lambda>ob. [DeleteObject (Key ob) True, ConsoleLog (DeletedOldBackup (Key ob))]) obs))
   \<Longrightarrow> (\<exists>k. e = DeleteObject k True) \<or> (\<exists>k. e = ConsoleLog (DeletedOldBackup k))"
  by auto

lemma dropWhile_hd_fails:
  assumes "\<exists>ob \<in> set old. P ob"
  obtains f fs where "dropWhile (\<lambda>ob. \<not> P ob) old = f # fs" "P f"
proof -
  from assms have ne: "dropWhile (\<lambda>ob. \<not> P ob) old \<noteq> []" by auto
  then obtain f fs where eq: "dropWhile (\<lambda>ob. \<not> P ob) old = f # fs"
    by (cases "dropWhile (\<lambda>ob. \<not> P ob) old") auto
  have "P (hd (dropWhile (\<lambda>ob. \<not> P ob) old))"
    using hd_dropWhile [OF ne] by simp
  with eq have "P f" by simp
  with eq show thesis by (rule that)
qed

text \<open>
  The events of the retention pass with its handler: they start with the listing; every
  failure among them is reported and every report is of a failure among them; and when
  one of the objects to delete cannot be deleted, one failed deletion is among them.
\<close>

lemma catch_retention_events:
  "\<exists>es. trace (snd (catch (retention_pass x) (\<lambda>err. console_error (UploadCleanupFailed err)) w))
          = trace w @ es \<and>
        failures_reported c es \<and> reports_justified c es \<and>
        ListObjectsV2 (\<not> list_fails x) \<in> set es \<and>
        (\<not> list_fails x \<longrightarrow>
           (\<exists>ob \<in> set (drop KEEP_LAST (sort_key (\<lambda>ob. - LastModified ob) (bucket w))).
               delete_fails x (Key ob)) \<longrightarrow>
           (\<exists>k. delete_fails x k \<and> DeleteObject k False \<in> set es))"
proof -
  let ?h = "catch (retention_pass x) (\<lambda>err. console_error (UploadCleanupFailed err))"
  show ?thesis
  proof (cases "list_fails x")
    case True
    then have "trace (snd (?h w)) = trace w @ [ListObjectsV2 False, ConsoleError (UploadCleanupFailed ListFailed)]"
      by (simp add: catch_def retention_pass_list_fails)
    with True show ?thesis
      by (intro exI [of _ "[ListObjectsV2 False, ConsoleError (UploadCleanupFailed ListFailed)]"])
         (simp add: failures_reported_def reports_justified_def)
  next
    case False
    show ?thesis
    proof (cases "length (bucket w) > KEEP_LAST")
      case small: False
      with False have "trace (snd (?h w)) = trace w @ [ListObjectsV2 True]"
        by (simp add: catch_def retention_pass_result)
      moreover from small
      have "drop KEEP_LAST (sort_key (\<lambda>ob. - LastModified ob) (bucket w)) = []"
        by simp
      ultimately show ?thesis
        using False
        by (intro exI [of _ "[ListObjectsV2 True]"])
           (simp add: failures_reported_def reports_justified_def)
    next
      case True
      define old where "old = drop KEEP_LAST (sort_key (\<lambda>ob. - LastModified ob) (bucket w))"
      define ok where "ok = takeWhile (\<lambda>ob. \<not> delete_fails x (Key ob)) old"
      define rest where "rest = dropWhile (\<lambda>ob. \<not> delete_fails x (Key ob)) old"
      define dels where "dels = concat (map (\<lambda>ob. [DeleteObject (Key ob) True,
                                      ConsoleLog (DeletedOldBackup (Key ob))]) ok)"
      have dels: "e \<in> set dels \<Longrightarrow>
          (\<exists>k. e = DeleteObject k True) \<or> (\<exists>k. e = ConsoleLog (DeletedOldBackup k))" for e
        unfolding dels_def by (rule concat_deleted_events)
      have run: "retention_pass x w =
          (case rest of [] \<Rightarrow> Inr () | f # _ \<Rightarrow> Inl (Rejected (DeleteFailed (Key f))),
           w\<lparr>bucket := filter (\<lambda>ob. Key ob \<notin> Key ` set ok) (bucket w),
             trace := trace w @ [ListObjectsV2 True] @ dels
               @ (case rest of [] \<Rightarrow> [] | f # _ \<Rightarrow> [DeleteObject (Key f) False])\<rparr>)"
        using True False
        by (simp add: retention_pass_result delete_each_result Let_def
              old_def [symmetric] ok_def [symmetric] rest_def [symmetric] dels_def [symmetric])
      show ?thesis
      proof (cases rest)
        case Nil
        then have t: "trace (snd (?h w)) = trace w @ ([ListObjectsV2 True] @ dels)"
          by (simp add: catch_def run)
        have 1: "failures_reported c ([ListObjectsV2 True] @ dels)"
          using dels by (auto simp: failures_reported_def)
        have 2: "reports_justified c ([ListObjectsV2 True] @ dels)"
          using dels by (auto simp: reports_justified_def)
        have 3: "\<not> (\<exists>ob \<in> set old. delete_fails x (Key ob))"
        proof
          assume "\<exists>ob \<in> set old. delete_fails x (Key ob)"
          then obtain f fs where "dropWhile (\<lambda>ob. \<not> delete_fails x (Key ob)) old = f # fs"
            by (rule dropWhile_hd_fails [where P = "\<lambda>ob. delete_fails x (Key ob)"])
          with Nil show False by (simp add: rest_def)
        qed
        from t 1 2 3 False show ?thesis
          unfolding old_def [symmetric]
          by (intro exI [of _ "[ListObjectsV2 True] @ dels"]) simp
      next
        case (Cons f fs)
        then have t: "trace (snd (?h w)) = trace w @ ([ListObjectsV2 True] @ dels
              @ [DeleteObject (Key f) False, ConsoleError (UploadCleanupFailed (DeleteFailed (Key f)))])"
          by (simp add: catch_def run)
        have 1: "failures_reported c ([ListObjectsV2 True] @ dels
              @ [DeleteObject (Key f) False, ConsoleError (UploadCleanupFailed (DeleteFailed (Key f)))])"
          using dels by (auto simp: failures_reported_def)
        have 2: "reports_justified c ([ListObjectsV2 True] @ dels
              @ [DeleteObject (Key f) False, ConsoleError (UploadCleanupFailed (DeleteFailed (Key f)))])"
          using dels by (auto simp: reports_justified_def)
        have "rest \<noteq> []" using Cons by simp
        then have "\<not> \<not> delete_fails x (Key (hd rest))"
          unfolding rest_def by (rule hd_dropWhile)
        with Cons have 3: "delete_fails x (Key f)" by simp
        from t 1 2 3 False show ?thesis
          by (intro exI [of _ "[ListObjectsV2 True] @ dels
              @ [DeleteObject (Key f) False, ConsoleError (UploadCleanupFailed (DeleteFailed (Key f)))]"])
             auto
      qed
    qed
  qed
qed

lemma catch_retention_reports:
  "preserves (reports_extend c)
     (catch (retention_pass x) (\<lambda>err. console_error (UploadCleanupFailed err)))"
  unfolding preserves_def reports_extend_def
  using catch_retention_events [of x _ c] by blast

text \<open>
  The events of an upload of a file that is there, to a configured bucket.
\<close>

lemma uploadToBackblaze_events:
  assumes "truthy (B2_BUCKET c)" "filePath \<in> files w"
  shows
    "\<exists>es. trace (snd (uploadToBackblaze x c filePath w)) = trace w @ es \<and>
        failures_reported c es \<and> reports_justified c es \<and>
        PutObject (basename filePath) (\<not> put_fails x (basename filePath)) \<in> set es \<and>
        (\<not> put_fails x (basename filePath) \<longrightarrow>
           ListObjectsV2 (\<not> list_fails x) \<in> set es \<and>
           (\<not> list_fails x \<longrightarrow>
              (\<exists>ob \<in> set (drop KEEP_LAST (sort_key (\<lambda>ob. - LastModified ob)
                               (filter (\<lambda>ob. Key ob \<noteq> basename filePath) (bucket w)
                                  @ [\<lparr>Key = basename filePath, LastModified = put_time x\<rparr>]))).
                  delete_fails x (Key ob)) \<longrightarrow>
              (\<exists>k. delete_fails x k \<and> DeleteObject k False \<in> set es)))"
proof (cases "put_fails x (basename filePath)")
  case True
  show ?thesis
    unfolding uploadToBackblaze_put_fails [OF assms(1) True assms(2)]
    using True
    by (intro exI [of _ "[PutObject (basename filePath) False,
                 ConsoleError (UploadCleanupFailed (PutFailed (basename filePath)))]"])
       (simp add: failures_reported_def reports_justified_def)
next
  case False
  let ?h = "catch (retention_pass x) (\<lambda>err. console_error (UploadCleanupFailed err))"
  let ?put = "[PutObject (basename filePath) True, ConsoleLog (Uploaded (basename filePath)),
               UnlinkSync filePath, ConsoleLog (LocalFileDeleted filePath)]"
  let ?w4 = "w\<lparr>bucket := filter (\<lambda>ob. Key ob \<noteq> basename filePath) (bucket w)
                      @ [\<lparr>Key = basename filePath, LastModified = put_time x\<rparr>],
          files := files w - {filePath},
          trace := trace w @ [PutObject (basename filePath) True,
                              ConsoleLog (Uploaded (basename filePath)),
                              UnlinkSync filePath,
                              ConsoleLog (LocalFileDeleted filePath)]\<rparr>"
  from catch_retention_events [of x ?w4 c] obtain es where
    t: "trace (snd (?h ?w4)) = trace ?w4 @ es"
    and 1: "failures_reported c es" and 2: "reports_justified c es"
    and 3: "ListObjectsV2 (\<not> list_fails x) \<in> set es"
    and 4: "\<not> list_fails x \<longrightarrow>
           (\<exists>ob \<in> set (drop KEEP_LAST (sort_key (\<lambda>ob. - LastModified ob) (bucket ?w4))).
               delete_fails x (Key ob)) \<longrightarrow>
           (\<exists>k. delete_fails x k \<and> DeleteObject k False \<in> set es)"
    by blast
  have p1: "failures_reported c ?put" by (simp add: failures_reported_def)
  have p2: "reports_justified c ?put" by (simp add: reports_justified_def)
  have t': "trace (snd (uploadToBackblaze x c filePath w)) = trace w @ (?put @ es)"
    unfolding uploadToBackblaze_put_ok [OF assms(1) False assms(2)] t by simp
  have "failures_reported c (?put @ es)" using p1 1 by (rule failures_reported_append)
  moreover have "reports_justified c (?put @ es)" using p2 2 by (rule reports_justified_append)
  moreover have "PutObject (basename filePath) (\<not> put_fails x (basename filePath)) \<in> set (?put @ es)"
    using False by simp
  moreover have "ListObjectsV2 (\<not> list_fails x) \<in> set (?put @ es)"
    using 3 by simp
  moreover have "\<not> list_fails x \<longrightarrow>
           (\<exists>ob \<in> set (drop KEEP_LAST (sort_key (\<lambda>ob. - LastModified ob)
                               (filter (\<lambda>ob. Key ob \<noteq> basename filePath) (bucket w)
                                  @ [\<lparr>Key = basename filePath, LastModified = put_time x\<rparr>]))).
               delete_fails x (Key ob)) \<longrightarrow>
           (\<exists>k. delete_fails x k \<and> DeleteObject k False \<in> set (?put @ es))"
    using 4 by auto
  ultimately show ?thesis
    using t' by blast
qed

lemma uploadToBackblaze_reports: "preserves (reports_extend c) (uploadToBackblaze x c filePath)"
proof -
  have "reports_extend c w (snd (uploadToBackblaze x c filePath w))" for w
  proof (cases "truthy (B2_BUCKET c)")
    case False
    then show ?thesis by (simp add: uploadToBackblaze_def return_def)
  next
    case True
    show ?thesis
    proof (cases "filePath \<in> files w")
      case absent: False
      show ?thesis
        by (simp add: uploadToBackblaze_no_file [OF True absent])
    next
      case present: True
      from uploadToBackblaze_events [OF True present, of x] show ?thesis
        unfolding reports_extend_def by blast
    qed
  qed
  then show ?thesis by (simp add: preserves_def)
qed

lemma backup_reports: "preserves (reports_extend c) (backup x c dataOnly)"
  unfolding backup_def Let_def
  by (auto intro!: reports_andThen uploadToBackblaze_reports split: stream_outcome.splits)

lemma restore_reports: "preserves (reports_extend c) (restore x c filePath)"
proof -
  have "reports_extend c w (snd (restore x c filePath w))" for w
  proof (cases "endsWith filePath ''.gz''")
    case False
    show ?thesis
      unfolding restore_plain [OF False]
      by (rule reports_extendI [where es = "[ConsoleLog (Restoring filePath),
           Exec (restoreCmd c filePath) (\<not> exec_fails x (restoreCmd c filePath)),
           if exec_fails x (restoreCmd c filePath)
           then ConsoleError (RestoreFailed (CommandFailed (restoreCmd c filePath)))
           else ConsoleLog RestoreComplete]"])
         (auto simp: failures_reported_def reports_justified_def)
  next
    case True
    show ?thesis
    proof (cases "gunzip_outcome x filePath")
      case Finished
      show ?thesis
        unfolding restore_gz_finished [OF True Finished]
        by (rule reports_extendI [where es = "[ConsoleLog (Restoring filePath),
           CreateWriteStream (strip_gz filePath),
           Exec (restoreCmd c (strip_gz filePath)) (\<not> exec_fails x (restoreCmd c (strip_gz filePath))),
           if exec_fails x (restoreCmd c (strip_gz filePath))
           then ConsoleError (RestoreFailed (CommandFailed (restoreCmd c (strip_gz filePath))))
           else ConsoleLog RestoreComplete,
           UnlinkSync (strip_gz filePath)]"])
           (auto simp: failures_reported_def reports_justified_def)
    next
      case (Faulted s)
      show ?thesis
        unfolding restore_gz_faulted [OF True Faulted]
        by (rule reports_extendI [where es = "[ConsoleLog (Restoring filePath),
              CreateWriteStream (strip_gz filePath)]"])
           (auto simp: failures_reported_def reports_justified_def)
    next
      case (NotOpened s)
      show ?thesis
        unfolding restore_gz_not_opened [OF True NotOpened]
        by (rule reports_extendI [where es = "[ConsoleLog (Restoring filePath),
              CreateWriteStream (strip_gz filePath)]"])
           (auto simp: failures_reported_def reports_justified_def)
    qed
  qed
  then show ?thesis by (simp add: preserves_def)
qed

lemma restoreAndDev_reports: "preserves (reports_extend c) (restoreAndDev x c filePath)"
  unfolding restoreAndDev_def
  by (auto intro!: reports_andThen restore_reports)

lemma cli_reports: "preserves (reports_extend c) (cli x c cmd arg)"
  unfolding cli_def Let_def
  by (auto intro!: reports_andThen backup_reports restore_reports restoreAndDev_reports
        simp del: console_log_apply console_error_apply split: option.splits sum.splits)
subsection \<open>The events of each command\<close>

lemma backup_full_saved:
  assumes \<open>\<not> exec_fails x (dumpCmd c False @ '' -f "'' @ outFile c False (toISOString x) @ ''"'')\<close>
  shows \<open>backup x c False w =
     uploadToBackblaze x c (outFile c False (toISOString x))
       (w\<lparr>files := insert (outFile c False (toISOString x)) (files w),
          trace := trace w @
            [ConsoleLog (CreatingBackup ''full''),
             Exec (dumpCmd c False @ '' -f "'' @ outFile c False (toISOString x) @ ''"'') True,
             ConsoleLog (BackupSaved (outFile c False (toISOString x)))]\<rparr>)\<close>
  using assms by (simp add: backup_def Let_def andThen_runCommand)

lemma backup_data_saved:
  assumes "gzip_outcome x (outFile c True (toISOString x)) = Finished"
  shows "backup x c True w =
     uploadToBackblaze x c (outFile c True (toISOString x))
       (w\<lparr>files := insert (outFile c True (toISOString x)) (files w),
          trace := trace w @
            [ConsoleLog (CreatingBackup ''data-only''),
             Exec (dumpCmd c True) (\<not> exec_fails x (dumpCmd c True)),
             CreateWriteStream (outFile c True (toISOString x)),
             ConsoleLog (BackupSaved (outFile c True (toISOString x)))]\<rparr>)"
  using assms by (simp add: backup_def Let_def)

lemma backup_data_faulted:
  assumes "gzip_outcome x (outFile c True (toISOString x)) \<noteq> Finished"
  shows "trace (snd (backup x c True w)) =
     trace w @ [ConsoleLog (CreatingBackup ''data-only''),
                Exec (dumpCmd c True) (\<not> exec_fails x (dumpCmd c True)),
                CreateWriteStream (outFile c True (toISOString x))]"
  using assms
  by (cases "gzip_outcome x (outFile c True (toISOString x))")
     (simp_all add: backup_def Let_def fail_def)

lemma cli_started:
  assumes "(if truthy arg then Inr arg else getLatestBackup x c) = Inr f"
  shows "cli x c cmd arg w =
     (if cmd = Some ''backup'' then backup x c False w
      else if cmd = Some ''backup-data'' then backup x c True w
      else if cmd = Some ''restore'' then
        (case f of
           Some p \<Rightarrow> if p \<noteq> [] then restore x c p w else console_error NoBackupFileFound w
         | None \<Rightarrow> console_error NoBackupFileFound w)
      else if cmd = Some ''restore-and-dev'' then
        (case f of
           Some p \<Rightarrow> if p \<noteq> [] then restoreAndDev x c p w else console_error NoBackupFileFound w
         | None \<Rightarrow> console_error NoBackupFileFound w)
      else console_log Usage w)"
  using assms
  by (simp add: cli_def andThen_def return_def split: if_splits option.splits sum.splits
        del: console_log_apply console_error_apply)

lemma cli_not_started:
  assumes "(if truthy arg then Inr arg else getLatestBackup x c) = Inl e"
  shows "cli x c cmd arg w = (Inl (Rejected e), w)"
  using assms
  by (simp add: cli_def andThen_def fail_def split: if_splits sum.splits)

lemma restore_tool_events:
  assumes "endsWith p ''.gz'' \<longrightarrow> gunzip_outcome x p = Finished"
  shows "fst (restore x c p w) = Inr ()"
    and "Exec (restoreCmd c (strip_gz p)) (\<not> exec_fails x (restoreCmd c (strip_gz p)))
           \<in> set (emitted w (snd (restore x c p w)))"
    and "(if exec_fails x (restoreCmd c (strip_gz p))
          then ConsoleError (RestoreFailed (CommandFailed (restoreCmd c (strip_gz p))))
          else ConsoleLog RestoreComplete) \<in> set (emitted w (snd (restore x c p w)))"
proof -
  show "fst (restore x c p w) = Inr ()"
    using assms by (simp add: restore_outcome)
  show "Exec (restoreCmd c (strip_gz p)) (\<not> exec_fails x (restoreCmd c (strip_gz p)))
           \<in> set (emitted w (snd (restore x c p w)))"
  proof (cases "endsWith p ''.gz''")
    case False
    then show ?thesis by (simp add: restore_plain strip_gz_id emitted_def)
  next
    case True
    with assms have "gunzip_outcome x p = Finished" by simp
    with True show ?thesis by (simp add: restore_gz_finished emitted_def)
  qed
  show "(if exec_fails x (restoreCmd c (strip_gz p))
          then ConsoleError (RestoreFailed (CommandFailed (restoreCmd c (strip_gz p))))
          else ConsoleLog RestoreComplete) \<in> set (emitted w (snd (restore x c p w)))"
  proof (cases "endsWith p ''.gz''")
    case False
    then show ?thesis by (simp add: restore_plain strip_gz_id emitted_def)
  next
    case True
    with assms have "gunzip_outcome x p = Finished" by simp
    with True show ?thesis by (simp add: restore_gz_finished emitted_def)
  qed
qed

lemma restoreAndDev_includes_restore:
  assumes "fst (restore x c p w) = Inr ()"
  shows "set (emitted w (snd (restore x c p w))) \<subseteq> set (emitted w (snd (restoreAndDev x c p w)))"
proof -
  from restore_grows [of x c p] obtain es where
    es: "trace (snd (restore x c p w)) = trace w @ es"
    unfolding preserves_def trace_extends_def by blast
  have "trace (snd (restoreAndDev x c p w)) =
      trace w @ (es @ [ConsoleLog StartingDevServer, Exec ''npm run dev'' (\<not> exec_fails x ''npm run dev'')])"
    using restoreAndDev_after_restore [OF assms] es by simp
  then have "emitted w (snd (restoreAndDev x c p w)) =
      es @ [ConsoleLog StartingDevServer, Exec ''npm run dev'' (\<not> exec_fails x ''npm run dev'')]"
    by (rule emitted_append)
  moreover have "emitted w (snd (restore x c p w)) = es"
    using es by (rule emitted_append)
  ultimately show ?thesis by auto
qed

lemma cli_restore_events:
  assumes tgt: "(if truthy arg then Inr arg else getLatestBackup x c) = Inr (Some p)"
    and p: "p \<noteq> []"
    and cmd: "cmd = Some ''restore'' \<or> cmd = Some ''restore-and-dev''"
    and gz: "endsWith p ''.gz'' \<longrightarrow> gunzip_outcome x p = Finished"
  shows "Exec (restoreCmd c (strip_gz p)) (\<not> exec_fails x (restoreCmd c (strip_gz p)))
           \<in> set (emitted w (snd (cli x c cmd arg w)))"
    and "(if exec_fails x (restoreCmd c (strip_gz p))
          then ConsoleError (RestoreFailed (CommandFailed (restoreCmd c (strip_gz p))))
          else ConsoleLog RestoreComplete) \<in> set (emitted w (snd (cli x c cmd arg w)))"
proof -
  have sub: "set (emitted w (snd (restore x c p w))) \<subseteq> set (emitted w (snd (cli x c cmd arg w)))"
  proof (cases "cmd = Some ''restore''")
    case True
    then have "cli x c cmd arg w = restore x c p w"
      using p by (simp add: cli_started [OF tgt])
    then show ?thesis by simp
  next
    case False
    with cmd have "cmd = Some ''restore-and-dev''" by simp
    then have "cli x c cmd arg w = restoreAndDev x c p w"
      using p by (simp add: cli_started [OF tgt])
    then show ?thesis
      using restoreAndDev_includes_restore [OF restore_tool_events(1) [OF gz]] by simp
  qed
  from restore_tool_events(2) [OF gz] sub
  show "Exec (restoreCmd c (strip_gz p)) (\<not> exec_fails x (restoreCmd c (strip_gz p)))
           \<in> set (emitted w (snd (cli x c cmd arg w)))"
    by blast
  from restore_tool_events(3) [OF gz, of c w] sub
  show "(if exec_fails x (restoreCmd c (strip_gz p))
          then ConsoleError (RestoreFailed (CommandFailed (restoreCmd c (strip_gz p))))
          else ConsoleLog RestoreComplete) \<in> set (emitted w (snd (cli x c cmd arg w)))"
    by blast
qed

lemma cli_bucket_events:
  assumes tgt: "(if truthy arg then Inr arg else getLatestBackup x c) = Inr f"
    and saved: \<open>cmd = Some ''backup'' \<and>
                  \<not> exec_fails x (dumpCmd c False @ '' -f "'' @ outFile c False (toISOString x) @ ''"'') \<or>
                cmd = Some ''backup-data'' \<and> gzip_outcome x (outFile c True (toISOString x)) = Finished\<close>
    and b: "truthy (B2_BUCKET c)"
    and key: "key = basename (if cmd = Some ''backup'' then outFile c False (toISOString x)
                              else outFile c True (toISOString x))"
  shows "PutObject key (\<not> put_fails x key) \<in> set (emitted w (snd (cli x c cmd arg w)))"
    and "\<not> put_fails x key \<Longrightarrow>
           ListObjectsV2 (\<not> list_fails x) \<in> set (emitted w (snd (cli x c cmd arg w)))"
    and "\<not> put_fails x key \<Longrightarrow> \<not> list_fails x \<Longrightarrow>
           \<exists>ob \<in> set (drop KEEP_LAST (sort_key (\<lambda>ob. - LastModified ob)
                            (filter (\<lambda>ob. Key ob \<noteq> key) (bucket w)
                               @ [\<lparr>Key = key, LastModified = put_time x\<rparr>]))).
               delete_fails x (Key ob) \<Longrightarrow>
           \<exists>k. delete_fails x k \<and> DeleteObject k False \<in> set (emitted w (snd (cli x c cmd arg w)))"
proof -
  define out where "out = (if cmd = Some ''backup'' then outFile c False (toISOString x)
                            else outFile c True (toISOString x))"
  have "\<exists>pre wB. cli x c cmd arg w = uploadToBackblaze x c out wB \<and>
          trace wB = trace w @ pre \<and> bucket wB = bucket w \<and> out \<in> files wB"
  proof (cases "cmd = Some ''backup''")
    case True
    with saved have ok: \<open>\<not> exec_fails x (dumpCmd c False @ '' -f "'' @ outFile c False (toISOString x) @ ''"'')\<close>
      by auto
    let ?pre = \<open>[ConsoleLog (CreatingBackup ''full''),
             Exec (dumpCmd c False @ '' -f "'' @ outFile c False (toISOString x) @ ''"'') True,
             ConsoleLog (BackupSaved (outFile c False (toISOString x)))]\<close>
    let ?wB = "w\<lparr>files := insert (outFile c False (toISOString x)) (files w),
                  trace := trace w @ ?pre\<rparr>"
    have o: "out = outFile c False (toISOString x)" using True by (simp add: out_def)
    have "cli x c cmd arg w = backup x c False w"
      using True by (simp add: cli_started [OF tgt])
    then have "cli x c cmd arg w = uploadToBackblaze x c out ?wB"
      unfolding o by (simp only: backup_full_saved [OF ok])
    moreover have "trace ?wB = trace w @ ?pre" "bucket ?wB = bucket w" "out \<in> files ?wB"
      by (simp_all add: o)
    ultimately show ?thesis by blast
  next
    case False
    with saved have d: "cmd = Some ''backup-data''"
      and ok: "gzip_outcome x (outFile c True (toISOString x)) = Finished"
      by auto
    let ?pre = "[ConsoleLog (CreatingBackup ''data-only''),
             Exec (dumpCmd c True) (\<not> exec_fails x (dumpCmd c True)),
             CreateWriteStream (outFile c True (toISOString x)),
             ConsoleLog (BackupSaved (outFile c True (toISOString x)))]"
    let ?wB = "w\<lparr>files := insert (outFile c True (toISOString x)) (files w),
                  trace := trace w @ ?pre\<rparr>"
    have o: "out = outFile c True (toISOString x)" using False by (simp add: out_def)
    have "cli x c cmd arg w = backup x c True w"
      using d by (simp add: cli_started [OF tgt])
    then have "cli x c cmd arg w = uploadToBackblaze x c out ?wB"
      unfolding o by (simp only: backup_data_saved [OF ok])
    moreover have "trace ?wB = trace w @ ?pre" "bucket ?wB = bucket w" "out \<in> files ?wB"
      by (simp_all add: o)
    ultimately show ?thesis by blast
  qed
  then obtain pre wB where eq: "cli x c cmd arg w = uploadToBackblaze x c out wB"
    and t: "trace wB = trace w @ pre" and bk: "bucket wB = bucket w" and f: "out \<in> files wB"
    by blast
  have k: "key = basename out" by (simp add: key out_def)
  from uploadToBackblaze_events [OF b f, of x] obtain es where
    es: "trace (snd (uploadToBackblaze x c out wB)) = trace wB @ es"
    and 1: "PutObject key (\<not> put_fails x key) \<in> set es"
    and 2: "\<not> put_fails x key \<longrightarrow> ListObjectsV2 (\<not> list_fails x) \<in> set es"
    and 3: "\<not> put_fails x key \<longrightarrow> \<not> list_fails x \<longrightarrow>
              (\<exists>ob \<in> set (drop KEEP_LAST (sort_key (\<lambda>ob. - LastModified ob)
                               (filter (\<lambda>ob. Key ob \<noteq> key) (bucket w)
                                  @ [\<lparr>Key = key, LastModified = put_time x\<rparr>]))).
                  delete_fails x (Key ob)) \<longrightarrow>
              (\<exists>k. delete_fails x k \<and> DeleteObject k False \<in> set es)"
    unfolding k bk by blast
  have em: "emitted w (snd (cli x c cmd arg w)) = pre @ es"
    unfolding eq by (rule emitted_append) (simp add: es t)
  show "PutObject key (\<not> put_fails x key) \<in> set (emitted w (snd (cli x c cmd arg w)))"
    using 1 by (simp add: em)
  show "\<not> put_fails x key \<Longrightarrow>
           ListObjectsV2 (\<not> list_fails x) \<in> set (emitted w (snd (cli x c cmd arg w)))"
    using 2 by (simp add: em)
  show "\<not> put_fails x key \<Longrightarrow> \<not> list_fails x \<Longrightarrow>
           \<exists>ob \<in> set (drop KEEP_LAST (sort_key (\<lambda>ob. - LastModified ob)
                            (filter (\<lambda>ob. Key ob \<noteq> key) (bucket w)
                               @ [\<lparr>Key = key, LastModified = put_time x\<rparr>]))).
               delete_fails x (Key ob) \<Longrightarrow>
           \<exists>k. delete_fails x k \<and> DeleteObject k False \<in> set (emitted w (snd (cli x c cmd arg w)))"
    using 3 unfolding em by auto
qed

lemma cli_data_dump_events:
  assumes tgt: "(if truthy arg then Inr arg else getLatestBackup x c) = Inr f"
    and cmd: "cmd = Some ''backup-data''"
  shows "Exec (dumpCmd c True) (\<not> exec_fails x (dumpCmd c True))
           \<in> set (emitted w (snd (cli x c cmd arg w)))"
    and "gzip_outcome x (outFile c True (toISOString x)) = Finished \<Longrightarrow>
         ConsoleLog (BackupSaved (outFile c True (toISOString x)))
           \<in> set (emitted w (snd (cli x c cmd arg w)))"
proof -
  let ?out = "outFile c True (toISOString x)"
  have eq: "cli x c cmd arg w = backup x c True w"
    using cmd by (simp add: cli_started [OF tgt])
  have fin: "Exec (dumpCmd c True) (\<not> exec_fails x (dumpCmd c True))
               \<in> set (emitted w (snd (cli x c cmd arg w))) \<and>
             ConsoleLog (BackupSaved ?out) \<in> set (emitted w (snd (cli x c cmd arg w)))"
    if ok: "gzip_outcome x ?out = Finished"
  proof -
    let ?wB = "w\<lparr>files := insert ?out (files w),
          trace := trace w @
            [ConsoleLog (CreatingBackup ''data-only''),
             Exec (dumpCmd c True) (\<not> exec_fails x (dumpCmd c True)),
             CreateWriteStream ?out,
             ConsoleLog (BackupSaved ?out)]\<rparr>"
    from uploadToBackblaze_grows [of x c ?out] obtain es where
      es: "trace (snd (uploadToBackblaze x c ?out ?wB)) = trace ?wB @ es"
      unfolding preserves_def trace_extends_def by blast
    have "emitted w (snd (cli x c cmd arg w)) =
        [ConsoleLog (CreatingBackup ''data-only''),
         Exec (dumpCmd c True) (\<not> exec_fails x (dumpCmd c True)),
         CreateWriteStream ?out,
         ConsoleLog (BackupSaved ?out)] @ es"
      unfolding eq backup_data_saved [OF ok] by (rule emitted_append) (simp add: es)
    then show ?thesis by simp
  qed
  show "Exec (dumpCmd c True) (\<not> exec_fails x (dumpCmd c True))
           \<in> set (emitted w (snd (cli x c cmd arg w)))"
  proof (cases "gzip_outcome x ?out = Finished")
    case True
    then show ?thesis using fin by blast
  next
    case False
    show ?thesis
      unfolding eq emitted_def backup_data_faulted [OF False] by simp
  qed
  show "gzip_outcome x ?out = Finished \<Longrightarrow>
         ConsoleLog (BackupSaved ?out) \<in> set (emitted w (snd (cli x c cmd arg w)))"
    using fin by blast
qed

lemma dump_failure_never_reported:
  assumes "reports_justified c es"
  shows "ConsoleError (RestoreFailed (CommandFailed (dumpCmd c dataOnly))) \<notin> set es"
    and "ConsoleError (UploadCleanupFailed (CommandFailed (dumpCmd c dataOnly))) \<notin> set es"
  using assms dump_is_no_restore_command(1) [of c dataOnly]
  unfolding reports_justified_def by auto
subsection \<open>The outcome of a run\<close>

lemma cli_ended:
  \<open>ended (fst (cli x c cmd arg w)) =
     (case (if truthy arg then Inr arg else getLatestBackup x c) of
        Inl e \<Rightarrow> UnhandledRejection e
      | Inr f \<Rightarrow>
          if cmd = Some ''backup''
          then (if exec_fails x (dumpCmd c False @ '' -f "'' @ outFile c False (toISOString x) @ ''"'')
                then UnhandledRejection
                       (CommandFailed (dumpCmd c False @ '' -f "'' @ outFile c False (toISOString x) @ ''"''))
                else Completed)
          else if cmd = Some ''backup-data''
          then (case gzip_outcome x (outFile c True (toISOString x)) of
                  Finished \<Rightarrow> Completed
                | Faulted s \<Rightarrow> UncaughtException (StreamFault s)
                | NotOpened s \<Rightarrow> UncaughtException (StreamFault s))
          else if cmd = Some ''restore'' \<or> cmd = Some ''restore-and-dev''
          then (case f of
                  None \<Rightarrow> Completed
                | Some p \<Rightarrow>
                    if p = [] then Completed
                    else if \<not> endsWith p ''.gz''
                    then (if cmd = Some ''restore-and-dev'' \<and> exec_fails x ''npm run dev''
                          then UnhandledRejection (CommandFailed ''npm run dev'') else Completed)
                    else (case gunzip_outcome x p of
                            Finished \<Rightarrow>
                              (if cmd = Some ''restore-and-dev'' \<and> exec_fails x ''npm run dev''
                               then UnhandledRejection (CommandFailed ''npm run dev'') else Completed)
                          | Faulted s \<Rightarrow>
                              (if s = Sink then UnhandledRejection (StreamFault s)
                               else UncaughtException (StreamFault s))
                          | NotOpened s \<Rightarrow>
                              (if s = Sink then UnhandledRejection (StreamFault s)
                               else UncaughtException (StreamFault s))))
          else Completed)\<close>
proof (cases "if truthy arg then Inr arg else getLatestBackup x c")
  case (Inl e)
  show ?thesis
    unfolding Inl cli_not_started [OF Inl] by (simp add: ended_def)
next
  case (Inr f)
  show ?thesis
    unfolding Inr cli_started [OF Inr]
    by (simp add: backup_full_outcome backup_data_outcome restore_outcome restoreAndDev_outcome
          ended_def stream_failure_def split: option.splits stream_outcome.splits)
qed

lemma getLatestBackup_returns:
  assumes "readdirSync x = Some names" "\<And>p. mtime x p \<noteq> None"
  shows "\<exists>f. getLatestBackup x c = Inr f"
proof -
  have "\<forall>f \<in> set (filter is_backup_name names). mtime x (path_join (BACKUP_DIR c) f) \<noteq> None"
    using assms(2) by blast
  from stat_each_all [OF this] assms(1) show ?thesis
    by (simp add: getLatestBackup_def split: list.splits)
qed

lemma process_run_started:
  assumes "load_config (new_URL x) env = Inr c" "\<not> mkdirSync_fails x"
  shows "\<exists>w1. trace w1 = trace w @ (if snd (parse_DATABASE_URL (new_URL x) env)
                                      then [ConsoleError FailedToParseDatabaseUrl] else []) \<and>
              bucket w1 = bucket w \<and> files w1 = files w \<and>
              process_run x env cmd arg w = (ended (fst (cli x c cmd arg w1)), snd (cli x c cmd arg w1))"
proof -
  let ?w1 = "if snd (parse_DATABASE_URL (new_URL x) env)
             then snd (console_error FailedToParseDatabaseUrl w) else w"
  have "process_run x env cmd arg w = (ended (fst (cli x c cmd arg ?w1)), snd (cli x c cmd arg ?w1))"
    using assms by (simp add: process_run_def Let_def case_prod_beta del: console_error_apply)
  moreover have "trace ?w1 = trace w @ (if snd (parse_DATABASE_URL (new_URL x) env)
                                      then [ConsoleError FailedToParseDatabaseUrl] else [])"
    "bucket ?w1 = bucket w" "files ?w1 = files w"
    by simp_all
  ultimately show ?thesis by blast
qed

lemma process_run_not_started:
  assumes "load_config (new_URL x) env = Inr c" "mkdirSync_fails x"
  shows "fst (process_run x env cmd arg w) = UncaughtException (MkdirFailed (BACKUP_DIR c))"
    and "emitted w (snd (process_run x env cmd arg w)) =
           (if snd (parse_DATABASE_URL (new_URL x) env)
            then [ConsoleError FailedToParseDatabaseUrl] else [])"
  using assms by (simp_all add: process_run_def Let_def emitted_def)

text \<open>
  Claim C3, as the specification states it, fails.  The environment passes validation, the
  command is \<open>backup\<close>, and the dump command exits with an error: \<open>backup\<close> awaits it
  outside any handler, so the rejection reaches the top of the program and ends the
  process.
\<close>

theorem dump_failure_terminates_counterexample:
  \<open>load_config (new_URL example_externals_commands_fail) example_env = Inr example_config \<and>
   fst (process_run example_externals_commands_fail example_env (Some ''backup'') None
          example_world)
     = UnhandledRejection
         (CommandFailed
            ''pg_dump -h db.example -p 5432 -U alice        --no-owner --no-acl --clean --if-exists -Fc shop -f "backups/shop-full-2024-01-02T03-04-05-678Z.dump"'')\<close>
proof -
  let ?x = example_externals_commands_fail
  have c: "load_config (new_URL ?x) example_env = Inr example_config"
    by (simp add: load_config_def parse_DATABASE_URL_def example_env_def example_config_def)
  have m: "\<not> mkdirSync_fails ?x"
    by (simp add: example_externals_commands_fail_def example_externals_def)
  have out: "outFile example_config False (toISOString ?x)
      = ''backups/shop-full-2024-01-02T03-04-05-678Z.dump''"
    by (simp add: outFile_def example_config_def example_externals_commands_fail_def
          example_externals_def replace_colon_dot_def path_join_def normalize_def)
  have f: "exec_fails ?x cmd" for cmd
    by (simp add: example_externals_commands_fail_def)
  have "\<exists>f. getLatestBackup ?x example_config = Inr f"
    by (rule getLatestBackup_returns [where names = "[''a.dump'', ''notes.txt'', ''b.sql.gz'']"])
       (simp_all add: example_externals_commands_fail_def example_externals_def)
  then obtain g where g: "getLatestBackup ?x example_config = Inr g" by blast
  from process_run_started [OF c m] obtain w1 where
    "process_run ?x example_env (Some ''backup'') None example_world
       = (ended (fst (cli ?x example_config (Some ''backup'') None w1)),
          snd (cli ?x example_config (Some ''backup'') None w1))"
    by blast
  then have "fst (process_run ?x example_env (Some ''backup'') None example_world)
     = ended (fst (cli ?x example_config (Some ''backup'') None w1))"
    by simp
  also have \<open>\<dots> = UnhandledRejection
         (CommandFailed (dumpCmd example_config False @ '' -f "''
            @ outFile example_config False (toISOString ?x) @ ''"''))\<close>
    unfolding cli_ended by (simp add: g f)
  finally show ?thesis
    using c by (simp add: out) (simp add: dumpCmd_def example_config_def)
qed

text \<open>
  Claim C3, amended.  For every run that passes configuration validation, the way the
  process ends is determined as follows.  It ends with an error exactly in these cases:
  the staging directory cannot be created; no file argument is given and the staging
  directory cannot be listed or one of its matching entries cannot be examined, whatever
  the command; the full-mode dump command fails; a stream of the compression pipeline
  fails; the decompression of the file being restored fails; the dev-server command
  fails.  In every other case it runs to completion.  A failure of the restore tool and
  a failure of a request to the bucket (upload, listing, deletion) are not among these
  cases: the restore tool is run and, when it fails, the failure is reported on the
  error console; the upload is requested and, when it fails, reported; after a
  successful upload the listing is requested and, when it fails, reported; and when an
  object to delete cannot be deleted, a failed deletion is among the events and is
  reported.  Every such report is the report of a failure that occurred.  (The read
  stream of the upload, opened outside the \<open>try\<close> at line 180, does not fail in a run:
  the artifact it reads has just been written.)  In data-only
  mode the dump command is started and its failure is neither caught nor reported and
  does not end the process: when the compression pipeline finishes, the backup is
  reported as saved whether the dump succeeded or not.
\<close>

theorem handled_failures_do_not_end_the_run:
  assumes \<open>load_config (new_URL x) env = Inr c\<close>
  shows \<open>(let (out, w') = process_run x env cmd arg w;
              es = emitted w w';
              target = (if truthy arg then Inr arg else getLatestBackup x c);
              full_file = outFile c False (toISOString x);
              data_file = outFile c True (toISOString x);
              full_dump = dumpCmd c False @ '' -f "'' @ full_file @ ''"'';
              restoring = (cmd = Some ''restore'' \<or> cmd = Some ''restore-and-dev'');
              saved = (cmd = Some ''backup'' \<and> \<not> exec_fails x full_dump \<or>
                       cmd = Some ''backup-data'' \<and> gzip_outcome x data_file = Finished);
              key = basename (if cmd = Some ''backup'' then full_file else data_file);
              old = drop KEEP_LAST (sort_key (\<lambda>ob. - LastModified ob)
                      (filter (\<lambda>ob. Key ob \<noteq> key) (bucket w)
                         @ [\<lparr>Key = key, LastModified = put_time x\<rparr>]))
          in out =
               (if mkdirSync_fails x then UncaughtException (MkdirFailed (BACKUP_DIR c))
                else case target of
                  Inl e \<Rightarrow> UnhandledRejection e
                | Inr f \<Rightarrow>
                    if cmd = Some ''backup''
                    then (if exec_fails x full_dump
                          then UnhandledRejection (CommandFailed full_dump) else Completed)
                    else if cmd = Some ''backup-data''
                    then (case gzip_outcome x data_file of
                            Finished \<Rightarrow> Completed
                          | Faulted s \<Rightarrow> UncaughtException (StreamFault s)
                          | NotOpened s \<Rightarrow> UncaughtException (StreamFault s))
                    else if restoring
                    then (case f of
                            None \<Rightarrow> Completed
                          | Some p \<Rightarrow>
                              if p = [] then Completed
                              else if \<not> endsWith p ''.gz''
                              then (if cmd = Some ''restore-and-dev'' \<and> exec_fails x ''npm run dev''
                                    then UnhandledRejection (CommandFailed ''npm run dev'')
                                    else Completed)
                              else (case gunzip_outcome x p of
                                      Finished \<Rightarrow>
                                        (if cmd = Some ''restore-and-dev'' \<and> exec_fails x ''npm run dev''
                                         then UnhandledRejection (CommandFailed ''npm run dev'')
                                         else Completed)
                                    | Faulted s \<Rightarrow>
                                        (if s = Sink then UnhandledRejection (StreamFault s)
                                         else UncaughtException (StreamFault s))
                                    | NotOpened s \<Rightarrow>
                                        (if s = Sink then UnhandledRejection (StreamFault s)
                                         else UncaughtException (StreamFault s))))
                    else Completed) \<and>
             failures_reported c es \<and>
             reports_justified c es \<and>
             (\<not> mkdirSync_fails x \<and> restoring \<longrightarrow>
                (\<forall>p. target = Inr (Some p) \<and> p \<noteq> [] \<and>
                     (endsWith p ''.gz'' \<longrightarrow> gunzip_outcome x p = Finished) \<longrightarrow>
                     Exec (restoreCmd c (strip_gz p)) (\<not> exec_fails x (restoreCmd c (strip_gz p)))
                       \<in> set es \<and>
                     (if exec_fails x (restoreCmd c (strip_gz p))
                      then ConsoleError (RestoreFailed (CommandFailed (restoreCmd c (strip_gz p))))
                      else ConsoleLog RestoreComplete) \<in> set es)) \<and>
             (\<not> mkdirSync_fails x \<and> \<not> isl target \<and> saved \<and> truthy (B2_BUCKET c) \<longrightarrow>
                PutObject key (\<not> put_fails x key) \<in> set es \<and>
                (put_fails x key \<longrightarrow>
                   ConsoleError (UploadCleanupFailed (PutFailed key)) \<in> set es) \<and>
                (\<not> put_fails x key \<longrightarrow>
                   ListObjectsV2 (\<not> list_fails x) \<in> set es \<and>
                   (list_fails x \<longrightarrow>
                      ConsoleError (UploadCleanupFailed ListFailed) \<in> set es) \<and>
                   (\<not> list_fails x \<and> (\<exists>ob \<in> set old. delete_fails x (Key ob)) \<longrightarrow>
                      (\<exists>k. delete_fails x k \<and> DeleteObject k False \<in> set es \<and>
                           ConsoleError (UploadCleanupFailed (DeleteFailed k)) \<in> set es)))) \<and>
             (\<not> mkdirSync_fails x \<and> \<not> isl target \<and> cmd = Some ''backup-data'' \<longrightarrow>
                Exec (dumpCmd c True) (\<not> exec_fails x (dumpCmd c True)) \<in> set es \<and>
                ConsoleError (RestoreFailed (CommandFailed (dumpCmd c True))) \<notin> set es \<and>
                ConsoleError (UploadCleanupFailed (CommandFailed (dumpCmd c True))) \<notin> set es \<and>
                (gzip_outcome x data_file = Finished \<longrightarrow>
                   ConsoleLog (BackupSaved data_file) \<in> set es)))\<close>
proof (cases "mkdirSync_fails x")
  case True
  have "failures_reported c (if snd (parse_DATABASE_URL (new_URL x) env)
            then [ConsoleError FailedToParseDatabaseUrl] else [])"
    "reports_justified c (if snd (parse_DATABASE_URL (new_URL x) env)
            then [ConsoleError FailedToParseDatabaseUrl] else [])"
    by (simp_all add: failures_reported_def reports_justified_def)
  then show ?thesis
    using True process_run_not_started [OF assms True, where cmd = cmd and arg = arg and w = w]
    by (simp add: Let_def case_prod_beta)
next
  case False
  define pre where "pre = (if snd (parse_DATABASE_URL (new_URL x) env)
                           then [ConsoleError FailedToParseDatabaseUrl] else [])"
  define target where "target = (if truthy arg then Inr arg else getLatestBackup x c)"
  from process_run_started [OF assms False, where cmd = cmd and arg = arg and w = w] obtain w1 where
    t1: "trace w1 = trace w @ pre" and b1: "bucket w1 = bucket w"
    and run: "process_run x env cmd arg w = (ended (fst (cli x c cmd arg w1)), snd (cli x c cmd arg w1))"
    unfolding pre_def by blast
  define w' where "w' = snd (cli x c cmd arg w1)"
  define es1 where "es1 = emitted w1 w'"
  from cli_reports [of c x cmd arg] have "reports_extend c w1 w'"
    unfolding preserves_def w'_def by blast
  then obtain es where es: "trace w' = trace w1 @ es"
    and r1: "failures_reported c es" and j1: "reports_justified c es"
    unfolding reports_extend_def by blast
  have es1: "es1 = es" unfolding es1_def using es by (rule emitted_append)
  have em: "emitted w w' = pre @ es1"
    by (rule emitted_append) (simp add: es es1 t1)
  have p1: "failures_reported c pre" and p2: "reports_justified c pre"
    by (simp_all add: pre_def failures_reported_def reports_justified_def)
  have rep: "failures_reported c (pre @ es1)"
    unfolding es1 using p1 r1 by (rule failures_reported_append)
  have jus: "reports_justified c (pre @ es1)"
    unfolding es1 using p2 j1 by (rule reports_justified_append)
  have sub: "e \<in> set es1 \<Longrightarrow> e \<in> set (pre @ es1)" for e by simp
  have outcome: "fst (process_run x env cmd arg w) = ended (fst (cli x c cmd arg w1))"
    by (simp add: run)
  have restore_part:
    "Exec (restoreCmd c (strip_gz p)) (\<not> exec_fails x (restoreCmd c (strip_gz p)))
       \<in> set (pre @ es1) \<and>
     (if exec_fails x (restoreCmd c (strip_gz p))
      then ConsoleError (RestoreFailed (CommandFailed (restoreCmd c (strip_gz p))))
      else ConsoleLog RestoreComplete) \<in> set (pre @ es1)"
    if "cmd = Some ''restore'' \<or> cmd = Some ''restore-and-dev''"
      "target = Inr (Some p)" "p \<noteq> []" "endsWith p ''.gz'' \<longrightarrow> gunzip_outcome x p = Finished"
    for p
    using cli_restore_events [OF that(2) [unfolded target_def] that(3) that(1) that(4), where w = w1]
    unfolding es1_def w'_def by auto
  have bucket_part:
    \<open>PutObject key (\<not> put_fails x key) \<in> set (pre @ es1) \<and>
     (put_fails x key \<longrightarrow> ConsoleError (UploadCleanupFailed (PutFailed key)) \<in> set (pre @ es1)) \<and>
     (\<not> put_fails x key \<longrightarrow>
        ListObjectsV2 (\<not> list_fails x) \<in> set (pre @ es1) \<and>
        (list_fails x \<longrightarrow> ConsoleError (UploadCleanupFailed ListFailed) \<in> set (pre @ es1)) \<and>
        (\<not> list_fails x \<and>
         (\<exists>ob \<in> set (drop KEEP_LAST (sort_key (\<lambda>ob. - LastModified ob)
                      (filter (\<lambda>ob. Key ob \<noteq> key) (bucket w)
                         @ [\<lparr>Key = key, LastModified = put_time x\<rparr>]))). delete_fails x (Key ob)) \<longrightarrow>
           (\<exists>k. delete_fails x k \<and> DeleteObject k False \<in> set (pre @ es1) \<and>
                ConsoleError (UploadCleanupFailed (DeleteFailed k)) \<in> set (pre @ es1))))\<close>
    if nt: "\<not> isl target"
      and saved: \<open>cmd = Some ''backup'' \<and>
                  \<not> exec_fails x (dumpCmd c False @ '' -f "'' @ outFile c False (toISOString x) @ ''"'') \<or>
                cmd = Some ''backup-data'' \<and> gzip_outcome x (outFile c True (toISOString x)) = Finished\<close>
      and b: "truthy (B2_BUCKET c)"
      and key: "key = basename (if cmd = Some ''backup'' then outFile c False (toISOString x)
                                else outFile c True (toISOString x))"
    for key
  proof -
    from nt obtain f where tgt: "(if truthy arg then Inr arg else getLatestBackup x c) = Inr f"
      unfolding target_def by (cases "if truthy arg then Inr arg else getLatestBackup x c") auto
    note ev = cli_bucket_events [OF tgt saved b key, where w = w1, folded w'_def es1_def, unfolded b1]
    have 1: "PutObject key (\<not> put_fails x key) \<in> set (pre @ es1)"
      using ev(1) by (rule sub)
    have 2: "ListObjectsV2 (\<not> list_fails x) \<in> set (pre @ es1)" if "\<not> put_fails x key"
      using ev(2) [OF that] by (rule sub)
    have 3: "\<exists>k. delete_fails x k \<and> DeleteObject k False \<in> set (pre @ es1)"
      if "\<not> put_fails x key" "\<not> list_fails x"
        "\<exists>ob \<in> set (drop KEEP_LAST (sort_key (\<lambda>ob. - LastModified ob)
                      (filter (\<lambda>ob. Key ob \<noteq> key) (bucket w)
                         @ [\<lparr>Key = key, LastModified = put_time x\<rparr>]))). delete_fails x (Key ob)"
      using ev(3) [OF that] sub by blast
    from rep have r:
      "PutObject k False \<in> set (pre @ es1) \<Longrightarrow>
         ConsoleError (UploadCleanupFailed (PutFailed k)) \<in> set (pre @ es1)"
      "ListObjectsV2 False \<in> set (pre @ es1) \<Longrightarrow>
         ConsoleError (UploadCleanupFailed ListFailed) \<in> set (pre @ es1)"
      "DeleteObject k False \<in> set (pre @ es1) \<Longrightarrow>
         ConsoleError (UploadCleanupFailed (DeleteFailed k)) \<in> set (pre @ es1)" for k
      unfolding failures_reported_def by blast+
    show ?thesis
    proof (intro conjI impI)
      show "PutObject key (\<not> put_fails x key) \<in> set (pre @ es1)" by (rule 1)
      show "ConsoleError (UploadCleanupFailed (PutFailed key)) \<in> set (pre @ es1)"
        if "put_fails x key"
        using 1 that by (intro r(1)) simp
      show "ListObjectsV2 (\<not> list_fails x) \<in> set (pre @ es1)" if "\<not> put_fails x key"
        using that by (rule 2)
      show "ConsoleError (UploadCleanupFailed ListFailed) \<in> set (pre @ es1)"
        if "\<not> put_fails x key" "list_fails x"
        using 2 [OF that(1)] that(2) by (intro r(2)) simp
      show "\<exists>k. delete_fails x k \<and> DeleteObject k False \<in> set (pre @ es1) \<and>
                ConsoleError (UploadCleanupFailed (DeleteFailed k)) \<in> set (pre @ es1)"
        if "\<not> put_fails x key"
          "\<not> list_fails x \<and>
           (\<exists>ob \<in> set (drop KEEP_LAST (sort_key (\<lambda>ob. - LastModified ob)
                      (filter (\<lambda>ob. Key ob \<noteq> key) (bucket w)
                         @ [\<lparr>Key = key, LastModified = put_time x\<rparr>]))). delete_fails x (Key ob))"
      proof -
        from 3 [OF that(1)] that(2) obtain k where
          "delete_fails x k" "DeleteObject k False \<in> set (pre @ es1)"
          by blast
        with r(3) show ?thesis by blast
      qed
    qed
  qed
  have data_part:
    "Exec (dumpCmd c True) (\<not> exec_fails x (dumpCmd c True)) \<in> set (pre @ es1) \<and>
     ConsoleError (RestoreFailed (CommandFailed (dumpCmd c True))) \<notin> set (pre @ es1) \<and>
     ConsoleError (UploadCleanupFailed (CommandFailed (dumpCmd c True))) \<notin> set (pre @ es1) \<and>
     (gzip_outcome x (outFile c True (toISOString x)) = Finished \<longrightarrow>
        ConsoleLog (BackupSaved (outFile c True (toISOString x))) \<in> set (pre @ es1))"
    if nt: "\<not> isl target" and d: "cmd = Some ''backup-data''"
  proof -
    from nt obtain f where tgt: "(if truthy arg then Inr arg else getLatestBackup x c) = Inr f"
      unfolding target_def by (cases "if truthy arg then Inr arg else getLatestBackup x c") auto
    note ev = cli_data_dump_events [OF tgt d, where w = w1, folded w'_def es1_def]
    show ?thesis
      using ev(1) ev(2) dump_failure_never_reported [OF jus, of True]
      by (auto intro: sub)
  qed
  show ?thesis
    unfolding Let_def case_prod_beta outcome cli_ended
    unfolding run snd_conv w'_def [symmetric] em target_def [symmetric]
    apply (intro conjI)
    subgoal using False by simp
    subgoal by (rule rep)
    subgoal by (rule jus)
    subgoal by (intro impI allI; elim conjE; rule restore_part; assumption)
    subgoal by (intro impI; elim conjE; rule bucket_part [OF _ _ _ refl]; assumption)
    subgoal by (intro impI; elim conjE; rule data_part; assumption)
    done
qed

theorem handled_failures_do_not_end_the_run_witness:
  "load_config (new_URL example_externals_commands_fail) example_env = Inr example_config \<and>
   exec_fails example_externals_commands_fail (restoreCmd example_config ''backups/a.dump'') \<and>
   fst (process_run example_externals_commands_fail example_env (Some ''restore'')
          (Some ''backups/a.dump'') example_world) = Completed \<and>
   Exec (restoreCmd example_config ''backups/a.dump'') False
     \<in> set (emitted example_world
               (snd (process_run example_externals_commands_fail example_env (Some ''restore'')
                       (Some ''backups/a.dump'') example_world))) \<and>
   ConsoleError (RestoreFailed (CommandFailed (restoreCmd example_config ''backups/a.dump'')))
     \<in> set (emitted example_world
               (snd (process_run example_externals_commands_fail example_env (Some ''restore'')
                       (Some ''backups/a.dump'') example_world))) \<and>
   fst (process_run (example_externals\<lparr>put_fails := (\<lambda>key. True)\<rparr>) example_env (Some ''backup'')
          None example_world) = Completed \<and>
   PutObject (basename (outFile example_config False ''2024-01-02T03:04:05.678Z'')) False
     \<in> set (emitted example_world
               (snd (process_run (example_externals\<lparr>put_fails := (\<lambda>key. True)\<rparr>) example_env
                       (Some ''backup'') None example_world))) \<and>
   ConsoleError (UploadCleanupFailed
                   (PutFailed (basename (outFile example_config False ''2024-01-02T03:04:05.678Z''))))
     \<in> set (emitted example_world
               (snd (process_run (example_externals\<lparr>put_fails := (\<lambda>key. True)\<rparr>) example_env
                       (Some ''backup'') None example_world)))"
proof -
  let ?x = example_externals_commands_fail
  let ?y = "example_externals\<lparr>put_fails := (\<lambda>key. True)\<rparr>"
  let ?run = "process_run ?x example_env (Some ''restore'') (Some ''backups/a.dump'') example_world"
  let ?run2 = "process_run ?y example_env (Some ''backup'') None example_world"
  have c: "load_config (new_URL ?x) example_env = Inr example_config"
    by (simp add: load_config_def parse_DATABASE_URL_def example_env_def example_config_def)
  have c2: "load_config (new_URL ?y) example_env = Inr example_config"
    by (simp add: load_config_def parse_DATABASE_URL_def example_env_def example_config_def)
  have m: "\<not> mkdirSync_fails ?x" "\<not> mkdirSync_fails ?y"
    by (simp_all add: example_externals_commands_fail_def example_externals_def)
  have f: "exec_fails ?x cmd" for cmd
    by (simp add: example_externals_commands_fail_def)
  have f2: "\<not> exec_fails example_externals cmd" for cmd
    by (simp add: example_externals_def)
  have g: "gunzip_outcome ?x q = Finished" for q
    by (simp add: example_externals_commands_fail_def example_externals_def)
  have plain: "\<not> endsWith ''backups/a.dump'' ''.gz''"
    by (simp add: endsWith_def)
  have d: "strip_gz ''backups/a.dump'' = ''backups/a.dump''"
    using plain by (rule strip_gz_id)
  have t: "truthy (Some ''backups/a.dump'')" "\<not> truthy None" "truthy (B2_BUCKET example_config)"
    by (simp_all add: truthy_def example_config_def)
  have "\<exists>f. getLatestBackup ?y example_config = Inr f"
    by (rule getLatestBackup_returns [where names = "[''a.dump'', ''notes.txt'', ''b.sql.gz'']"])
       (simp_all add: example_externals_def)
  then obtain latest where l: "getLatestBackup ?y example_config = Inr latest" by blast
  have ts: "toISOString ?y = ''2024-01-02T03:04:05.678Z''"
    by (simp add: example_externals_def)
  from handled_failures_do_not_end_the_run
         [OF c, where cmd = "Some ''restore''" and arg = "Some ''backups/a.dump''"
            and w = example_world]
  have A: "fst ?run = Completed \<and>
      Exec (restoreCmd example_config ''backups/a.dump'') False
        \<in> set (emitted example_world (snd ?run)) \<and>
      ConsoleError (RestoreFailed (CommandFailed (restoreCmd example_config ''backups/a.dump'')))
        \<in> set (emitted example_world (snd ?run))"
    unfolding Let_def by (simp add: case_prod_beta g m t plain d f)
  from handled_failures_do_not_end_the_run
         [OF c2, where cmd = "Some ''backup''" and arg = None and w = example_world]
  have B: "fst ?run2 = Completed \<and>
      PutObject (basename (outFile example_config False ''2024-01-02T03:04:05.678Z'')) False
        \<in> set (emitted example_world (snd ?run2)) \<and>
      ConsoleError (UploadCleanupFailed
                      (PutFailed (basename (outFile example_config False ''2024-01-02T03:04:05.678Z''))))
        \<in> set (emitted example_world (snd ?run2))"
    unfolding Let_def ts by (simp add: case_prod_beta m t l f2)
  from A B c f show ?thesis by blast
qed
section \<open>Fatal configuration errors\<close>

lemma parse_report_iff:
  "snd (parse_DATABASE_URL parser env) \<longleftrightarrow>
     (case env ''DATABASE_URL'' of None \<Rightarrow> False | Some s \<Rightarrow> s \<noteq> [] \<and> parser s = None)"
  by (simp add: parse_DATABASE_URL_def split: option.splits)

lemma malformed_no_url:
  "snd (parse_DATABASE_URL parser env) \<Longrightarrow> database_url parser env = None"
  by (auto simp: parse_DATABASE_URL_def database_url_def split: option.splits if_splits)

lemma startup_reports [simp]:
  "startup_report (ConsoleError FailedToParseDatabaseUrl)"
  "startup_report (ConsoleError MissingDatabaseConfig)"
  by (simp_all add: startup_report_def)

lemma process_run_fatal:
  assumes "load_config (new_URL x) env = Inl e"
  shows "fst (process_run x env cmd arg w) = Exited 1"
    and "emitted w (snd (process_run x env cmd arg w)) =
           (if snd (parse_DATABASE_URL (new_URL x) env)
            then [ConsoleError FailedToParseDatabaseUrl] else [])
           @ [ConsoleError MissingDatabaseConfig]"
    and "files (snd (process_run x env cmd arg w)) = files w"
    and "bucket (snd (process_run x env cmd arg w)) = bucket w"
  using assms by (simp_all add: process_run_def Let_def emitted_def)

lemma process_run_not_fatal:
  assumes "load_config (new_URL x) env = Inr c"
  shows "fst (process_run x env cmd arg w) \<noteq> Exited n"
    and "\<exists>es. emitted w (snd (process_run x env cmd arg w)) =
           (if snd (parse_DATABASE_URL (new_URL x) env)
            then [ConsoleError FailedToParseDatabaseUrl] else []) @ es \<and>
           (\<forall>e \<in> set es. \<not> startup_report e)"
proof -
  show "fst (process_run x env cmd arg w) \<noteq> Exited n"
    using assms
    by (simp add: process_run_def Let_def case_prod_beta ended_not_Exited)
  show "\<exists>es. emitted w (snd (process_run x env cmd arg w)) =
           (if snd (parse_DATABASE_URL (new_URL x) env)
            then [ConsoleError FailedToParseDatabaseUrl] else []) @ es \<and>
           (\<forall>e \<in> set es. \<not> startup_report e)"
  proof (cases "mkdirSync_fails x")
    case True
    from process_run_not_started(2) [OF assms True, where cmd = cmd and arg = arg and w = w]
    show ?thesis by simp
  next
    case False
    from process_run_started [OF assms False, where cmd = cmd and arg = arg and w = w]
    obtain w1 where
      t1: "trace w1 = trace w @ (if snd (parse_DATABASE_URL (new_URL x) env)
                                 then [ConsoleError FailedToParseDatabaseUrl] else [])"
      and run: "process_run x env cmd arg w
                  = (ended (fst (cli x c cmd arg w1)), snd (cli x c cmd arg w1))"
      by blast
    from cli_quiet [of x c cmd arg] obtain es where
      es: "trace (snd (cli x c cmd arg w1)) = trace w1 @ es" "\<forall>e \<in> set es. \<not> startup_report e"
      unfolding preserves_def adds_no_startup_report_def by blast
    have "emitted w (snd (process_run x env cmd arg w)) =
           (if snd (parse_DATABASE_URL (new_URL x) env)
            then [ConsoleError FailedToParseDatabaseUrl] else []) @ es"
      unfolding run snd_conv by (rule emitted_append) (simp add: es(1) t1)
    with es(2) show ?thesis by blast
  qed
qed

text \<open>
  Claim C5, as the specification states it, fails: a DATABASE_URL that is not well-formed
  is not fatal by itself.  Here the URL does not parse, the discrete variables give host,
  user and database, and resolution succeeds with them.
\<close>

theorem malformed_url_not_fatal_counterexample:
  "example_env_bad_url ''DATABASE_URL'' = Some ''not a url'' \<and>
   example_new_URL ''not a url'' = None \<and>
   load_config example_new_URL example_env_bad_url =
     Inr \<lparr>DB_HOST = ''discrete.example'', DB_USERNAME = ''alice'', DB_PASSWORD = None,
          DB_NAME = ''inventory'', DB_PORT = ''5432'', B2_BUCKET = None, BACKUP_DIR = ''./backups''\<rparr>"
  by (simp add: load_config_def parse_DATABASE_URL_def example_new_URL_def example_env_bad_url_def)

text \<open>
  Claim C5, amended.  Environment resolution fails fatally if and only if host, database
  name or user name is missing or empty after resolution: in the URL when DATABASE_URL
  is set, not empty and well-formed, in the discrete variables otherwise.  It fails by
  printing the report of the missing configuration on the error console and ending the
  process at once with \<open>process.exit(1)\<close>: that report is printed in these runs and in no
  other, it is the last event, and no command has been started and neither the local
  files nor the bucket have been touched.  A DATABASE_URL that is not well-formed is
  reported on the error console, in these runs and in no other and before anything else,
  and is not fatal by itself: the discrete variables then decide.  The exit status 1 alone
  does not tell a fatal resolution: a run whose resolution succeeds ends with status 1 too
  when the staging directory cannot be created, having started no command.
\<close>

theorem missing_field_is_fatal_and_reported:
  "(let malformed = (case env ''DATABASE_URL'' of
                       None \<Rightarrow> False
                     | Some s \<Rightarrow> s \<noteq> [] \<and> new_URL x s = None);
        missing_discrete = (\<not> truthy (env ''DB_HOST'') \<or> \<not> truthy (env ''DB_NAME'')
                            \<or> \<not> truthy (env ''DB_USERNAME''));
        fatal = (case database_url (new_URL x) env of
                   Some u \<Rightarrow> hostname u = [] \<or> drop 1 (pathname u) = [] \<or> username u = []
                 | None \<Rightarrow> missing_discrete);
        parse_report = (if malformed then [ConsoleError FailedToParseDatabaseUrl] else []);
        (out, w') = process_run x env cmd arg w;
        es = emitted w w'
    in (load_config (new_URL x) env = Inl ConfigError \<longleftrightarrow> fatal) \<and>
       (ConsoleError MissingDatabaseConfig \<in> set es \<longleftrightarrow> fatal) \<and>
       (out = Exited 1 \<longleftrightarrow> fatal) \<and>
       (ConsoleError FailedToParseDatabaseUrl \<in> set es \<longleftrightarrow> malformed) \<and>
       (malformed \<longrightarrow> take 1 es = [ConsoleError FailedToParseDatabaseUrl] \<and>
                      (fatal \<longleftrightarrow> missing_discrete)) \<and>
       (fatal \<longrightarrow> exit_status out = 1 \<and>
                  es = parse_report @ [ConsoleError MissingDatabaseConfig] \<and>
                  files w' = files w \<and> bucket w' = bucket w) \<and>
       (\<not> fatal \<and> mkdirSync_fails x \<longrightarrow> exit_status out = 1 \<and> es = parse_report))"
proof -
  define malformed where "malformed = (case env ''DATABASE_URL'' of
                       None \<Rightarrow> False
                     | Some s \<Rightarrow> s \<noteq> [] \<and> new_URL x s = None)"
  define missing_discrete where
    "missing_discrete = (\<not> truthy (env ''DB_HOST'') \<or> \<not> truthy (env ''DB_NAME'')
                            \<or> \<not> truthy (env ''DB_USERNAME''))"
  define fatal where "fatal = (case database_url (new_URL x) env of
                   Some u \<Rightarrow> hostname u = [] \<or> drop 1 (pathname u) = [] \<or> username u = []
                 | None \<Rightarrow> missing_discrete)"
  define pre where "pre = (if malformed then [ConsoleError FailedToParseDatabaseUrl] else [])"
  define out where "out = fst (process_run x env cmd arg w)"
  define w' where "w' = snd (process_run x env cmd arg w)"
  define es where "es = emitted w w'"
  have m: "snd (parse_DATABASE_URL (new_URL x) env) = malformed"
    unfolding malformed_def by (rule parse_report_iff)
  have f: "load_config (new_URL x) env = Inl ConfigError \<longleftrightarrow> fatal"
    unfolding fatal_def missing_discrete_def by (rule load_config_fatal_iff)
  have md: "malformed \<Longrightarrow> (fatal \<longleftrightarrow> missing_discrete)"
    using malformed_no_url [of "new_URL x" env] by (simp add: m fatal_def)
  have pre_set: "set pre = (if malformed then {ConsoleError FailedToParseDatabaseUrl} else {})"
    by (simp add: pre_def)
  have goal: "(load_config (new_URL x) env = Inl ConfigError \<longleftrightarrow> fatal) \<and>
       (ConsoleError MissingDatabaseConfig \<in> set es \<longleftrightarrow> fatal) \<and>
       (out = Exited 1 \<longleftrightarrow> fatal) \<and>
       (ConsoleError FailedToParseDatabaseUrl \<in> set es \<longleftrightarrow> malformed) \<and>
       (malformed \<longrightarrow> take 1 es = [ConsoleError FailedToParseDatabaseUrl] \<and>
                      (fatal \<longleftrightarrow> missing_discrete)) \<and>
       (fatal \<longrightarrow> exit_status out = 1 \<and>
                  es = pre @ [ConsoleError MissingDatabaseConfig] \<and>
                  files w' = files w \<and> bucket w' = bucket w) \<and>
       (\<not> fatal \<and> mkdirSync_fails x \<longrightarrow> exit_status out = 1 \<and> es = pre)"
  proof (cases "load_config (new_URL x) env")
    case (Inl e)
    then have fa: fatal using f by (cases e) simp
    note r = process_run_fatal [OF Inl, where cmd = cmd and arg = arg and w = w,
        folded out_def w'_def es_def, unfolded m, folded pre_def]
    have "es = pre @ [ConsoleError MissingDatabaseConfig]" by (rule r(2))
    moreover have "take 1 es = [ConsoleError FailedToParseDatabaseUrl]" if malformed
      using that r(2) by (simp add: pre_def)
    moreover have "ConsoleError FailedToParseDatabaseUrl \<in> set es \<longleftrightarrow> malformed"
      using r(2) by (simp add: pre_def)
    moreover have "ConsoleError MissingDatabaseConfig \<in> set es"
      using r(2) by simp
    ultimately show ?thesis
      using fa f md r(1,3,4) by (simp add: exit_status_def)
  next
    case (Inr c)
    then have nf: "\<not> fatal" using f by simp
    note r = process_run_not_fatal [OF Inr, where cmd = cmd and arg = arg and w = w,
        folded out_def w'_def es_def, unfolded m, folded pre_def]
    from r(2) obtain es1 where es1: "es = pre @ es1" "\<forall>e \<in> set es1. \<not> startup_report e"
      by blast
    have 1: "ConsoleError MissingDatabaseConfig \<notin> set es"
      using es1 startup_reports(2) by (auto simp: pre_def)
    have 2: "ConsoleError FailedToParseDatabaseUrl \<in> set es \<longleftrightarrow> malformed"
      using es1 startup_reports(1) by (auto simp: pre_def)
    have 3: "take 1 es = [ConsoleError FailedToParseDatabaseUrl]" if malformed
      using that es1(1) by (simp add: pre_def)
    have 4: "exit_status out = 1 \<and> es = pre" if "mkdirSync_fails x"
      using process_run_not_started [OF Inr that, where cmd = cmd and arg = arg and w = w,
          folded out_def w'_def es_def, unfolded m, folded pre_def]
      by (simp add: exit_status_def)
    from nf f md 1 2 3 4 r(1) [of 1] show ?thesis by simp
  qed
  show ?thesis
    unfolding Let_def case_prod_beta
    using goal
    unfolding malformed_def missing_discrete_def fatal_def pre_def out_def w'_def es_def
    by simp
qed

theorem missing_field_is_fatal_and_reported_witness:
  "load_config (new_URL example_externals) example_env_no_user = Inl ConfigError \<and>
   fst (process_run example_externals example_env_no_user (Some ''backup'') None example_world)
     = Exited 1 \<and>
   emitted example_world
     (snd (process_run example_externals example_env_no_user (Some ''backup'') None example_world))
     = [ConsoleError MissingDatabaseConfig] \<and>
   files (snd (process_run example_externals example_env_no_user (Some ''backup'') None
                 example_world)) = files example_world \<and>
   load_config (new_URL example_externals) example_env_bad_url \<noteq> Inl ConfigError \<and>
   take 1 (emitted example_world
             (snd (process_run example_externals example_env_bad_url (Some ''backup'') None
                     example_world)))
     = [ConsoleError FailedToParseDatabaseUrl] \<and>
   ConsoleError MissingDatabaseConfig \<notin>
     set (emitted example_world
            (snd (process_run example_externals example_env_bad_url (Some ''backup'') None
                    example_world))) \<and>
   fst (process_run example_externals example_env_bad_url (Some ''backup'') None example_world)
     \<noteq> Exited 1"
proof -
  have u: "database_url (new_URL example_externals) example_env_no_user =
     Some \<lparr>hostname = ''url.example'', port = [], username = [], password = [],
           pathname = ''/shop''\<rparr>"
    by (simp add: database_url_def example_externals_def example_new_URL_def
          example_env_no_user_def)
  have e: "example_env_no_user ''DATABASE_URL'' = Some ''postgres://url.example/shop''"
    by (simp add: example_env_no_user_def)
  have p: "new_URL example_externals ''postgres://url.example/shop'' \<noteq> None"
    using u by (simp add: database_url_def e)
  have A: "load_config (new_URL example_externals) example_env_no_user = Inl ConfigError \<and>
   fst (process_run example_externals example_env_no_user (Some ''backup'') None example_world)
     = Exited 1 \<and>
   emitted example_world
     (snd (process_run example_externals example_env_no_user (Some ''backup'') None example_world))
     = [ConsoleError MissingDatabaseConfig] \<and>
   files (snd (process_run example_externals example_env_no_user (Some ''backup'') None
                 example_world)) = files example_world"
    using missing_field_is_fatal_and_reported [where x = example_externals
        and env = example_env_no_user and cmd = "Some ''backup''" and arg = None
        and w = example_world]
    unfolding u Let_def e using p by (simp add: case_prod_beta)
  have v: "database_url (new_URL example_externals) example_env_bad_url = None"
    by (simp add: database_url_def example_externals_def example_new_URL_def
          example_env_bad_url_def)
  have e2: "example_env_bad_url ''DATABASE_URL'' = Some ''not a url''"
      "truthy (example_env_bad_url ''DB_HOST'')" "truthy (example_env_bad_url ''DB_NAME'')"
      "truthy (example_env_bad_url ''DB_USERNAME'')"
    by (simp_all add: example_env_bad_url_def truthy_def)
  have p2: "new_URL example_externals ''not a url'' = None"
    by (simp add: example_externals_def example_new_URL_def)
  have B: "load_config (new_URL example_externals) example_env_bad_url \<noteq> Inl ConfigError \<and>
   take 1 (emitted example_world
             (snd (process_run example_externals example_env_bad_url (Some ''backup'') None
                     example_world)))
     = [ConsoleError FailedToParseDatabaseUrl] \<and>
   ConsoleError MissingDatabaseConfig \<notin>
     set (emitted example_world
            (snd (process_run example_externals example_env_bad_url (Some ''backup'') None
                    example_world))) \<and>
   fst (process_run example_externals example_env_bad_url (Some ''backup'') None example_world)
     \<noteq> Exited 1"
    using missing_field_is_fatal_and_reported [where x = example_externals
        and env = example_env_bad_url and cmd = "Some ''backup''" and arg = None
        and w = example_world]
    unfolding v Let_def e2(1) using p2 e2(2-4) by (simp add: case_prod_beta)
  from A B show ?thesis by blast
qed

end
